(* ===== verification/Events.thy ===== *)
theory Events
  imports Prelude
begin

text \<open>
  The event model of \<open>internal/collector/collector.go\<close> and the container metadata of
  \<open>internal/container/mapper.go\<close>: the records \<open>Event\<close> and \<open>Info\<close>, the event types
  shared with the eBPF program, and the methods \<open>IsHost\<close> and \<open>TypeName\<close>.
  The scalar fields keep the width they have in Go.
\<close>

section \<open>Container metadata\<close>

record info =
  c_ID :: string
  c_ShortID :: string
  c_Name :: string
  c_ImageName :: string
  c_ResolvedAt :: time

section \<open>Events\<close>

definition EventExecve :: "8 word" where "EventExecve = 1"
definition EventOpen :: "8 word" where "EventOpen = 2"
definition EventConnect :: "8 word" where "EventConnect = 3"
definition EventClone :: "8 word" where "EventClone = 4"
definition EventPtrace :: "8 word" where "EventPtrace = 5"
definition EventModule :: "8 word" where "EventModule = 6"
definition EventBPF :: "8 word" where "EventBPF = 7"

lemmas event_type_defs = EventExecve_def EventOpen_def EventConnect_def EventClone_def
  EventPtrace_def EventModule_def EventBPF_def

record event =
  e_PID :: "32 word"
  e_TID :: "32 word"
  e_UID :: "32 word"
  e_Type :: "8 word"
  e_ProcessName :: string
  e_Filename :: string
  e_DstPort :: "16 word"
  e_DstIP :: "8 word list"
  e_Timestamp :: time
  e_Arg1 :: "64 word"
  e_Arg2 :: "64 word"
  e_Ancestry :: "string list"
  e_Args :: "string list"
  e_CmdLine :: string
  e_Container :: "info option"

definition IsHost :: "event \<Rightarrow> bool" where
  "IsHost e \<longleftrightarrow> e_Container e = None"

definition type_name :: "8 word \<Rightarrow> string" where
  "type_name t =
     (if t = EventExecve then ''execve''
      else if t = EventOpen then ''open''
      else if t = EventConnect then ''connect''
      else if t = EventClone then ''clone''
      else if t = EventPtrace then ''ptrace''
      else if t = EventModule then ''init_module''
      else if t = EventBPF then ''bpf''
      else ''unknown'')"

definition TypeName :: "event \<Rightarrow> string" where
  "TypeName e = type_name (e_Type e)"

text \<open>A type name other than \<open>unknown\<close> determines the event type.\<close>

lemma type_name_iff:
  "type_name t = ''execve'' \<longleftrightarrow> t = EventExecve"
  "type_name t = ''open'' \<longleftrightarrow> t = EventOpen"
  "type_name t = ''connect'' \<longleftrightarrow> t = EventConnect"
  "type_name t = ''clone'' \<longleftrightarrow> t = EventClone"
  "type_name t = ''ptrace'' \<longleftrightarrow> t = EventPtrace"
  "type_name t = ''init_module'' \<longleftrightarrow> t = EventModule"
  "type_name t = ''bpf'' \<longleftrightarrow> t = EventBPF"
  by (auto simp: type_name_def event_type_defs)

lemma event_types_distinct [simp]:
  "distinct [EventExecve, EventOpen, EventConnect, EventClone, EventPtrace, EventModule, EventBPF]"
  by (simp add: event_type_defs)

definition empty_event :: event where
  "empty_event = \<lparr>e_PID = 0, e_TID = 0, e_UID = 0, e_Type = 0, e_ProcessName = [], e_Filename = [],
     e_DstPort = 0, e_DstIP = [], e_Timestamp = 0, e_Arg1 = 0, e_Arg2 = 0, e_Ancestry = [],
     e_Args = [], e_CmdLine = [], e_Container = None\<rparr>"

end
