(* ===== verification/Alerts.thy ===== *)
theory Alerts
  imports Events
begin

text \<open>
  The alert model of \<open>internal/alerter/alerter.go\<close>: severities and their ranks, the record
  \<open>Alert\<close>, incidents, and the kill-chain order of the MITRE tactics. The dynamically typed
  values of \<open>Details\<close> are the datatype \<open>gval\<close>; a Go map of such values is an
  association list with distinct keys, the nil map being the empty list.
\<close>

datatype gval =
    GStr string
  | GInt int
  | GBool bool
  | GStrs "string list"
  | GMap "(string \<times> gval) list"

section \<open>Severities\<close>

type_synonym severity = string

definition SeverityLow :: severity where "SeverityLow = ''low''"
definition SeverityMedium :: severity where "SeverityMedium = ''medium''"
definition SeverityHigh :: severity where "SeverityHigh = ''high''"
definition SeverityCritical :: severity where "SeverityCritical = ''critical''"

lemmas severity_defs = SeverityLow_def SeverityMedium_def SeverityHigh_def SeverityCritical_def

text \<open>A map lookup: unknown severities rank 0.\<close>

definition severityRank :: "severity \<Rightarrow> int" where
  "severityRank s =
     (if s = SeverityLow then 1 else if s = SeverityMedium then 2
      else if s = SeverityHigh then 3 else if s = SeverityCritical then 4 else 0)"

section \<open>Scopes\<close>

definition ScopeContainerName :: string where "ScopeContainerName = ''container''"
definition ScopeHostName :: string where "ScopeHostName = ''host''"

section \<open>Alerts\<close>

record alert =
  a_ID :: string
  a_RuleID :: string
  a_ServerName :: string
  a_Timestamp :: time
  a_Severity :: severity
  a_Scope :: string
  a_ContainerID :: string
  a_ContainerName :: string
  a_ImageName :: string
  a_Syscall :: string
  a_PID :: "32 word"
  a_ProcessName :: string
  a_Reason :: string
  a_Details :: "(string \<times> gval) list"
  a_ParentName :: string
  a_Ancestry :: "string list"
  a_CmdLine :: string
  a_MITRETTP :: string
  a_MITRETactic :: string
  a_Tags :: "string list"
  a_KillChainPhase :: string
  a_RiskScore :: int

definition empty_alert :: alert where
  "empty_alert = \<lparr>a_ID = [], a_RuleID = [], a_ServerName = [], a_Timestamp = 0, a_Severity = [],
     a_Scope = [], a_ContainerID = [], a_ContainerName = [], a_ImageName = [], a_Syscall = [],
     a_PID = 0, a_ProcessName = [], a_Reason = [], a_Details = [], a_ParentName = [],
     a_Ancestry = [], a_CmdLine = [], a_MITRETTP = [], a_MITRETactic = [], a_Tags = [],
     a_KillChainPhase = [], a_RiskScore = 0\<rparr>"

definition TagAttackChain :: string where
  "TagAttackChain = ''attack-chain''"

definition IsIncident :: "alert \<Rightarrow> bool" where
  "IsIncident a \<longleftrightarrow> (\<exists>t \<in> set (a_Tags a). t = TagAttackChain)"

lemma IsIncident_iff: "IsIncident a \<longleftrightarrow> TagAttackChain \<in> set (a_Tags a)"
  by (simp add: IsIncident_def)

definition scopeOrDefault :: "alert \<Rightarrow> string" where
  "scopeOrDefault a = (if a_Scope a = [] then ScopeContainerName else a_Scope a)"

section \<open>The kill chain\<close>

definition killChainOrder :: "string list" where
  "killChainOrder =
     [''Initial Access'', ''Execution'', ''Persistence'', ''Privilege Escalation'',
      ''Defense Evasion'', ''Credential Access'', ''Discovery'', ''Lateral Movement'',
      ''Collection'', ''Command and Control'', ''Exfiltration'', ''Impact'']"

definition killChainRank :: "(string \<times> nat) list" where
  "killChainRank = map (\<lambda>(i, t). (to_lower t, i + 1)) (enumerate 0 killChainOrder)"

definition KillChainRank :: "string \<Rightarrow> nat" where
  "KillChainRank tactic =
     (case map_of killChainRank (to_lower (trim_space tactic)) of Some r \<Rightarrow> r | None \<Rightarrow> 0)"

lemma killChainRank_code:
  "killChainRank =
     [(''initial access'', 1), (''execution'', 2), (''persistence'', 3),
      (''privilege escalation'', 4), (''defense evasion'', 5), (''credential access'', 6),
      (''discovery'', 7), (''lateral movement'', 8), (''collection'', 9),
      (''command and control'', 10), (''exfiltration'', 11), (''impact'', 12)]"
  by code_simp

declare killChainRank_code [code]

text \<open>The ranks are the positions 1 to 12, each tactic has its own, and every other text has 0.\<close>

lemma KillChainRank_order: "map KillChainRank killChainOrder = [1, 2, 3, 4, 5, 6, 7, 8, 9, 10, 11, 12]"
  by code_simp

lemma KillChainRank_le: "KillChainRank t \<le> 12"
proof (cases "map_of killChainRank (to_lower (trim_space t))")
  case (Some r)
  then have "(to_lower (trim_space t), r) \<in> set killChainRank"
    by (rule map_of_SomeD)
  then have "r \<le> 12" by (auto simp: killChainRank_code)
  with Some show ?thesis by (simp add: KillChainRank_def)
qed (simp add: KillChainRank_def)

lemma KillChainRank_zero_iff:
  "KillChainRank t = 0 \<longleftrightarrow> to_lower (trim_space t) \<notin> set (map to_lower killChainOrder)"
proof -
  have "map fst killChainRank = map to_lower killChainOrder"
    by code_simp
  then have keys: "set (map to_lower killChainOrder) = fst ` set killChainRank"
    by (metis list.set_map)
  have pos: "(k, r) \<in> set killChainRank \<Longrightarrow> 0 < r" for k r
    by (auto simp: killChainRank_def)
  show ?thesis
    unfolding KillChainRank_def keys
    by (force simp: map_of_eq_None_iff split: option.splits dest!: map_of_SomeD dest: pos)
qed

end
