(* ===== verification/RuleTypes.thy ===== *)
theory RuleTypes
  imports Alerts
begin

text \<open>
  The data of the rule engine: scopes, lineages, results and the interface to the detector's
  classifier (\<open>internal/ruleengine/types.go\<close>), and the parsed YAML documents
  (\<open>internal/ruleengine/schema.go\<close>). YAML decoding itself is \<open>gopkg.in/yaml.v3\<close>; a document
  is the decoded \<open>File\<close> value, its maps association lists. The interface \<open>LineageProvider\<close> is
  a record of its four methods, and the locale \<open>lineage_provider\<close> states what the engine and the
  alerts it yields rely on.
\<close>

section \<open>Scopes and lineages\<close>

type_synonym scope = "8 word"

definition ScopeContainer :: scope where "ScopeContainer = 1"
definition ScopeHost :: scope where "ScopeHost = 2"
definition ScopeAll :: scope where "ScopeAll = ScopeContainer OR ScopeHost"

lemmas scope_defs = ScopeContainer_def ScopeHost_def ScopeAll_def

datatype Lineage = LineageUnknown | LineageTrusted | LineageInteractive | LineageNetwork

definition lineageNames :: "(string \<times> Lineage) list" where
  "lineageNames = [(''unknown'', LineageUnknown), (''trusted'', LineageTrusted),
     (''interactive'', LineageInteractive), (''network'', LineageNetwork)]"

fun lineage_string :: "Lineage \<Rightarrow> string" where
  "lineage_string LineageNetwork = ''network''"
| "lineage_string LineageInteractive = ''interactive''"
| "lineage_string LineageTrusted = ''trusted''"
| "lineage_string LineageUnknown = ''unknown''"

lemma lineage_string_roundtrip: "map_of lineageNames (lineage_string l) = Some l"
  by (cases l) (simp_all add: lineageNames_def)

lemma lineage_string_iff:
  "lineage_string l = ''network'' \<longleftrightarrow> l = LineageNetwork"
  "lineage_string l = ''interactive'' \<longleftrightarrow> l = LineageInteractive"
  "lineage_string l = ''trusted'' \<longleftrightarrow> l = LineageTrusted"
  "lineage_string l = ''unknown'' \<longleftrightarrow> l = LineageUnknown"
  by (cases l; simp)+

section \<open>The interface to the classifier\<close>

record provider =
  p_Classify :: "string list \<Rightarrow> bool \<Rightarrow> Lineage"
  p_TrustedWriter :: "string list \<Rightarrow> bool"
  p_NetworkParent :: "string list \<Rightarrow> string"
  p_IsDockerClient :: "string \<Rightarrow> bool"

locale lineage_provider =
  fixes lp :: provider
  assumes network_parent_iff:
      "p_NetworkParent lp anc \<noteq> [] \<longleftrightarrow> p_Classify lp anc host = LineageNetwork"
    and network_parent_member: "p_NetworkParent lp anc \<noteq> [] \<Longrightarrow> p_NetworkParent lp anc \<in> set anc"
    and classify_network_mono:
      "p_Classify lp anc host = LineageNetwork \<Longrightarrow> set anc \<subseteq> set anc' \<Longrightarrow>
       p_Classify lp anc' host = LineageNetwork"
    and trusted_writer_mono:
      "p_TrustedWriter lp xs \<Longrightarrow> set xs \<subseteq> set ys \<Longrightarrow> p_TrustedWriter lp ys"
begin

lemma network_scope_independent:
  "p_Classify lp anc True = LineageNetwork \<longleftrightarrow> p_Classify lp anc False = LineageNetwork"
  using network_parent_iff by blast

lemma network_parent_nonempty_ancestry: "p_Classify lp anc host = LineageNetwork \<Longrightarrow> anc \<noteq> []"
  using network_parent_iff network_parent_member by fastforce

lemma classify_order_independent:
  "set anc = set anc' \<Longrightarrow>
   p_Classify lp anc host = LineageNetwork \<longleftrightarrow> p_Classify lp anc' host = LineageNetwork"
  using classify_network_mono by blast

end

section \<open>Results\<close>

record result =
  r_RuleID :: string
  r_Reason :: string
  r_Severity :: severity
  r_Tactic :: string
  r_Technique :: string
  r_Tags :: "string list"
  r_Details :: "(string \<times> gval) list"

definition parseSeverity :: "string \<Rightarrow> severity option" where
  "parseSeverity s =
     (if s = ''low'' then Some SeverityLow
      else if s = ''medium'' then Some SeverityMedium
      else if s = ''high'' then Some SeverityHigh
      else if s = ''critical'' then Some SeverityCritical
      else None)"

lemma parseSeverity_rank: "parseSeverity s = Some sev \<Longrightarrow> 1 \<le> severityRank sev \<and> severityRank sev \<le> 4"
  by (auto simp: parseSeverity_def severityRank_def severity_defs split: if_splits)

section \<open>Ruleset documents\<close>

record arm_spec =
  as_When :: "string list"
  as_And :: string
  as_Action :: string
  as_Severity :: string
  as_Reason :: string
  as_Details :: "(string \<times> string) list"

record exception_spec =
  es_Name :: string
  es_Fields :: "string list"
  es_Comps :: "string list"
  es_Values :: "string list list"

record rule_spec =
  rs_ID :: string
  rs_Desc :: string
  rs_Scope :: string
  rs_Tactic :: string
  rs_Technique :: string
  rs_Tags :: "string list"
  rs_Enabled :: "bool option"
  rs_Condition :: string
  rs_Severity :: string
  rs_Reason :: string
  rs_Details :: "(string \<times> string) list"
  rs_Lineage :: "arm_spec list"
  rs_Exceptions :: "exception_spec list"
  rs_Append :: bool
  rs_Override :: bool

record rule_file =
  f_Lists :: "(string \<times> string list) list"
  f_AppendLists :: "(string \<times> string list) list"
  f_Macros :: "(string \<times> string) list"
  f_Rules :: "rule_spec list"

section \<open>Errors of the rule engine\<close>

datatype tokKind =
    tEOF | tIdent | tList | tString | tInt | tLParen | tRParen | tLBrack | tRBrack | tComma
  | tEq | tNeq | tAmp | tAnd | tOr | tNot | tIn | tContains | tStartswith

datatype rule_err =
    UnexpectedBang nat
  | UnterminatedString nat
  | EmptyListRef nat
  | UnexpectedChar char nat
  | UnterminatedInCondition
  | MacroCycle string
  | TrailingToken string
  | ExpectedToken tokKind string
  | UnexpectedIdent string
  | UnexpectedToken string
  | UnknownField string
  | NeedsStringField string string
  | NeedsIntField string
  | UnsupportedOperator string
  | UnterminatedArgs string
  | ExpectedFieldArg string
  | NotAStringField string string
  | ExpectedListArg string
  | UnknownListIn string string
  | UnknownFunction string
  | ExpectedStringOperand string
  | ExpectedIntOperand string
  | BadInt string
  | UnknownList string
  | ExpectedStringInList string
  | ExpectedListAfterIn string
  | ExpectedIntListAfterIn string
  | MissingID
  | InvalidScope string
  | EmptyCondition
  | InvalidSeverity string
  | InvalidLineage string
  | InvalidAction string
  | BadValueRow nat nat nat
  | InCondition rule_err
  | InGuard rule_err
  | InArm nat rule_err
  | InException string rule_err
  | InRule string rule_err
  | AppendToUnknown string
  | DuplicateRule string
  | RuleWithoutID nat
  | ReadFailed string
  | InFile string rule_err

end
