(* ===== verification/Lexer.thy ===== *)
theory Lexer
  imports RuleTypes
begin

text \<open>
  The tokenizer of the condition language, \<open>internal/ruleengine/lexer.go\<close>. The index \<open>i\<close> into
  \<open>src\<close> is kept for the token positions, the text still to be read is the suffix of \<open>src\<close> from
  \<open>i\<close>; a scanning loop \<open>for j < n && p(src[j]) { j++ }\<close> is \<open>takeWhile\<close> on that suffix.
\<close>

record token =
  tk_kind :: tokKind
  tk_text :: string
  tk_pos :: nat

abbreviation tok :: "tokKind \<Rightarrow> string \<Rightarrow> nat \<Rightarrow> token" where
  "tok k t p \<equiv> \<lparr>tk_kind = k, tk_text = t, tk_pos = p\<rparr>"

definition kw_table :: "(string \<times> tokKind) list" where
  "kw_table = [(''and'', tAnd), (''or'', tOr), (''not'', tNot),
     (''in'', tIn), (''contains'', tContains), (''startswith'', tStartswith)]"

definition isIdentStart :: "char \<Rightarrow> bool" where
  "isIdentStart c \<longleftrightarrow> c = CHR ''_'' \<or> (97 \<le> code c \<and> code c \<le> 122) \<or> (65 \<le> code c \<and> code c \<le> 90)"

definition isIdentChar :: "char \<Rightarrow> bool" where
  "isIdentChar c \<longleftrightarrow> isIdentStart c \<or> is_digit c \<or> c = CHR ''.'' \<or> c = CHR ''-''"

lemma isIdentStart_bits [code]:
  "isIdentStart (Char b0 b1 b2 b3 b4 b5 b6 b7) \<longleftrightarrow>
     \<not> b7 \<and> b6 \<and> (b0 \<or> b1 \<or> b2 \<or> b3 \<or> b4) \<and>
       (\<not> (b4 \<and> b3 \<and> (b2 \<or> b1 \<and> b0)) \<or> b0 \<and> b1 \<and> b2 \<and> b3 \<and> b4 \<and> \<not> b5)"
  by (cases b0; cases b1; cases b2; cases b3; cases b4; cases b5; cases b6; cases b7)
     (simp_all add: isIdentStart_def)

definition isHexDigit :: "char \<Rightarrow> bool" where
  "isHexDigit c \<longleftrightarrow> (48 \<le> code c \<and> code c \<le> 57) \<or> (97 \<le> code c \<and> code c \<le> 102) \<or>
     (65 \<le> code c \<and> code c \<le> 70)"

definition is_blank :: "char \<Rightarrow> bool" where
  "is_blank c \<longleftrightarrow> c = CHR '' '' \<or> c = CHR 0x09 \<or> c = CHR 0x0A \<or> c = CHR 0x0D"

text \<open>The one-character tokens of the switch.\<close>

definition punct :: "char \<Rightarrow> tokKind option" where
  "punct c =
     (if c = CHR ''('' then Some tLParen
      else if c = CHR '')'' then Some tRParen
      else if c = CHR ''['' then Some tLBrack
      else if c = CHR '']'' then Some tRBrack
      else if c = CHR '','' then Some tComma
      else if c = CHR ''&'' then Some tAmp
      else if c = CHR ''='' then Some tEq
      else None)"

definition word_kind :: "string \<Rightarrow> tokKind" where
  "word_kind w = (case map_of kw_table (to_lower w) of Some k \<Rightarrow> k | None \<Rightarrow> tIdent)"

text \<open>
  One round of the loop on the non-empty rest \<open>c # cs\<close> at index \<open>i\<close>: the token read, if any,
  and the number of bytes consumed.
\<close>

definition lex_step :: "nat \<Rightarrow> char \<Rightarrow> string \<Rightarrow> (rule_err, token option \<times> nat) res" where
  "lex_step i c cs =
     (if is_blank c then Inr (None, 1)
      else (case punct c of Some k \<Rightarrow> Inr (Some (tok k [c] i), 1)
      | None \<Rightarrow>
        if c = CHR ''!'' then
          (case cs of
             d # _ \<Rightarrow> if d = CHR ''='' then Inr (Some (tok tNeq ''!='' i), 2) else Inl (UnexpectedBang i)
           | [] \<Rightarrow> Inl (UnexpectedBang i))
        else if c = CHR 0x22 then
          (let body = takeWhile (\<lambda>d. d \<noteq> CHR 0x22) cs in
           if length body = length cs then Inl (UnterminatedString i)
           else Inr (Some (tok tString body i), length body + 2))
        else if c = CHR ''$'' then
          (let name = takeWhile isIdentChar cs in
           if name = [] then Inl (EmptyListRef i)
           else Inr (Some (tok tList name i), length name + 1))
        else if is_digit c then
          (case cs of
             x # ds \<Rightarrow>
               if c = CHR ''0'' \<and> (x = CHR ''x'' \<or> x = CHR ''X'') then
                 (let hs = takeWhile isHexDigit ds in
                  Inr (Some (tok tInt (c # x # hs) i), length hs + 2))
               else
                 (let ns = takeWhile is_digit cs in
                  Inr (Some (tok tInt (c # ns) i), length ns + 1))
           | [] \<Rightarrow> Inr (Some (tok tInt [c] i), 1))
        else if isIdentStart c then
          (let word = c # takeWhile isIdentChar cs in
           Inr (Some (tok (word_kind word) word i), length word))
        else Inl (UnexpectedChar c i)))"

lemma lex_step_consumes: "lex_step i c cs = Inr (t, k) \<Longrightarrow> 0 < k \<and> k \<le> Suc (length cs)"
proof -
  have tw: "length (takeWhile P xs) \<le> length xs" for P and xs :: string
    by (rule length_takeWhile_le)
  have strict: "length (takeWhile P xs) \<noteq> length xs \<Longrightarrow> Suc (length (takeWhile P xs)) \<le> length xs"
    for P and xs :: string
    using tw [of P xs] by linarith
  show "lex_step i c cs = Inr (t, k) \<Longrightarrow> 0 < k \<and> k \<le> Suc (length cs)"
    using tw [of "\<lambda>d. d \<noteq> CHR 0x22" cs] tw [of isIdentChar cs] tw [of is_digit cs]
    by (auto simp: lex_step_def Let_def tw le_SucI strict split: if_splits option.splits list.splits)
qed

function lex_from :: "nat \<Rightarrow> string \<Rightarrow> (rule_err, token list) res" where
  "lex_from i [] = Inr [tok tEOF [] i]"
| "lex_from i (c # cs) =
     rbind (lex_step i c cs) (\<lambda>(t, k).
     rbind (lex_from (i + k) (drop k (c # cs))) (\<lambda>toks.
       Inr (case t of Some x \<Rightarrow> x # toks | None \<Rightarrow> toks)))"
  by pat_completeness auto
termination
  by (relation "measure (\<lambda>(i, s). length s)") (auto dest: lex_step_consumes)

definition lex :: "string \<Rightarrow> (rule_err, token list) res" where
  "lex src = lex_from 0 src"

section \<open>The shape of the result\<close>

text \<open>Tokens other than the end of input, and what their texts can be.\<close>

definition token_ok :: "token \<Rightarrow> bool" where
  "token_ok t \<longleftrightarrow> tk_kind t \<noteq> tEOF \<and>
     (tk_kind t = tString \<longrightarrow> CHR 0x22 \<notin> set (tk_text t)) \<and>
     (tk_kind t \<in> {tList, tIdent} \<longrightarrow> tk_text t \<noteq> [] \<and> list_all isIdentChar (tk_text t)) \<and>
     (tk_kind t = tInt \<longrightarrow> tk_text t \<noteq> [] \<and> is_digit (hd (tk_text t)))"

lemma list_all_takeWhile: "list_all P (takeWhile P xs)"
  by (auto simp: list_all_iff dest: set_takeWhileD)

lemma keyword_kind: "map_of kw_table w = Some k \<Longrightarrow> k \<notin> {tEOF, tIdent, tList, tString, tInt}"
  by (auto simp: kw_table_def split: if_splits)

lemma word_kind_cases: "word_kind w \<notin> {tEOF, tList, tString, tInt}"
  by (auto simp: word_kind_def split: option.splits dest: keyword_kind)

lemma isIdentStart_isIdentChar: "isIdentStart c \<Longrightarrow> isIdentChar c"
  by (simp add: isIdentChar_def)

lemma punct_kind: "punct c = Some k \<Longrightarrow> k \<notin> {tEOF, tIdent, tList, tString, tInt}"
  by (auto simp: punct_def split: if_splits)

lemma lex_step_token_ok: "lex_step i c cs = Inr (Some t, k) \<Longrightarrow> token_ok t \<and> tk_pos t = i"
  using word_kind_cases [of "c # takeWhile isIdentChar cs"]
  by (auto simp: lex_step_def Let_def token_ok_def list_all_takeWhile is_digit_def
        isIdentStart_isIdentChar split: if_splits option.splits list.splits
        dest: set_takeWhileD punct_kind)

lemma lex_from_shape:
  "lex_from i s = Inr toks \<Longrightarrow>
   \<exists>ts. toks = ts @ [tok tEOF [] (i + length s)] \<and> list_all token_ok ts \<and>
     sorted_wrt (<) (map tk_pos ts) \<and> (\<forall>t \<in> set ts. i \<le> tk_pos t \<and> tk_pos t < i + length s)"
proof (induction i s arbitrary: toks rule: lex_from.induct)
  case (1 i)
  then show ?case by simp
next
  case (2 i c cs)
  from "2.prems" obtain t k rest where
    st: "lex_step i c cs = Inr (t, k)" and
    rest: "lex_from (i + k) (drop k (c # cs)) = Inr rest" and
    toks: "toks = (case t of Some x \<Rightarrow> x # rest | None \<Rightarrow> rest)"
    by (auto simp: rbind_Inr_iff)
  from st have k: "0 < k" "k \<le> Suc (length cs)" by (auto dest: lex_step_consumes)
  from "2.IH" [OF st refl rest] k obtain ts where ts:
    "rest = ts @ [tok tEOF [] (i + length (c # cs))]" "list_all token_ok ts"
    "sorted_wrt (<) (map tk_pos ts)"
    "\<forall>t \<in> set ts. i + k \<le> tk_pos t \<and> tk_pos t < i + length (c # cs)"
    by auto
  show ?case
  proof (cases t)
    case None
    with toks ts k show ?thesis by fastforce
  next
    case (Some x)
    with st have x: "token_ok x" "tk_pos x = i" by (auto dest: lex_step_token_ok)
    with ts k Some toks show ?thesis
      by (intro exI [of _ "x # ts"]) fastforce
  qed
qed

text \<open>Appending to the text: a finished token does not depend on what follows a separator.\<close>

lemma lex_from_blank: "is_blank c \<Longrightarrow> lex_from i (c # cs) = lex_from (Suc i) cs"
  by (cases "lex_from (Suc i) cs") (simp_all add: lex_step_def)

end
