(* ===== verification/Lexemes.thy ===== *)
theory Lexemes
  imports Lexer
begin

text \<open>
  What the lexer reads, told without it: the spellings of each kind of token, and the division of a text into the
  longest spellings with blanks between them. \<open>lexer_meets_grammar\<close> shows that \<open>lex\<close> finds exactly this division, with
  the positions of the tokens, and fails exactly when there is none.
\<close>

section \<open>Spellings\<close>

definition letter :: "char \<Rightarrow> bool" where
  "letter c \<longleftrightarrow> c = CHR ''_'' \<or> (CHR ''a'' \<le> c \<and> c \<le> CHR ''z'') \<or> (CHR ''A'' \<le> c \<and> c \<le> CHR ''Z'')"

definition digit :: "char \<Rightarrow> bool" where
  "digit c \<longleftrightarrow> CHR ''0'' \<le> c \<and> c \<le> CHR ''9''"

definition hex_digit :: "char \<Rightarrow> bool" where
  "hex_digit c \<longleftrightarrow> digit c \<or> (CHR ''a'' \<le> c \<and> c \<le> CHR ''f'') \<or> (CHR ''A'' \<le> c \<and> c \<le> CHR ''F'')"

definition word_char :: "char \<Rightarrow> bool" where
  "word_char c \<longleftrightarrow> letter c \<or> digit c \<or> c = CHR ''.'' \<or> c = CHR ''-''"

definition word_like :: "string \<Rightarrow> bool" where
  "word_like x \<longleftrightarrow> (\<exists>c w. x = c # w \<and> letter c \<and> list_all word_char w)"

text \<open>\<open>spelled k w x\<close>: the text \<open>x\<close> is a token of kind \<open>k\<close> that stands for \<open>w\<close>.\<close>

fun spelled :: "tokKind \<Rightarrow> string \<Rightarrow> string \<Rightarrow> bool" where
  "spelled tLParen w x = (x = ''('' \<and> w = x)"
| "spelled tRParen w x = (x = '')'' \<and> w = x)"
| "spelled tLBrack w x = (x = ''['' \<and> w = x)"
| "spelled tRBrack w x = (x = '']'' \<and> w = x)"
| "spelled tComma w x = (x = '','' \<and> w = x)"
| "spelled tAmp w x = (x = ''&'' \<and> w = x)"
| "spelled tEq w x = (x = ''='' \<and> w = x)"
| "spelled tNeq w x = (x = ''!='' \<and> w = x)"
| "spelled tAnd w x = (word_like x \<and> to_lower x = ''and'' \<and> w = x)"
| "spelled tOr w x = (word_like x \<and> to_lower x = ''or'' \<and> w = x)"
| "spelled tNot w x = (word_like x \<and> to_lower x = ''not'' \<and> w = x)"
| "spelled tIn w x = (word_like x \<and> to_lower x = ''in'' \<and> w = x)"
| "spelled tContains w x = (word_like x \<and> to_lower x = ''contains'' \<and> w = x)"
| "spelled tStartswith w x = (word_like x \<and> to_lower x = ''startswith'' \<and> w = x)"
| "spelled tIdent w x =
     (word_like x \<and> to_lower x \<notin> {''and'', ''or'', ''not'', ''in'', ''contains'', ''startswith''} \<and> w = x)"
| "spelled tInt w x =
     (w = x \<and> ((x \<noteq> [] \<and> list_all digit x) \<or> (\<exists>hs. list_all hex_digit hs \<and> x \<in> {''0x'' @ hs, ''0X'' @ hs})))"
| "spelled tString w x = (CHR 0x22 \<notin> set w \<and> x = CHR 0x22 # w @ [CHR 0x22])"
| "spelled tList w x = (w \<noteq> [] \<and> list_all word_char w \<and> x = CHR ''$'' # w)"
| "spelled tEOF w x = False"

text \<open>The longest spelling a text begins with.\<close>

definition longest :: "tokKind \<Rightarrow> string \<Rightarrow> string \<Rightarrow> string \<Rightarrow> bool" where
  "longest k w x s \<longleftrightarrow> spelled k w x \<and> prefix x s \<and> (\<forall>k' w' x'. spelled k' w' x' \<and> prefix x' s \<longrightarrow> length x' \<le> length x)"

inductive reads :: "nat \<Rightarrow> string \<Rightarrow> token list \<Rightarrow> bool" where
  finish: "reads i [] [tok tEOF [] i]"
| blank: "c \<in> {CHR '' '', CHR 0x09, CHR 0x0A, CHR 0x0D} \<Longrightarrow> reads (Suc i) s ts \<Longrightarrow> reads i (c # s) ts"
| lexeme: "longest k w x (x @ s) \<Longrightarrow> reads (i + length x) s ts \<Longrightarrow> reads i (x @ s) (tok k w i # ts)"

section \<open>The classes of the code\<close>

lemma char_classes:
  "letter c = isIdentStart c" "digit c = is_digit c" "hex_digit c = isHexDigit c" "word_char c = isIdentChar c"
  by (auto simp: letter_def digit_def hex_digit_def word_char_def isIdentStart_def is_digit_def isHexDigit_def
      isIdentChar_def less_eq_char_def)

lemma class_eqs: "letter = isIdentStart" "digit = is_digit" "hex_digit = isHexDigit" "word_char = isIdentChar"
  by (rule ext, rule char_classes)+

lemma word_like_Cons [simp]:
  "word_like (c # x) \<longleftrightarrow> isIdentStart c \<and> list_all isIdentChar x" "\<not> word_like []"
  by (auto simp: word_like_def class_eqs)

lemma not_special:
  assumes "is_digit c \<or> isIdentStart c"
  shows "\<not> is_blank c" "punct c = None" "c \<noteq> CHR ''!''" "c \<noteq> CHR 0x22" "c \<noteq> CHR ''$''"
proof -
  have "\<not> is_digit x \<and> \<not> isIdentStart x"
    if "x \<in> {CHR '' '', CHR 0x09, CHR 0x0A, CHR 0x0D, CHR ''('', CHR '')'', CHR ''['', CHR '']'', CHR '','',
      CHR ''&'', CHR ''='', CHR ''!'', CHR 0x22, CHR ''$''}" for x
    using that by (auto simp: is_digit_bits isIdentStart_bits)
  with assms have "c \<notin> {CHR '' '', CHR 0x09, CHR 0x0A, CHR 0x0D, CHR ''('', CHR '')'', CHR ''['', CHR '']'', CHR '','',
      CHR ''&'', CHR ''='', CHR ''!'', CHR 0x22, CHR ''$''}" by blast
  then show "\<not> is_blank c" "punct c = None" "c \<noteq> CHR ''!''" "c \<noteq> CHR 0x22" "c \<noteq> CHR ''$''"
    by (simp_all add: is_blank_def punct_def)
qed

lemma isIdentStart_not_digit: "isIdentStart c \<Longrightarrow> \<not> is_digit c"
  by (cases c) (auto simp: is_digit_bits isIdentStart_bits)

text \<open>A spelling by its kind, in terms of the code's tables.\<close>

lemma word_kind_iff:
  "word_kind x = k \<longleftrightarrow>
     (case k of tAnd \<Rightarrow> to_lower x = ''and'' | tOr \<Rightarrow> to_lower x = ''or'' | tNot \<Rightarrow> to_lower x = ''not''
      | tIn \<Rightarrow> to_lower x = ''in'' | tContains \<Rightarrow> to_lower x = ''contains'' | tStartswith \<Rightarrow> to_lower x = ''startswith''
      | tIdent \<Rightarrow> to_lower x \<notin> {''and'', ''or'', ''not'', ''in'', ''contains'', ''startswith''}
      | _ \<Rightarrow> False)"
  by (cases k) (auto simp: word_kind_def kw_table_def)

lemma punct_iff:
  "punct c = Some k \<longleftrightarrow>
     (case k of tLParen \<Rightarrow> c = CHR ''('' | tRParen \<Rightarrow> c = CHR '')'' | tLBrack \<Rightarrow> c = CHR ''['' | tRBrack \<Rightarrow> c = CHR '']''
      | tComma \<Rightarrow> c = CHR '','' | tAmp \<Rightarrow> c = CHR ''&'' | tEq \<Rightarrow> c = CHR ''='' | _ \<Rightarrow> False)"
  by (cases k) (auto simp: punct_def)

lemma spelled_iff:
  "spelled k w x \<longleftrightarrow>
     (case k of
        tNeq \<Rightarrow> x = ''!='' \<and> w = x
      | tInt \<Rightarrow> w = x \<and> (x \<noteq> [] \<and> list_all is_digit x \<or>
          (\<exists>y hs. x = CHR ''0'' # y # hs \<and> y \<in> {CHR ''x'', CHR ''X''} \<and> list_all isHexDigit hs))
      | tString \<Rightarrow> CHR 0x22 \<notin> set w \<and> x = CHR 0x22 # w @ [CHR 0x22]
      | tList \<Rightarrow> w \<noteq> [] \<and> list_all isIdentChar w \<and> x = CHR ''$'' # w
      | _ \<Rightarrow> (\<exists>c. x = [c] \<and> punct c = Some k) \<and> w = x \<or> word_like x \<and> word_kind x = k \<and> w = x)"
  by (cases k) (auto simp: word_kind_iff punct_iff class_eqs)

declare spelled.simps [simp del]

text \<open>A spelling by its first character.\<close>

lemma spelled_Nil [simp]: "\<not> spelled k w []"
  by (cases k) (auto simp: spelled_iff)

lemma word_kind_other:
  "word_kind x \<noteq> tNeq" "word_kind x \<noteq> tInt" "word_kind x \<noteq> tString" "word_kind x \<noteq> tList"
  by (simp_all add: word_kind_iff)

lemma punct_other: "punct c \<noteq> Some tNeq" "punct c \<noteq> Some tInt" "punct c \<noteq> Some tString" "punct c \<noteq> Some tList"
  by (simp_all add: punct_iff)

lemma spelled_punct:
  assumes "punct c = Some k"
  shows "spelled k' w (c # x) \<longleftrightarrow> k' = k \<and> x = [] \<and> w = [c]"
proof -
  have "\<not> is_digit c" "\<not> isIdentStart c" "c \<noteq> CHR ''!''" "c \<noteq> CHR 0x22" "c \<noteq> CHR ''$''" "c \<noteq> CHR ''0''"
    using assms not_special(2) [of c] by (auto simp: punct_def)
  then show ?thesis using assms punct_other [of c] by (cases k') (auto simp: spelled_iff)
qed

lemma spelled_bang: "spelled k w (CHR ''!'' # x) \<longleftrightarrow> k = tNeq \<and> x = ''='' \<and> w = ''!=''"
proof -
  have "\<not> is_digit CHR ''!''" "\<not> isIdentStart CHR ''!''" "punct CHR ''!'' = None"
    using not_special(3) by (auto simp: punct_def)
  then show ?thesis by (cases k) (auto simp: spelled_iff)
qed

lemma spelled_quote: "spelled k w (CHR 0x22 # x) \<longleftrightarrow> k = tString \<and> CHR 0x22 \<notin> set w \<and> x = w @ [CHR 0x22]"
proof -
  have "\<not> is_digit CHR 0x22" "\<not> isIdentStart CHR 0x22" "punct CHR 0x22 = None"
    using not_special(4) by (auto simp: punct_def)
  then show ?thesis by (cases k) (auto simp: spelled_iff)
qed

lemma spelled_dollar: "spelled k w (CHR ''$'' # x) \<longleftrightarrow> k = tList \<and> x \<noteq> [] \<and> list_all isIdentChar x \<and> w = x"
proof -
  have "\<not> is_digit CHR ''$''" "\<not> isIdentStart CHR ''$''" "punct CHR ''$'' = None"
    using not_special(5) by (auto simp: punct_def)
  then show ?thesis by (cases k) (auto simp: spelled_iff)
qed

lemma spelled_digit:
  assumes "is_digit c"
  shows "spelled k w (c # x) \<longleftrightarrow> k = tInt \<and> w = c # x \<and>
     (list_all is_digit x \<or> c = CHR ''0'' \<and> (\<exists>y hs. x = y # hs \<and> y \<in> {CHR ''x'', CHR ''X''} \<and> list_all isHexDigit hs))"
proof -
  have "punct c = None" "c \<noteq> CHR ''!''" "c \<noteq> CHR 0x22" "c \<noteq> CHR ''$''" "\<not> isIdentStart c"
    using assms not_special [of c] isIdentStart_not_digit [of c] by blast+
  with assms show ?thesis by (cases k) (auto simp: spelled_iff)
qed

lemma spelled_word:
  assumes "isIdentStart c"
  shows "spelled k w (c # x) \<longleftrightarrow> list_all isIdentChar x \<and> word_kind (c # x) = k \<and> w = c # x"
proof -
  have "punct c = None" "c \<noteq> CHR ''!''" "c \<noteq> CHR 0x22" "c \<noteq> CHR ''$''" "\<not> is_digit c" "c \<noteq> CHR ''0''"
    using assms not_special [of c] isIdentStart_not_digit [of c] isIdentStart_not_digit [of "CHR ''0''"]
    by (blast | auto simp: is_digit_def)+
  with assms word_kind_other [of "c # x"] show ?thesis by (cases k) (auto simp: spelled_iff)
qed

lemma spelled_other:
  assumes "punct c = None" and "c \<noteq> CHR ''!''" and "c \<noteq> CHR 0x22" and "c \<noteq> CHR ''$''" and "\<not> is_digit c" and "\<not> isIdentStart c"
  shows "\<not> spelled k w (c # x)"
proof -
  have "c \<noteq> CHR ''0''" using assms(5) by (auto simp: is_digit_def)
  with assms show ?thesis by (cases k) (auto simp: spelled_iff)
qed

section \<open>One step\<close>

lemma longestI:
  assumes "spelled k w (c # y)" and "prefix y cs"
    and "\<And>k' w' y'. spelled k' w' (c # y') \<Longrightarrow> prefix y' cs \<Longrightarrow> length y' \<le> length y"
  shows "longest k w (c # y) (c # cs)"
  unfolding longest_def
proof (intro conjI allI impI)
  fix k' w' x'
  assume x: "spelled k' w' x' \<and> prefix x' (c # cs)"
  then obtain y' where "x' = c # y'" "prefix y' cs" by (cases x') auto
  with x assms(3) [of k' w' y'] show "length x' \<le> length (c # y)" by simp
qed (use assms in simp_all)

lemma prefix_takeWhile: "prefix (takeWhile P xs) xs"
  by (rule prefixI [of _ _ "dropWhile P xs"]) simp

lemma takeWhile_longest: "list_all P ys \<Longrightarrow> prefix ys xs \<Longrightarrow> length ys \<le> length (takeWhile P xs)"
  by (induction ys arbitrary: xs) (auto simp: prefix_def)

lemma takeWhile_until: "c \<notin> set b \<Longrightarrow> prefix (b @ [c]) xs \<Longrightarrow> takeWhile (\<lambda>d. d \<noteq> c) xs = b"
  by (induction b arbitrary: xs) (auto simp: prefix_def)

lemma takeWhile_ended: "length (takeWhile P xs) \<noteq> length xs \<Longrightarrow> \<exists>d ys. xs = takeWhile P xs @ d # ys \<and> \<not> P d"
  by (induction xs) auto

lemma digits_not_x: "list_all is_digit (y # ys) \<Longrightarrow> y \<noteq> CHR ''x'' \<and> y \<noteq> CHR ''X''"
  by (auto simp: is_digit_def)

lemma lex_step_longest:
  assumes nb: "\<not> is_blank c"
  shows "(\<exists>k w y. lex_step i c cs = Inr (Some (tok k w i), Suc (length y)) \<and> longest k w (c # y) (c # cs)) \<or>
    (\<exists>e. lex_step i c cs = Inl e) \<and> (\<forall>k w y. prefix y cs \<longrightarrow> \<not> spelled k w (c # y))"
proof -
  have found: ?thesis if "lex_step i c cs = Inr (Some (tok k w i), Suc (length y))" "longest k w (c # y) (c # cs)" for k w y
    using that by blast
  consider (punct) k where "punct c = Some k" | (bang) "c = CHR ''!''" | (quote) "c = CHR 0x22" | (dollar) "c = CHR ''$''"
    | (digit) "is_digit c" | (word) "isIdentStart c"
    | (other) "punct c = None" "c \<noteq> CHR ''!''" "c \<noteq> CHR 0x22" "c \<noteq> CHR ''$''" "\<not> is_digit c" "\<not> isIdentStart c"
    by (cases "punct c") blast+
  then show ?thesis
  proof cases
    case punct
    then show ?thesis
      using nb by (intro found [of k "[c]" "[]"] longestI) (auto simp: lex_step_def spelled_punct)
  next
    case bang
    show ?thesis
    proof (cases "prefix ''='' cs")
      case True
      then obtain r where "cs = CHR ''='' # r" by (auto simp: prefix_def)
      with bang show ?thesis
        by (intro found [of tNeq "''!=''" "''=''"] longestI)
          (auto simp: lex_step_def is_blank_def punct_def spelled_bang prefix_Cons)
    next
      case False
      with bang have "\<exists>e. lex_step i c cs = Inl e"
        by (auto simp: lex_step_def is_blank_def punct_def split: list.splits)
      with False bang show ?thesis by (auto simp: spelled_bang)
    qed
  next
    case quote
    let ?b = "takeWhile (\<lambda>d. d \<noteq> CHR 0x22) cs"
    show ?thesis
    proof (cases "length ?b = length cs")
      case True
      then have "\<not> (CHR 0x22 \<notin> set b \<and> prefix (b @ [CHR 0x22]) cs)" for b
        using takeWhile_until [of "CHR 0x22" b cs] prefix_length_le [of "b @ [CHR 0x22]" cs] by auto
      moreover have "\<exists>e. lex_step i c cs = Inl e"
        using True quote by (simp add: lex_step_def is_blank_def punct_def Let_def)
      ultimately show ?thesis by (auto simp: quote spelled_quote)
    next
      case False
      from takeWhile_ended [OF this] have "prefix (?b @ [CHR 0x22]) cs"
        by (metis (mono_tags, lifting) append_Cons append_Nil append_assoc prefixI)
      moreover have "CHR 0x22 \<notin> set ?b" by (auto dest: set_takeWhileD)
      moreover have "lex_step i c cs = Inr (Some (tok tString ?b i), Suc (length (?b @ [CHR 0x22])))"
        using False quote by (simp add: lex_step_def is_blank_def punct_def Let_def)
      ultimately show ?thesis
        by (intro found longestI) (auto simp: quote spelled_quote dest: takeWhile_until)
    qed
  next
    case dollar
    let ?n = "takeWhile isIdentChar cs"
    show ?thesis
    proof (cases "?n = []")
      case True
      then have "\<exists>e. lex_step i c cs = Inl e" using dollar by (simp add: lex_step_def is_blank_def punct_def Let_def)
      moreover have "y = []" if "list_all isIdentChar y" "prefix y cs" for y
        using takeWhile_longest [OF that] True by simp
      ultimately show ?thesis by (auto simp: dollar spelled_dollar)
    next
      case False
      then have "lex_step i c cs = Inr (Some (tok tList ?n i), Suc (length ?n))"
        using dollar by (simp add: lex_step_def is_blank_def punct_def Let_def)
      then show ?thesis
        by (rule found)
          (auto intro!: longestI takeWhile_longest simp: dollar spelled_dollar False list_all_takeWhile prefix_takeWhile)
    qed
  next
    case digit
    note c = not_special [OF disjI1, OF digit]
    show ?thesis
    proof (cases "c = CHR ''0'' \<and> (\<exists>x ds. cs = x # ds \<and> x \<in> {CHR ''x'', CHR ''X''})")
      case True
      then obtain x ds where cs: "cs = x # ds" "x \<in> {CHR ''x'', CHR ''X''}" by blast
      let ?h = "takeWhile isHexDigit ds"
      have "lex_step i c cs = Inr (Some (tok tInt (c # x # ?h) i), Suc (length (x # ?h)))"
        using True cs c digit by (auto simp: lex_step_def Let_def)
      moreover have "longest tInt (c # x # ?h) (c # x # ?h) (c # cs)"
      proof (rule longestI)
        show "spelled tInt (c # x # ?h) (c # x # ?h)" 
          unfolding spelled_digit [OF digit] using True cs(2) list_all_takeWhile by blast
        show "prefix (x # ?h) cs" by (simp add: cs(1) prefix_takeWhile)
        fix k' w' y'
        assume y': "spelled k' w' (c # y')" "prefix y' cs"
        then consider "list_all is_digit y'" | z hs where "y' = z # hs" "list_all isHexDigit hs"
          by (auto simp: spelled_digit [OF digit])
        then show "length y' \<le> length (x # ?h)"
        proof cases
          case 1
          with y'(2) cs show ?thesis using digits_not_x by (cases y') auto
        next
          case 2
          with y'(2) cs(1) takeWhile_longest [of isHexDigit hs ds] show ?thesis by simp
        qed
      qed
      ultimately show ?thesis by (rule found)
    next
      case False
      let ?n = "takeWhile is_digit cs"
      have "lex_step i c cs = Inr (Some (tok tInt (c # ?n) i), Suc (length ?n))"
        using False c digit by (cases cs) (auto simp: lex_step_def Let_def)
      moreover have "longest tInt (c # ?n) (c # ?n) (c # cs)"
      proof (rule longestI)
        show "spelled tInt (c # ?n) (c # ?n)" by (simp add: spelled_digit [OF digit] list_all_takeWhile)
        fix k' w' y'
        assume "spelled k' w' (c # y')" "prefix y' cs"
        with False have "list_all is_digit y'" by (auto simp: spelled_digit [OF digit] prefix_def)
        with \<open>prefix y' cs\<close> show "length y' \<le> length ?n" by (simp add: takeWhile_longest)
      qed (rule prefix_takeWhile)
      ultimately show ?thesis by (rule found)
    qed
  next
    case word
    note c = not_special [OF disjI2, OF word]
    let ?w = "takeWhile isIdentChar cs"
    have "lex_step i c cs = Inr (Some (tok (word_kind (c # ?w)) (c # ?w) i), Suc (length ?w))"
      using c word isIdentStart_not_digit [OF word] by (simp add: lex_step_def Let_def)
    then show ?thesis
      by (rule found)
        (auto intro!: longestI takeWhile_longest simp: spelled_word [OF word] list_all_takeWhile prefix_takeWhile)
  next
    case other
    then have "\<exists>e. lex_step i c cs = Inl e" using nb by (simp add: lex_step_def)
    with spelled_other [OF other] show ?thesis by blast
  qed
qed

text \<open>A spelling has one reading, so the longest is unique.\<close>

lemma spelled_unique: "spelled k w x \<Longrightarrow> spelled k' w' x \<Longrightarrow> k' = k \<and> w' = w"
proof (cases x)
  case (Cons c y)
  assume s: "spelled k w x" "spelled k' w' x"
  consider (punct) j where "punct c = Some j" | "c = CHR ''!''" | "c = CHR 0x22" | "c = CHR ''$''"
    | (digit) "is_digit c" | (word) "isIdentStart c" | (other) "\<not> spelled k w (c # y)"
    using spelled_other [of c] by (cases "punct c") blast+
  then show ?thesis
    using s unfolding Cons
    by cases (simp_all add: spelled_punct spelled_bang spelled_quote spelled_dollar spelled_digit spelled_word)
qed simp

lemma longest_unique: "longest k w x s \<Longrightarrow> longest k' w' x' s \<Longrightarrow> x' = x \<and> k' = k \<and> w' = w"
proof -
  assume l: "longest k w x s" "longest k' w' x' s"
  then have "length x' \<le> length x" "length x \<le> length x'" unfolding longest_def by blast+
  then have "x' = x" using l prefix_same_cases [of x s x'] by (auto simp: longest_def prefix_def)
  with l spelled_unique [of k w x k' w'] show ?thesis by (auto simp: longest_def)
qed

section \<open>Property\<close>

text \<open>Reading from a position, and the rules read backwards.\<close>

inductive_cases reads_ConsE: "reads i (c # cs) toks"

lemma reads_Nil: "reads i [] toks \<longleftrightarrow> toks = [tok tEOF [] i]"
proof
  assume "reads i [] toks"
  then show "toks = [tok tEOF [] i]" by cases (auto simp: longest_def)
qed (simp add: finish)

lemma reads_blank: "is_blank c \<Longrightarrow> reads i (c # cs) toks \<longleftrightarrow> reads (Suc i) cs toks"
proof
  assume b: "is_blank c" and r: "reads i (c # cs) toks"
  have "\<not> is_digit c" "\<not> isIdentStart c" using b not_special(1) by blast+
  then have none: "\<not> spelled k w (c # y)" for k w y
    using b by (intro spelled_other) (auto simp: is_blank_def punct_def)
  from r show "reads (Suc i) cs toks"
  proof cases
    case (lexeme k w x s ts)
    with none show ?thesis by (cases x) (auto simp: longest_def)
  qed
next
  assume "is_blank c" "reads (Suc i) cs toks"
  then show "reads i (c # cs) toks" by (intro blank) (auto simp: is_blank_def)
qed

lemma reads_lexeme:
  assumes "\<not> is_blank c"
  shows "reads i (c # cs) toks \<longleftrightarrow> (\<exists>k w x s ts. c # cs = x @ s \<and> longest k w x (c # cs) \<and> reads (i + length x) s ts \<and> toks = tok k w i # ts)"
proof
  assume "reads i (c # cs) toks"
  then show "\<exists>k w x s ts. c # cs = x @ s \<and> longest k w x (c # cs) \<and> reads (i + length x) s ts \<and> toks = tok k w i # ts"
  proof cases
    case blank
    with assms show ?thesis by (auto simp: is_blank_def)
  next
    case (lexeme k w x s ts)
    then show ?thesis by metis
  qed
next
  assume "\<exists>k w x s ts. c # cs = x @ s \<and> longest k w x (c # cs) \<and> reads (i + length x) s ts \<and> toks = tok k w i # ts"
  then obtain k w x s ts where r: "c # cs = x @ s" "longest k w x (c # cs)" "reads (i + length x) s ts" "toks = tok k w i # ts"
    by blast
  from lexeme [OF r(2) [unfolded r(1)] r(3)] show "reads i (c # cs) toks" by (simp only: r(1,4))
qed

lemma lex_from_reads: "lex_from i s = Inr toks \<longleftrightarrow> reads i s toks"
proof (induction "length s" arbitrary: i s toks rule: less_induct)
  case less
  show ?case
  proof (cases s)
    case Nil
    then show ?thesis by (auto simp: reads_Nil)
  next
    case (Cons c cs)
    show ?thesis
    proof (cases "is_blank c")
      case True
      then show ?thesis using less [of cs "Suc i" toks] by (simp add: Cons lex_from_blank reads_blank del: lex_from.simps)
    next
      case nb: False
      from lex_step_longest [OF nb, of i cs] show ?thesis
      proof (elim disjE exE conjE)
        fix k w y
        assume st: "lex_step i c cs = Inr (Some (tok k w i), Suc (length y))" and l: "longest k w (c # y) (c # cs)"
        then obtain r where r: "cs = y @ r" by (auto simp: longest_def prefix_def)
        have "lex_from i s = Inr toks \<longleftrightarrow> (\<exists>ts. lex_from (i + Suc (length y)) r = Inr ts \<and> toks = tok k w i # ts)"
          by (auto simp: Cons r st [unfolded r] rbind_Inr_iff)
        also have "\<dots> \<longleftrightarrow> (\<exists>ts. reads (i + Suc (length y)) r ts \<and> toks = tok k w i # ts)"
          using less [of r] by (simp add: Cons r)
        also have "\<dots> \<longleftrightarrow> reads i s toks"
          unfolding Cons reads_lexeme [OF nb]
        proof (intro iffI; elim exE conjE)
          fix ts
          assume "reads (i + Suc (length y)) r ts" "toks = tok k w i # ts"
          then show "\<exists>k w x s ts. c # cs = x @ s \<and> longest k w x (c # cs) \<and> reads (i + length x) s ts \<and> toks = tok k w i # ts"
            using l r by (intro exI [of _ k] exI [of _ w] exI [of _ "c # y"] exI [of _ r] exI [of _ ts]) simp
        next
          fix k' w' x' s' ts
          assume a: "c # cs = x' @ s'" "longest k' w' x' (c # cs)" "reads (i + length x') s' ts" "toks = tok k' w' i # ts"
          then have "x' = c # y" "k' = k" "w' = w" using longest_unique [OF l] by blast+
          with a r show "\<exists>ts. reads (i + Suc (length y)) r ts \<and> toks = tok k w i # ts" by auto
        qed
        finally show ?thesis .
      next
        fix e
        assume st: "lex_step i c cs = Inl e" and none: "\<forall>k w y. prefix y cs \<longrightarrow> \<not> spelled k w (c # y)"
        have "\<not> longest k w x (c # cs)" for k w x
          using none by (cases x) (auto simp: longest_def)
        then show ?thesis using nb by (simp add: Cons st reads_lexeme)
      qed
    qed
  qed
qed

text \<open>
  C37. The lexer reads the longest tokens. It succeeds exactly when the text divides into blanks and spellings, each
  the longest spelling that the rest of the text begins with, and then it gives these tokens with their kinds, their
  texts and their positions, and the end mark; keywords are read in any case, an identifier that only begins with a
  keyword is one identifier, and a text with no such division is an error.
\<close>

theorem lexer_meets_grammar: "lex src = Inr toks \<longleftrightarrow> reads 0 src toks"
  unfolding lex_def by (rule lex_from_reads)

text \<open>The kinds of the spellings in two texts.\<close>

lemma lexer_examples:
  "lex ''Not (a.b In $x)'' = Inr [tok tNot ''Not'' 0, tok tLParen ''('' 4, tok tIdent ''a.b'' 5, tok tIn ''In'' 9,
     tok tList ''x'' 12, tok tRParen '')'' 14, tok tEOF [] 15]"
  "lex ''android!=0x4F'' = Inr [tok tIdent ''android'' 0, tok tNeq ''!='' 7, tok tInt ''0x4F'' 9, tok tEOF [] 13]"
  by code_simp+

end
