(* ===== verification/Macros.thy ===== *)
theory Macros
  imports Lexer
begin

text \<open>
  Macro expansion, \<open>internal/ruleengine/macros.go\<close>: \<open>substituteWords\<close>, \<open>resolveMacros\<close> with its
  recursive closure \<open>rec\<close>, and \<open>applyMacros\<close>. The closure's captured variables \<open>resolved\<close> and
  \<open>resolveErr\<close> are a state that is passed along; \<open>visiting\<close>, which \<open>rec\<close> extends on entry and
  restores on return, is a parameter. A Go map is ranged over in an unspecified order: the
  association list of the macros gives one such order.
\<close>

section \<open>Scanning words\<close>

text \<open>One piece of the text: a quoted string, an identifier word, or any other byte.\<close>

datatype piece = Quoted string | Word string | Other char

fun piece_text :: "piece \<Rightarrow> string" where
  "piece_text (Quoted b) = CHR 0x22 # b @ [CHR 0x22]"
| "piece_text (Word w) = w"
| "piece_text (Other c) = [c]"

text \<open>The next piece of a non-empty text, \<open>None\<close> for an unterminated string.\<close>

definition next_piece :: "char \<Rightarrow> string \<Rightarrow> piece option" where
  "next_piece c cs =
     (if c = CHR 0x22 then
        (let b = takeWhile (\<lambda>d. d \<noteq> CHR 0x22) cs in
         if length b = length cs then None else Some (Quoted b))
      else if isIdentStart c then Some (Word (c # takeWhile isIdentChar cs))
      else Some (Other c))"

lemma next_piece_text: "next_piece c cs = Some p \<Longrightarrow> \<exists>rest. c # cs = piece_text p @ rest"
proof (cases "c = CHR 0x22")
  case True
  assume "next_piece c cs = Some p"
  with True have p: "p = Quoted (takeWhile (\<lambda>d. d \<noteq> CHR 0x22) cs)"
    and len: "length (takeWhile (\<lambda>d. d \<noteq> CHR 0x22) cs) \<noteq> length cs"
    by (auto simp: next_piece_def Let_def split: if_splits)
  from len have "dropWhile (\<lambda>d. d \<noteq> CHR 0x22) cs \<noteq> []"
    by (metis append_Nil2 takeWhile_dropWhile_id)
  then obtain d ds where dw: "dropWhile (\<lambda>d. d \<noteq> CHR 0x22) cs = d # ds"
    by (cases "dropWhile (\<lambda>d. d \<noteq> CHR 0x22) cs") auto
  then have "d = CHR 0x22" by (metis (full_types) dropWhile_eq_Cons_conv)
  with dw have "cs = takeWhile (\<lambda>d. d \<noteq> CHR 0x22) cs @ CHR 0x22 # ds"
    by (metis takeWhile_dropWhile_id)
  with True p show ?thesis by auto
next
  case False
  assume "next_piece c cs = Some p"
  with False show ?thesis
    by (auto simp: next_piece_def split: if_splits)
       (metis takeWhile_dropWhile_id)
qed

lemma next_piece_length:
  "next_piece c cs = Some p \<Longrightarrow> 0 < length (piece_text p) \<and> length (piece_text p) \<le> Suc (length cs)"
proof -
  assume p: "next_piece c cs = Some p"
  then obtain rest where "c # cs = piece_text p @ rest" by (blast dest: next_piece_text)
  then have "length (piece_text p) \<le> Suc (length cs)"
    by (metis le_add1 length_Cons length_append)
  moreover have "0 < length (piece_text p)"
    using p by (auto simp: next_piece_def Let_def split: if_splits)
  ultimately show ?thesis by blast
qed

function pieces :: "string \<Rightarrow> piece list option" where
  "pieces [] = Some []"
| "pieces (c # cs) =
     (case next_piece c cs of
        None \<Rightarrow> None
      | Some p \<Rightarrow> map_option (\<lambda>ps. p # ps) (pieces (drop (length (piece_text p)) (c # cs))))"
  by pat_completeness auto
termination
  by (relation "measure length") (auto dest: next_piece_length)

section \<open>substituteWords\<close>

text \<open>
  The replacement function \<open>fn\<close> may change the state; \<open>None\<close> leaves the word as it is.
  The first component of the result is the rebuilt text or the error.
\<close>

function substituteWords ::
    "(string \<Rightarrow> 's \<Rightarrow> string option \<times> 's) \<Rightarrow> string \<Rightarrow> 's \<Rightarrow> (rule_err, string) res \<times> 's" where
  "substituteWords fn [] st = (Inr [], st)"
| "substituteWords fn (c # cs) st =
     (case next_piece c cs of
        None \<Rightarrow> (Inl UnterminatedInCondition, st)
      | Some p \<Rightarrow>
          (let (out, st') = (case p of
                  Word w \<Rightarrow> (case fn w st of
                      (Some repl, st1) \<Rightarrow> (repl, st1)
                    | (None, st1) \<Rightarrow> (w, st1))
                | _ \<Rightarrow> (piece_text p, st));
               (r, st'') = substituteWords fn (drop (length (piece_text p)) (c # cs)) st'
           in (rbind r (\<lambda>rest. Inr (out @ rest)), st'')))"
  by pat_completeness auto
termination
  by (relation "measure (\<lambda>(fn, s, st). length s)") (auto dest: next_piece_length)

section \<open>applyMacros\<close>

definition macro_word :: "(string \<times> string) list \<Rightarrow> string \<Rightarrow> string option" where
  "macro_word resolved w = map_option (\<lambda>e. ''('' @ e @ '')'') (map_of resolved w)"

definition applyMacros :: "string \<Rightarrow> (string \<times> string) list \<Rightarrow> (rule_err, string) res" where
  "applyMacros cond resolved =
     fst (substituteWords (\<lambda>w st. (macro_word resolved w, st)) cond ())"

section \<open>resolveMacros\<close>

record macro_state =
  ms_resolved :: "(string \<times> string) list"
  ms_err :: "rule_err option"

definition set_err :: "rule_err \<Rightarrow> macro_state \<Rightarrow> macro_state" where
  "set_err e st = (if ms_err st = None then st\<lparr>ms_err := Some e\<rparr> else st)"

text \<open>
  \<open>rec_subst\<close> is \<open>substituteWords\<close> with \<open>rec\<close> as its replacement function; the two are mutually
  recursive. Each call of \<open>rec\<close> that expands a body adds a macro name to \<open>visiting\<close>, so the
  names not yet visited bound the depth, and a body's text bounds the words at one depth.
  A name that is no macro has the empty body (Go's zero value).
\<close>

function (sequential)
  rec_macro :: "(string \<times> string) list \<Rightarrow> string list \<Rightarrow> string \<Rightarrow> macro_state \<Rightarrow> string \<times> macro_state" and
  rec_subst :: "(string \<times> string) list \<Rightarrow> string list \<Rightarrow> string \<Rightarrow> macro_state \<Rightarrow>
     (rule_err, string) res \<times> macro_state" where
  "rec_macro macros visiting name st =
     (case map_of (ms_resolved st) name of
        Some v \<Rightarrow> (v, st)
      | None \<Rightarrow>
          if name \<in> set visiting then ([], set_err (MacroCycle name) st)
          else
            (let (r, st1) = (case map_of macros name of
                    Some body \<Rightarrow> rec_subst macros (name # visiting) body st
                  | None \<Rightarrow> (Inr [], st));
                 st2 = (case r of Inl e \<Rightarrow> set_err e st1 | Inr _ \<Rightarrow> st1);
                 out = (case r of Inl e \<Rightarrow> [] | Inr s \<Rightarrow> s)
             in (out, st2\<lparr>ms_resolved := AList.update name out (ms_resolved st2)\<rparr>)))"
| "rec_subst macros visiting [] st = (Inr [], st)"
| "rec_subst macros visiting (c # cs) st =
     (case next_piece c cs of
        None \<Rightarrow> (Inl UnterminatedInCondition, st)
      | Some p \<Rightarrow>
          (let (out, st') = (case p of
                  Word w \<Rightarrow>
                    (if map_of macros w \<noteq> None then
                       (let (v, st1) = rec_macro macros visiting w st in (''('' @ v @ '')'', st1))
                     else (w, st))
                | _ \<Rightarrow> (piece_text p, st));
               (r, st'') = rec_subst macros visiting (drop (length (piece_text p)) (c # cs)) st'
           in (rbind r (\<lambda>rest. Inr (out @ rest)), st'')))"
  by pat_completeness auto
termination
proof (relation "inv_image (less_than <*lex*> less_than)
    (\<lambda>x. case x of Inl (ms, vis, name, st) \<Rightarrow> (card (fst ` set ms - set vis), 0)
                 | Inr (ms, vis, s, st) \<Rightarrow> (card (fst ` set ms - set vis), Suc (length s)))", goal_cases)
  case 1
  then show ?case by (simp add: wf_lex_prod)
next
  case (2 macros visiting name st body)
  then have "name \<in> fst ` set macros - set visiting"
    by (auto dest!: map_of_SomeD simp: rev_image_eqI)
  then have "card (fst ` set macros - set (name # visiting)) < card (fst ` set macros - set visiting)"
    by (intro psubset_card_mono) auto
  then show ?case by simp
next
  case 3
  then show ?case by simp
next
  case 4
  then show ?case by (auto dest: next_piece_length)
qed

fun resolve_loop :: "(string \<times> string) list \<Rightarrow> string list \<Rightarrow> macro_state \<Rightarrow> macro_state" where
  "resolve_loop macros [] st = st"
| "resolve_loop macros (name # names) st =
     (let (_, st') = rec_macro macros [] name st
      in if ms_err st' \<noteq> None then st' else resolve_loop macros names st')"

definition resolveMacros :: "(string \<times> string) list \<Rightarrow> (rule_err, (string \<times> string) list) res" where
  "resolveMacros macros =
     (let st = resolve_loop macros (map fst macros) \<lparr>ms_resolved = [], ms_err = None\<rparr>
      in (case ms_err st of Some e \<Rightarrow> Inl e | None \<Rightarrow> Inr (ms_resolved st)))"

section \<open>Texts and their pieces\<close>

text \<open>
  The piece lists that scanning yields: each piece is well formed, and a word is not followed
  directly by a byte that would extend it.
\<close>

fun piece_ok :: "piece \<Rightarrow> bool" where
  "piece_ok (Quoted b) = (CHR 0x22 \<notin> set b)"
| "piece_ok (Word w) = (case w of [] \<Rightarrow> False | c # cs \<Rightarrow> isIdentStart c \<and> list_all isIdentChar cs)"
| "piece_ok (Other c) = (c \<noteq> CHR 0x22 \<and> \<not> isIdentStart c)"

fun ends_word :: "piece \<Rightarrow> string \<Rightarrow> bool" where
  "ends_word (Word w) s = (case s of [] \<Rightarrow> True | c # cs \<Rightarrow> \<not> isIdentChar c)"
| "ends_word _ s = True"

fun pieces_ok :: "piece list \<Rightarrow> bool" where
  "pieces_ok [] = True"
| "pieces_ok (p # ps) = (piece_ok p \<and> ends_word p (concat (map piece_text ps)) \<and> pieces_ok ps)"

abbreviation text_of :: "piece list \<Rightarrow> string" where
  "text_of ps \<equiv> concat (map piece_text ps)"

lemma quote_not_ident [simp]: "\<not> isIdentStart CHR 0x22" "\<not> isIdentChar CHR 0x22"
  by (simp_all add: isIdentChar_def isIdentStart_def is_digit_def)

lemma takeWhile_all_append:
  "list_all P xs \<Longrightarrow> ys = [] \<or> \<not> P (hd ys) \<Longrightarrow> takeWhile P (xs @ ys) = xs"
  by (cases ys) (auto simp: list_all_iff takeWhile_append2)

lemma next_piece_ok:
  assumes "piece_ok p" and "ends_word p rest" and "c # cs = piece_text p @ rest"
  shows "next_piece c cs = Some p"
proof (cases p)
  case (Quoted b)
  with assms have c: "c = CHR 0x22" "cs = b @ CHR 0x22 # rest" and b: "CHR 0x22 \<notin> set b" by auto
  from b have "list_all (\<lambda>d. d \<noteq> CHR 0x22) b" by (induction b) auto
  then have "takeWhile (\<lambda>d. d \<noteq> CHR 0x22) cs = b"
    unfolding c by (rule takeWhile_all_append) simp
  with c Quoted show ?thesis by (simp add: next_piece_def)
next
  case (Word w)
  with assms obtain ws where w: "w = c # ws" "cs = ws @ rest" "isIdentStart c" "list_all isIdentChar ws"
    by (cases w) auto
  from Word assms(2) have "rest = [] \<or> \<not> isIdentChar (hd rest)"
    by (cases rest) auto
  with w have "takeWhile isIdentChar cs = ws" by (simp add: takeWhile_all_append)
  with w Word show ?thesis by (auto simp: next_piece_def)
next
  case (Other d)
  with assms show ?thesis by (simp add: next_piece_def)
qed

lemma next_piece_Some:
  assumes "next_piece c cs = Some p"
  shows "piece_ok p \<and> ends_word p (drop (length (piece_text p)) (c # cs)) \<and>
    c # cs = piece_text p @ drop (length (piece_text p)) (c # cs)"
proof -
  obtain rest where rest: "c # cs = piece_text p @ rest"
    using next_piece_text [OF assms] by blast
  then have d: "drop (length (piece_text p)) (c # cs) = rest" by simp
  have "piece_ok p"
    using assms by (auto simp: next_piece_def Let_def list_all_takeWhile split: if_splits
        dest: set_takeWhileD)
  moreover have "ends_word p rest"
  proof (cases p)
    case (Word w)
    with assms have "w = c # takeWhile isIdentChar cs"
      by (auto simp: next_piece_def Let_def split: if_splits)
    with Word rest have "cs = takeWhile isIdentChar cs @ rest" by simp
    then have "rest = dropWhile isIdentChar cs"
      by (metis append_eq_append_conv takeWhile_dropWhile_id)
    with Word show ?thesis by (auto split: list.splits simp: dropWhile_eq_Cons_conv)
  qed auto
  ultimately show ?thesis using d rest by simp
qed

lemma pieces_Some: "pieces s = Some ps \<Longrightarrow> pieces_ok ps \<and> text_of ps = s"
proof (induction s arbitrary: ps rule: pieces.induct)
  case (2 c cs)
  from "2.prems" obtain p qs where p: "next_piece c cs = Some p"
    and qs: "pieces (drop (length (piece_text p)) (c # cs)) = Some qs" and ps: "ps = p # qs"
    by (auto split: option.splits)
  from "2.IH" [OF p qs] next_piece_Some [OF p] ps show ?case by simp
qed simp

lemma pieces_text_of: "pieces_ok ps \<Longrightarrow> pieces (text_of ps) = Some ps"
proof (induction ps)
  case (Cons p ps)
  then have p: "piece_ok p" "ends_word p (text_of ps)" and ps: "pieces (text_of ps) = Some ps"
    by auto
  from p(1) have "piece_text p \<noteq> []" by (cases p) (auto split: list.splits)
  then obtain c cs where s: "text_of (p # ps) = c # cs"
    by (cases "text_of (p # ps)") auto
  with p have "next_piece c cs = Some p" by (intro next_piece_ok) auto
  moreover from s have "drop (length (piece_text p)) (c # cs) = text_of ps" by (metis append_eq_conv_conj concat.simps(2) list.simps(9))
  ultimately show ?case using ps s by simp
qed simp

section \<open>Expanded texts\<close>

text \<open>A text in which no word is a name of \<open>M\<close>.\<close>

definition macro_free :: "string set \<Rightarrow> piece list \<Rightarrow> bool" where
  "macro_free M ps \<longleftrightarrow> (\<forall>w. Word w \<in> set ps \<longrightarrow> w \<notin> M)"

definition clean :: "string set \<Rightarrow> string \<Rightarrow> bool" where
  "clean M s \<longleftrightarrow> (\<exists>ps. pieces s = Some ps \<and> macro_free M ps)"

lemma clean_iff: "clean M s \<longleftrightarrow> (\<exists>ps. pieces_ok ps \<and> text_of ps = s \<and> macro_free M ps)"
  unfolding clean_def using pieces_Some pieces_text_of by blast

lemma clean_Nil [simp]: "clean M []"
  by (simp add: clean_def macro_free_def)

lemma pieces_ok_append:
  "pieces_ok ps \<Longrightarrow> pieces_ok qs \<Longrightarrow> text_of qs = [] \<or> \<not> isIdentChar (hd (text_of qs)) \<Longrightarrow>
   pieces_ok (ps @ qs)"
proof (induction ps)
  case (Cons p ps)
  have "ends_word p (text_of ps @ text_of qs)"
  proof (cases "text_of ps")
    case Nil
    have "ends_word p s" if "s = [] \<or> \<not> isIdentChar (hd s)" for s
      using that by (cases p; cases s) auto
    from this [OF Cons.prems(3)] show ?thesis unfolding Nil by simp
  next
    case (Cons c cs)
    with Cons.prems(1) show ?thesis by (cases p) auto
  qed
  with Cons show ?case by simp
qed simp

lemma clean_piece:
  assumes "piece_ok p" and "ends_word p rest" and "\<And>w. p = Word w \<Longrightarrow> w \<notin> M" and "clean M rest"
  shows "clean M (piece_text p @ rest)"
proof -
  obtain ps where "pieces_ok ps" "text_of ps = rest" "macro_free M ps"
    using assms(4) by (auto simp: clean_iff)
  with assms show ?thesis
    unfolding clean_iff by (intro exI [of _ "p # ps"]) (auto simp: macro_free_def)
qed

lemma paren_not_ident [simp]: "\<not> isIdentChar CHR '')''" "\<not> isIdentStart CHR ''(''" "\<not> isIdentStart CHR '')''"
  by (simp_all add: isIdentChar_def isIdentStart_def is_digit_def)

lemma clean_paren:
  assumes "clean M v" and "clean M rest"
  shows "clean M (''('' @ v @ '')'' @ rest)"
proof -
  obtain ps where ps: "pieces_ok ps" "text_of ps = v" "macro_free M ps"
    using assms(1) by (auto simp: clean_iff)
  obtain qs where qs: "pieces_ok qs" "text_of qs = rest" "macro_free M qs"
    using assms(2) by (auto simp: clean_iff)
  have "pieces_ok (ps @ Other CHR '')'' # qs)"
    by (rule pieces_ok_append) (use ps qs in auto)
  with ps qs show ?thesis
    unfolding clean_iff
    by (intro exI [of _ "Other CHR ''('' # ps @ Other CHR '')'' # qs"]) (auto simp: macro_free_def)
qed

section \<open>applyMacros\<close>

definition subst_piece :: "(string \<Rightarrow> string option) \<Rightarrow> piece \<Rightarrow> string" where
  "subst_piece f p = (case p of Word w \<Rightarrow> (case f w of Some r \<Rightarrow> r | None \<Rightarrow> w) | _ \<Rightarrow> piece_text p)"

lemma substituteWords_pure:
  "substituteWords (\<lambda>w st. (f w, st)) s st =
     ((case pieces s of None \<Rightarrow> Inl UnterminatedInCondition
       | Some ps \<Rightarrow> Inr (concat (map (subst_piece f) ps))), st)"
proof (induction s rule: pieces.induct)
  case (2 c cs)
  then show ?case
    by (cases "next_piece c cs")
       (auto simp: subst_piece_def Let_def split: option.splits piece.splits)
qed simp

lemma applyMacros_eq:
  "applyMacros cond resolved =
     (case pieces cond of None \<Rightarrow> Inl UnterminatedInCondition
      | Some ps \<Rightarrow> Inr (concat (map (subst_piece (macro_word resolved)) ps)))"
  by (simp add: applyMacros_def substituteWords_pure)

lemma subst_piece_id:
  "(\<And>w. p = Word w \<Longrightarrow> map_of resolved w = None) \<Longrightarrow>
   subst_piece (macro_word resolved) p = piece_text p"
  by (cases p) (simp_all add: subst_piece_def macro_word_def)

lemma applyMacros_clean:
  assumes "clean (fst ` set resolved) s"
  shows "applyMacros s resolved = Inr s"
proof -
  obtain ps where ps: "pieces s = Some ps" "macro_free (fst ` set resolved) ps"
    using assms by (auto simp: clean_def)
  from ps(2) have "map (subst_piece (macro_word resolved)) ps = map piece_text ps"
    by (auto simp: macro_free_def map_of_eq_None_iff intro!: subst_piece_id)
  then show ?thesis
    by (simp only: applyMacros_eq ps(1) option.case pieces_Some [OF ps(1)])
qed

lemma subst_piece_hd:
  "pieces_ok (p # ps) \<Longrightarrow> \<not> isIdentChar (hd (piece_text p)) \<Longrightarrow> subst_piece f p = piece_text p"
  by (cases p) (auto simp: subst_piece_def isIdentStart_isIdentChar split: list.splits)

lemma piece_text_nonempty: "piece_ok p \<Longrightarrow> piece_text p \<noteq> []"
  by (cases p) (auto split: list.splits)

lemma subst_ends_word:
  assumes "pieces_ok (p # ps)"
  shows "ends_word p (concat (map (subst_piece f) ps))"
proof (cases p)
  case (Word w)
  show ?thesis
  proof (cases ps)
    case (Cons q qs)
    with assms have q: "pieces_ok (q # qs)" "piece_text q \<noteq> []" by (auto simp: piece_text_nonempty)
    from assms Cons Word q(2) have "\<not> isIdentChar (hd (piece_text q))"
      by (cases "piece_text q") auto
    with q have "subst_piece f q = piece_text q" by (auto intro: subst_piece_hd)
    with Cons Word q(2) \<open>\<not> isIdentChar (hd (piece_text q))\<close> show ?thesis
      by (cases "piece_text q") auto
  qed (simp add: Word)
qed auto

lemma subst_clean:
  assumes "pieces_ok ps" and "\<And>k v. map_of resolved k = Some v \<Longrightarrow> clean (fst ` set resolved) v"
  shows "clean (fst ` set resolved) (concat (map (subst_piece (macro_word resolved)) ps))"
  using assms(1)
proof (induction ps)
  case (Cons p ps)
  let ?rest = "concat (map (subst_piece (macro_word resolved)) ps)"
  have rest: "clean (fst ` set resolved) ?rest" and p: "piece_ok p" using Cons by auto
  show ?case
  proof (cases "\<exists>w v. p = Word w \<and> map_of resolved w = Some v")
    case True
    then obtain w v where wv: "p = Word w" "map_of resolved w = Some v" by blast
    then have "subst_piece (macro_word resolved) p = ''('' @ v @ '')''"
      by (simp add: subst_piece_def macro_word_def)
    with clean_paren [OF assms(2) [OF wv(2)] rest] show ?thesis by simp
  next
    case False
    then have "subst_piece (macro_word resolved) p = piece_text p"
      by (intro subst_piece_id) auto
    moreover have "w \<notin> fst ` set resolved" if "p = Word w" for w
      using that False by (auto simp: map_of_eq_None_iff [symmetric])
    ultimately show ?thesis
      using clean_piece [OF p subst_ends_word [OF Cons.prems] _ rest] by simp
  qed
qed simp

section \<open>An induction rule for the two recursive functions\<close>

declare rec_macro.simps [simp del] rec_subst.simps [simp del]

lemma rec_subst_word:
  assumes "next_piece c cs = Some (Word w)" and "map_of ms w \<noteq> None"
    and "rec_macro ms vis w st = (v, st1)"
    and "rec_subst ms vis (drop (length w) (c # cs)) st1 = (r, st2)"
  shows "rec_subst ms vis (c # cs) st = (rbind r (\<lambda>rest. Inr (''('' @ v @ '')'' @ rest)), st2)"
  using assms by (subst rec_subst.simps) simp

lemma rec_subst_other:
  assumes "next_piece c cs = Some p" and "\<And>w. p = Word w \<Longrightarrow> map_of ms w = None"
    and "rec_subst ms vis (drop (length (piece_text p)) (c # cs)) st = (r, st2)"
  shows "rec_subst ms vis (c # cs) st = (rbind r (\<lambda>rest. Inr (piece_text p @ rest)), st2)"
  using assms by (subst rec_subst.simps) (cases p; simp)

definition store :: "string \<Rightarrow> string \<Rightarrow> macro_state \<Rightarrow> macro_state" where
  "store name out st = st\<lparr>ms_resolved := AList.update name out (ms_resolved st)\<rparr>"

lemma rec_macro_body:
  assumes "map_of (ms_resolved st) name = None" and "name \<notin> set vis" and "map_of ms name = Some body"
    and "rec_subst ms (name # vis) body st = (r, st1)"
  shows "rec_macro ms vis name st =
    (case r of Inr out \<Rightarrow> (out, store name out st1) | Inl e \<Rightarrow> ([], store name [] (set_err e st1)))"
  using assms by (subst rec_macro.simps) (simp add: store_def Let_def split: sum.splits)

text \<open>\<open>P\<close> speaks of a call of \<open>rec\<close>, \<open>Q\<close> of a call of the substitution loop, with their results.\<close>

lemma rec_induct:
  assumes hit: "\<And>ms vis name st v. map_of (ms_resolved st) name = Some v \<Longrightarrow> P ms vis name st v st"
    and cycle: "\<And>ms vis name st. map_of (ms_resolved st) name = None \<Longrightarrow> name \<in> set vis \<Longrightarrow>
        P ms vis name st [] (set_err (MacroCycle name) st)"
    and nobody: "\<And>ms vis name st. map_of (ms_resolved st) name = None \<Longrightarrow> name \<notin> set vis \<Longrightarrow>
        map_of ms name = None \<Longrightarrow> P ms vis name st [] (store name [] st)"
    and body: "\<And>ms vis name st bdy out st1. map_of (ms_resolved st) name = None \<Longrightarrow> name \<notin> set vis \<Longrightarrow>
        map_of ms name = Some bdy \<Longrightarrow> Q ms (name # vis) bdy st (Inr out) st1 \<Longrightarrow>
        P ms vis name st out (store name out st1)"
    and error: "\<And>ms vis name st bdy e st1. map_of (ms_resolved st) name = None \<Longrightarrow> name \<notin> set vis \<Longrightarrow>
        map_of ms name = Some bdy \<Longrightarrow> Q ms (name # vis) bdy st (Inl e) st1 \<Longrightarrow>
        P ms vis name st [] (store name [] (set_err e st1))"
    and nil: "\<And>ms vis st. Q ms vis [] st (Inr []) st"
    and unterminated: "\<And>ms vis c cs st. next_piece c cs = None \<Longrightarrow>
        Q ms vis (c # cs) st (Inl UnterminatedInCondition) st"
    and word: "\<And>ms vis c cs st w v st1 r st2. next_piece c cs = Some (Word w) \<Longrightarrow> map_of ms w \<noteq> None \<Longrightarrow>
        P ms vis w st v st1 \<Longrightarrow> Q ms vis (drop (length w) (c # cs)) st1 r st2 \<Longrightarrow>
        Q ms vis (c # cs) st (rbind r (\<lambda>rest. Inr (''('' @ v @ '')'' @ rest))) st2"
    and other: "\<And>ms vis c cs st p r st2. next_piece c cs = Some p \<Longrightarrow>
        (\<And>w. p = Word w \<Longrightarrow> map_of ms w = None) \<Longrightarrow>
        Q ms vis (drop (length (piece_text p)) (c # cs)) st r st2 \<Longrightarrow>
        Q ms vis (c # cs) st (rbind r (\<lambda>rest. Inr (piece_text p @ rest))) st2"
  shows "rec_macro ms vis name st = (out, st') \<Longrightarrow> P ms vis name st out st'"
    and "rec_subst ms vis s st = (r, st') \<Longrightarrow> Q ms vis s st r st'"
proof (induction ms vis name st and ms vis s st arbitrary: out st' and r st'
    rule: rec_macro_rec_subst.induct)
  case (1 ms vis name st)
  show ?case
  proof (cases "map_of (ms_resolved st) name")
    case (Some v)
    with "1.prems" have "out = v" "st' = st" by (simp_all add: rec_macro.simps)
    with Some show ?thesis by (simp add: hit)
  next
    case None
    show ?thesis
    proof (cases "name \<in> set vis")
      case True
      with None "1.prems" have "out = []" "st' = set_err (MacroCycle name) st"
        by (simp_all add: rec_macro.simps)
      with None True show ?thesis by (simp add: cycle)
    next
      case fresh: False
      show ?thesis
      proof (cases "map_of ms name")
        case nobdy: None
        with None fresh "1.prems" have "out = []" "st' = store name [] st"
          by (simp_all add: rec_macro.simps store_def)
        with None fresh nobdy show ?thesis by (simp add: nobody)
      next
        case bdy: (Some bdy)
        obtain r st1 where sub: "rec_subst ms (name # vis) bdy st = (r, st1)" by fastforce
        with "1.IH" None fresh bdy have q: "Q ms (name # vis) bdy st r st1" by simp
        from rec_macro_body [OF None fresh bdy sub] "1.prems" q None fresh bdy
        show ?thesis by (cases r) (auto intro: body error)
      qed
    qed
  qed
next
  case (2 ms vis st)
  then show ?case using nil by (auto simp: rec_subst.simps)
next
  case (3 ms vis c cs st)
  show ?case
  proof (cases "next_piece c cs")
    case None
    with "3.prems" have "r = Inl UnterminatedInCondition" "st' = st" by (simp_all add: rec_subst.simps)
    with None show ?thesis by (simp add: unterminated)
  next
    case (Some p)
    show ?thesis
    proof (cases "\<exists>w. p = Word w \<and> map_of ms w \<noteq> None")
      case True
      then obtain w where w: "p = Word w" "map_of ms w \<noteq> None" by blast
      obtain v st1 where v: "rec_macro ms vis w st = (v, st1)" by fastforce
      obtain r2 st2 where r2: "rec_subst ms vis (drop (length w) (c # cs)) st1 = (r2, st2)" by fastforce
      have "P ms vis w st v st1" using "3.IH"(1) [OF Some w] v by simp
      moreover have "Q ms vis (drop (length w) (c # cs)) st1 r2 st2"
        using "3.IH"(2) [OF Some, of "(''('' @ v @ '')'', st1)" "''('' @ v @ '')''" st1] w v r2 by simp
      ultimately have "Q ms vis (c # cs) st (rbind r2 (\<lambda>rest. Inr (''('' @ v @ '')'' @ rest))) st2"
        by (rule word [OF Some [unfolded w] w(2)])
      moreover have "(r, st') = (rbind r2 (\<lambda>rest. Inr (''('' @ v @ '')'' @ rest)), st2)"
        using rec_subst_word [OF Some [unfolded w] w(2) v r2] "3.prems" by (rule trans [OF sym, rotated])
      ultimately show ?thesis by simp
    next
      case False
      then have np: "\<And>w. p = Word w \<Longrightarrow> map_of ms w = None" by auto
      obtain r2 st2 where r2: "rec_subst ms vis (drop (length (piece_text p)) (c # cs)) st = (r2, st2)"
        by fastforce
      have "Q ms vis (drop (length (piece_text p)) (c # cs)) st r2 st2"
        using "3.IH"(2) [OF Some, of "(piece_text p, st)" "piece_text p" st] np r2
        by (cases p) auto
      then show ?thesis
        using rec_subst_other [OF Some np r2] "3.prems" Some np by (auto intro!: other)
    qed
  qed
qed

lemmas rec_inducts [consumes 1, case_names hit cycle nobody body error nil unterminated word other] =
  rec_induct(1) [rotated -1] rec_induct(2) [rotated -1]

section \<open>Errors stay, and what a run without error leaves behind\<close>

lemma set_err_not_None [simp]: "set_err e st = st' \<Longrightarrow> ms_err st' \<noteq> None" "\<exists>y. ms_err (set_err e st) = Some y"
  by (auto simp: set_err_def)

lemma store_simps [simp]:
  "ms_err (store n v st) = ms_err st"
  "ms_resolved (store n v st) = AList.update n v (ms_resolved st)"
  by (simp_all add: store_def)

text \<open>The dependency relation of the macros: \<open>a\<close>'s body has the macro name \<open>b\<close> as a word.\<close>

definition depends :: "(string \<times> string) list \<Rightarrow> string \<Rightarrow> string \<Rightarrow> bool" where
  "depends ms a b \<longleftrightarrow> (\<exists>body ps. map_of ms a = Some body \<and> pieces body = Some ps \<and>
     Word b \<in> set ps \<and> map_of ms b \<noteq> None)"

definition scans :: "(string \<times> string) list \<Rightarrow> string \<Rightarrow> bool" where
  "scans ms a \<longleftrightarrow> (\<exists>body ps. map_of ms a = Some body \<and> pieces body = Some ps)"

abbreviation names_of :: "macro_state \<Rightarrow> string set" where
  "names_of st \<equiv> fst ` set (ms_resolved st)"

text \<open>Every resolved name follows the names its body uses.\<close>

definition ordered :: "(string \<times> string) list \<Rightarrow> string list \<Rightarrow> bool" where
  "ordered ms ns \<longleftrightarrow> distinct ns \<and>
     (\<forall>i < length ns. scans ms (ns ! i) \<and> (\<forall>b. depends ms (ns ! i) b \<longrightarrow> b \<in> set (take i ns)))"

definition state_ok :: "(string \<times> string) list \<Rightarrow> string list \<Rightarrow> macro_state \<Rightarrow> bool" where
  "state_ok ms vis st \<longleftrightarrow> names_of st \<subseteq> fst ` set ms \<and> set vis \<inter> names_of st = {} \<and>
     ordered ms (map fst (ms_resolved st)) \<and>
     (\<forall>v \<in> snd ` set (ms_resolved st). clean (fst ` set ms) v)"

lemma ordered_snoc:
  "ordered ms ns \<Longrightarrow> n \<notin> set ns \<Longrightarrow> scans ms n \<Longrightarrow> (\<And>b. depends ms n b \<Longrightarrow> b \<in> set ns) \<Longrightarrow>
   ordered ms (ns @ [n])"
  by (auto simp: ordered_def nth_append less_Suc_eq)

lemma update_fresh: "k \<notin> fst ` set m \<Longrightarrow> AList.update k v m = m @ [(k, v)]"
  by (induction m) auto

lemma state_ok_store:
  assumes "state_ok ms (name # vis) st" and "name \<in> fst ` set ms" and "scans ms name"
    and "\<And>b. depends ms name b \<Longrightarrow> b \<in> names_of st" and "clean (fst ` set ms) out" and "name \<notin> set vis"
  shows "state_ok ms vis (store name out st)"
  using assms
  by (auto simp: state_ok_def update_fresh intro!: ordered_snoc)


lemma macro_free_mono: "macro_free M ps \<Longrightarrow> N \<subseteq> M \<Longrightarrow> macro_free N ps"
  by (auto simp: macro_free_def)


text \<open>What a successful call of the substitution loop on \<open>s\<close> guarantees of its text \<open>t\<close>.\<close>

definition subst_ok :: "(string \<times> string) list \<Rightarrow> string \<Rightarrow> string \<Rightarrow> string set \<Rightarrow> bool" where
  "subst_ok ms s t N \<longleftrightarrow> clean (fst ` set ms) t \<and> (s = [] \<longrightarrow> t = []) \<and>
     (s \<noteq> [] \<and> \<not> isIdentChar (hd s) \<longrightarrow> t \<noteq> [] \<and> hd t = hd s) \<and>
     (\<exists>ps. pieces s = Some ps \<and> (\<forall>w. Word w \<in> set ps \<longrightarrow> map_of ms w \<noteq> None \<longrightarrow> w \<in> N))"

lemma subst_ok_other:
  assumes p: "next_piece c cs = Some p" and nm: "\<And>w. p = Word w \<Longrightarrow> map_of ms w = None"
    and rest: "subst_ok ms (drop (length (piece_text p)) (c # cs)) t N"
  shows "subst_ok ms (c # cs) (piece_text p @ t) N"
proof -
  let ?s = "drop (length (piece_text p)) (c # cs)"
  from next_piece_Some [OF p] have ok: "piece_ok p" "ends_word p ?s" "c # cs = piece_text p @ ?s"
    by blast+
  then have ne: "piece_text p \<noteq> []" by (simp add: piece_text_nonempty)
  with ok(3) have hd: "hd (piece_text p) = c" by (metis hd_append2 list.sel(1))
  have "ends_word p t"
    using ok(2) rest by (cases p; cases ?s; cases t) (auto simp: subst_ok_def)
  moreover have "w \<notin> fst ` set ms" if "p = Word w" for w
    using nm [OF that] by (simp add: map_of_eq_None_iff)
  ultimately have "clean (fst ` set ms) (piece_text p @ t)"
    using ok(1) rest by (intro clean_piece) (auto simp: subst_ok_def)
  moreover obtain ps where "pieces ?s = Some ps"
    and "\<And>w. Word w \<in> set ps \<Longrightarrow> map_of ms w \<noteq> None \<Longrightarrow> w \<in> N"
    using rest by (auto simp: subst_ok_def)
  ultimately show ?thesis
    using p nm ne hd by (auto simp: subst_ok_def)
qed

lemma subst_ok_word:
  assumes p: "next_piece c cs = Some (Word w)" and w: "w \<in> N" and v: "clean (fst ` set ms) v"
    and rest: "subst_ok ms (drop (length w) (c # cs)) t N"
  shows "subst_ok ms (c # cs) (''('' @ v @ '')'' @ t) N"
proof -
  from next_piece_Some [OF p] have "isIdentStart c"
    by (auto split: list.splits)
  then have "isIdentChar c" by (rule isIdentStart_isIdentChar)
  moreover have "clean (fst ` set ms) (''('' @ v @ '')'' @ t)"
    using v rest by (intro clean_paren) (auto simp: subst_ok_def)
  moreover obtain ps where "pieces (drop (length w) (c # cs)) = Some ps"
    and "\<And>u. Word u \<in> set ps \<Longrightarrow> map_of ms u \<noteq> None \<Longrightarrow> u \<in> N"
    using rest by (auto simp: subst_ok_def)
  ultimately show ?thesis
    using p w by (auto simp: subst_ok_def)
qed

lemma subst_ok_mono: "subst_ok ms s t N \<Longrightarrow> N \<subseteq> N' \<Longrightarrow> subst_ok ms s t N'"
  by (fastforce simp: subst_ok_def)

lemma rec_state_ok:
  "rec_macro ms vis name st = (out, st') \<Longrightarrow> ms_err st' = None \<Longrightarrow>
     ms_err st = None \<and> (map_of ms name \<noteq> None \<longrightarrow> state_ok ms vis st \<longrightarrow>
       state_ok ms vis st' \<and> clean (fst ` set ms) out \<and> name \<in> names_of st' \<and> names_of st \<subseteq> names_of st')"
  "rec_subst ms vis s st = (r, st') \<Longrightarrow> ms_err st' = None \<Longrightarrow>
     ms_err st = None \<and> (state_ok ms vis st \<longrightarrow>
       state_ok ms vis st' \<and> names_of st \<subseteq> names_of st' \<and>
       (\<forall>t. r = Inr t \<longrightarrow> subst_ok ms s t (names_of st')))"
proof (induction ms vis name st out st' and ms vis s st r st' rule: rec_inducts)
  case (hit ms vis name st v)
  then have "(name, v) \<in> set (ms_resolved st)" by (auto dest: map_of_SomeD)
  with hit show ?case by (force simp: state_ok_def)
next
  case (cycle ms vis name st)
  then show ?case by auto
next
  case (nobody ms vis name st)
  then show ?case by simp
next
  case (body ms vis name st bdy out st1)
  have nn: "name \<notin> names_of st" using body.hyps(1) by (simp add: map_of_eq_None_iff)
  have e: "ms_err st1 = None" using body.prems by simp
  have "state_ok ms vis (store name out st1) \<and> clean (fst ` set ms) out \<and>
      name \<in> names_of (store name out st1) \<and> names_of st \<subseteq> names_of (store name out st1)"
    if "state_ok ms vis st"
  proof -
    from that nn have "state_ok ms (name # vis) st" by (simp add: state_ok_def)
    with body.IH [OF e] obtain ps where IH: "state_ok ms (name # vis) st1"
      "names_of st \<subseteq> names_of st1" "clean (fst ` set ms) out" "pieces bdy = Some ps"
      "\<And>w. Word w \<in> set ps \<Longrightarrow> map_of ms w \<noteq> None \<Longrightarrow> w \<in> names_of st1"
      by (auto simp: subst_ok_def)
    have "state_ok ms vis (store name out st1)"
    proof (rule state_ok_store [OF IH(1)])
      show "name \<in> fst ` set ms" using body.hyps(3) by (auto dest: map_of_SomeD simp: rev_image_eqI)
      show "scans ms name" using body.hyps(3) IH(4) by (auto simp: scans_def)
      show "b \<in> names_of st1" if "depends ms name b" for b
        using that body.hyps(3) IH(4,5) by (auto simp: depends_def)
    qed (use IH body.hyps in auto)
    with IH show ?thesis by (auto simp: dom_update)
  qed
  with body.IH [OF e] show ?case by simp
next
  case (error ms vis name st bdy e st1)
  then show ?case by auto
next
  case (nil ms vis st)
  then show ?case by (simp add: subst_ok_def)
next
  case (unterminated ms vis c cs st)
  then show ?case by simp
next
  case (word ms vis c cs st w v st1 r st2)
  from word.IH(2) [OF word.prems] have e: "ms_err st1 = None" by simp
  with word show ?case
    by (auto simp: rbind_Inr_iff intro!: subst_ok_word [simplified])
next
  case (other ms vis c cs st p r st2)
  then show ?case by (auto simp: rbind_Inr_iff intro!: subst_ok_other)
qed


section \<open>The resolved macros\<close>

lemma resolve_loop_ok:
  "ms_err (resolve_loop ms names st) = None \<Longrightarrow> state_ok ms [] st \<Longrightarrow> set names \<subseteq> fst ` set ms \<Longrightarrow>
   state_ok ms [] (resolve_loop ms names st) \<and>
   set names \<union> names_of st \<subseteq> names_of (resolve_loop ms names st)"
proof (induction ms names st rule: resolve_loop.induct)
  case (2 ms name names st)
  obtain out st1 where r: "rec_macro ms [] name st = (out, st1)" by fastforce
  from "2.prems"(1) r have e: "ms_err st1 = None" by (auto simp: Let_def split: if_splits)
  have "map_of ms name \<noteq> None" using "2.prems"(3) by (auto simp: map_of_eq_None_iff)
  with rec_state_ok(1) [OF r e] "2.prems"(2)
  have s1: "state_ok ms [] st1" "name \<in> names_of st1" "names_of st \<subseteq> names_of st1" by auto
  from "2.IH" [OF r [symmetric] refl] "2.prems" r e s1(1)
  have "state_ok ms [] (resolve_loop ms names st1) \<and>
     set names \<union> names_of st1 \<subseteq> names_of (resolve_loop ms names st1)" by simp
  moreover from this s1 have "insert name (set names) \<union> names_of st \<subseteq> names_of (resolve_loop ms names st1)"
    by (metis (no_types, lifting) Un_subset_iff insert_subset subset_trans subsetD)
  ultimately show ?case using r e by simp
qed simp

lemma resolveMacros_state:
  assumes "resolveMacros ms = Inr resolved"
  obtains st where "state_ok ms [] st" "ms_resolved st = resolved" "names_of st = fst ` set ms"
proof -
  let ?init = "\<lparr>ms_resolved = [], ms_err = None\<rparr>"
  let ?st = "resolve_loop ms (map fst ms) ?init"
  from assms have e: "ms_err ?st = None" and res: "ms_resolved ?st = resolved"
    by (auto simp: resolveMacros_def Let_def split: option.splits)
  have "state_ok ms [] ?init" by (simp add: state_ok_def ordered_def)
  then have ok: "state_ok ms [] ?st \<and> set (map fst ms) \<union> names_of ?init \<subseteq> names_of ?st"
    by (rule resolve_loop_ok [OF e]) simp
  then have "names_of ?st = fst ` set ms" unfolding state_ok_def by auto
  with ok show thesis by (intro that [OF _ res]) simp_all
qed

text \<open>Every macro is resolved, and no resolved text mentions a macro.\<close>

lemma resolveMacros_clean:
  assumes "resolveMacros ms = Inr resolved"
  shows "fst ` set resolved = fst ` set ms" "(k, v) \<in> set resolved \<Longrightarrow> clean (fst ` set ms) v"
proof -
  obtain st where st: "state_ok ms [] st" "ms_resolved st = resolved" "names_of st = fst ` set ms"
    using assms by (rule resolveMacros_state)
  show "fst ` set resolved = fst ` set ms" using st by simp
  show "clean (fst ` set ms) v" if "(k, v) \<in> set resolved"
  proof -
    from that have "v \<in> snd ` set resolved" by force
    with st show ?thesis unfolding state_ok_def by blast
  qed
qed

text \<open>One pass of \<open>applyMacros\<close> over a condition is enough.\<close>

lemma applyMacros_idem:
  assumes "resolveMacros ms = Inr resolved" and "applyMacros cond resolved = Inr cond'"
  shows "clean (fst ` set ms) cond' \<and> applyMacros cond' resolved = Inr cond'"
proof -
  note r = resolveMacros_clean [OF assms(1)]
  from assms(2) obtain ps where ps: "pieces cond = Some ps"
    and c: "cond' = concat (map (subst_piece (macro_word resolved)) ps)"
    by (auto simp: applyMacros_eq split: option.splits)
  from ps have "pieces_ok ps" by (auto dest: pieces_Some)
  then have "clean (fst ` set resolved) cond'"
    unfolding c by (rule subst_clean) (use r in \<open>auto dest: map_of_SomeD\<close>)
  with r(1) show ?thesis by (auto intro: applyMacros_clean)
qed

subsection \<open>Which macro sets resolve\<close>

lemma rec_complete:
  "rec_macro ms vis name st = (out, st') \<Longrightarrow> acyclicP (depends ms) \<Longrightarrow> (\<And>a. map_of ms a \<noteq> None \<Longrightarrow> scans ms a) \<Longrightarrow>
     ms_err st = None \<Longrightarrow> (\<And>v. v \<in> set vis \<Longrightarrow> (depends ms)\<^sup>+\<^sup>+ v name) \<Longrightarrow> ms_err st' = None"
  "rec_subst ms vis s st = (r, st') \<Longrightarrow> acyclicP (depends ms) \<Longrightarrow> (\<And>a. map_of ms a \<noteq> None \<Longrightarrow> scans ms a) \<Longrightarrow>
     ms_err st = None \<Longrightarrow>
     (\<exists>ps. pieces s = Some ps \<and>
       (\<forall>w v. Word w \<in> set ps \<longrightarrow> map_of ms w \<noteq> None \<longrightarrow> v \<in> set vis \<longrightarrow> (depends ms)\<^sup>+\<^sup>+ v w)) \<Longrightarrow>
     ms_err st' = None \<and> (\<exists>t. r = Inr t)"
proof (induction ms vis name st out st' and ms vis s st r st' rule: rec_inducts)
  case (cycle ms vis name st)
  then have "(depends ms)\<^sup>+\<^sup>+ name name" by blast
  with cycle.prems(1) show ?case by (auto simp: acyclic_def tranclp_unfold)
next
  case (body ms vis name st bdy out st1)
  from body.prems(2) [of name] body.hyps(3) obtain ps where ps: "pieces bdy = Some ps"
    by (auto simp: scans_def)
  have "(depends ms)\<^sup>+\<^sup>+ v w" if "Word w \<in> set ps" "map_of ms w \<noteq> None" "v \<in> set (name # vis)" for w v
  proof -
    have "depends ms name w" using that ps body.hyps(3) by (auto simp: depends_def)
    with that(3) body.prems(4) show ?thesis by (auto intro: tranclp.trancl_into_trancl)
  qed
  with body ps show ?case by auto
next
  case (error ms vis name st bdy e st1)
  from error.prems(2) [of name] error.hyps(3) obtain ps where ps: "pieces bdy = Some ps"
    by (auto simp: scans_def)
  have "(depends ms)\<^sup>+\<^sup>+ v w" if "Word w \<in> set ps" "map_of ms w \<noteq> None" "v \<in> set (name # vis)" for w v
  proof -
    have "depends ms name w" using that ps error.hyps(3) by (auto simp: depends_def)
    with that(3) error.prems(4) show ?thesis by (auto intro: tranclp.trancl_into_trancl)
  qed
  with error ps show ?case by auto
next
  case (word ms vis c cs st w v st1 r st2)
  from word.prems(4) word.hyps(1) obtain ps where
    ps: "pieces (drop (length w) (c # cs)) = Some ps"
    and dep: "\<forall>u v. Word u \<in> set (Word w # ps) \<longrightarrow> map_of ms u \<noteq> None \<longrightarrow> v \<in> set vis \<longrightarrow> (depends ms)\<^sup>+\<^sup>+ v u"
    by auto
  from word.IH(1) [OF word.prems(1-3)] dep word.hyps(2) have "ms_err st1 = None" by auto
  with word.IH(2) [OF word.prems(1,2)] ps dep show ?case by (auto simp: rbind_def split: sum.splits)
next
  case (other ms vis c cs st p r st2)
  from other.prems(4) other.hyps(1) obtain ps where
    ps: "pieces (drop (length (piece_text p)) (c # cs)) = Some ps"
    and dep: "\<forall>u v. Word u \<in> set ps \<longrightarrow> map_of ms u \<noteq> None \<longrightarrow> v \<in> set vis \<longrightarrow> (depends ms)\<^sup>+\<^sup>+ v u"
    by auto
  from other.IH [OF other.prems(1-3)] ps dep show ?case by auto
qed auto

lemma resolve_loop_complete:
  "acyclicP (depends ms) \<Longrightarrow> (\<And>a. map_of ms a \<noteq> None \<Longrightarrow> scans ms a) \<Longrightarrow> ms_err st = None \<Longrightarrow>
   ms_err (resolve_loop ms names st) = None"
proof (induction ms names st rule: resolve_loop.induct)
  case (2 ms name names st)
  obtain out st1 where r: "rec_macro ms [] name st = (out, st1)" by fastforce
  from rec_complete(1) [OF r "2.prems"] have e: "ms_err st1 = None" by auto
  with "2.IH" [OF r [symmetric] refl] "2.prems" r show ?case by simp
qed simp

lemma ordered_acyclic:
  assumes "ordered ms ns" and "set ns = fst ` set ms"
  shows "acyclicP (depends ms)"
proof -
  have acc: "i < length ns \<Longrightarrow> Wellfounded.accp (\<lambda>b a. depends ms a b) (ns ! i)" for i
  proof (induction i rule: less_induct)
    case (less i)
    show ?case
    proof (rule accpI)
      fix b assume "depends ms (ns ! i) b"
      with assms(1) less.prems have "b \<in> set (take i ns)" by (auto simp: ordered_def)
      then obtain j where "j < i" "b = ns ! j" using less.prems by (auto simp: in_set_conv_nth)
      with less show "Wellfounded.accp (\<lambda>b a. depends ms a b) b" by auto
    qed
  qed
  have "Wellfounded.accp (\<lambda>b a. depends ms a b) a" for a
  proof (rule accpI)
    fix b assume "depends ms a b"
    then have "b \<in> set ns" using assms(2) by (auto simp: depends_def dest!: map_of_SomeD simp: rev_image_eqI)
    with acc show "Wellfounded.accp (\<lambda>b a. depends ms a b) b" by (auto simp: in_set_conv_nth)
  qed
  then have "wfp (\<lambda>b a. depends ms a b)" by (simp add: accp_wfpI)
  then have "acyclic {(b, a). depends ms a b}" by (simp add: wfp_def wf_acyclic)
  then have "acyclic ({(b, a). depends ms a b}\<inverse>)" by simp
  then show ?thesis by (simp add: converse_unfold)
qed

lemma resolveMacros_succeeds_iff:
  "(\<exists>resolved. resolveMacros ms = Inr resolved) \<longleftrightarrow>
   acyclicP (depends ms) \<and> (\<forall>a \<in> fst ` set ms. scans ms a)"
proof
  assume "\<exists>resolved. resolveMacros ms = Inr resolved"
  then obtain resolved st where st: "state_ok ms [] st" "names_of st = fst ` set ms"
    using resolveMacros_state by metis
  let ?ns = "map fst (ms_resolved st)"
  have o: "ordered ms ?ns" using st(1) by (simp add: state_ok_def)
  have s: "set ?ns = fst ` set ms" using st(2) by simp
  from o have "\<forall>a \<in> set ?ns. scans ms a" unfolding ordered_def by (metis in_set_conv_nth)
  with s ordered_acyclic [OF o s] show "acyclicP (depends ms) \<and> (\<forall>a \<in> fst ` set ms. scans ms a)" by simp
next
  assume a: "acyclicP (depends ms) \<and> (\<forall>a \<in> fst ` set ms. scans ms a)"
  have "ms_err (resolve_loop ms (map fst ms) \<lparr>ms_resolved = [], ms_err = None\<rparr>) = None"
    by (rule resolve_loop_complete) (use a in \<open>auto dest!: map_of_SomeD simp: rev_image_eqI\<close>)
  then show "\<exists>resolved. resolveMacros ms = Inr resolved"
    by (simp add: resolveMacros_def)
qed

subsection \<open>The resolved macros solve their equations\<close>

text \<open>The text \<open>t\<close> is \<open>s\<close> with each macro name replaced by its text in \<open>R\<close>.\<close>

definition unfolds :: "(string \<times> string) list \<Rightarrow> (string \<times> string) list \<Rightarrow> string \<Rightarrow> string \<Rightarrow> bool" where
  "unfolds ms R s t \<longleftrightarrow> (\<exists>ps. pieces s = Some ps \<and>
     (\<forall>w. Word w \<in> set ps \<longrightarrow> map_of ms w \<noteq> None \<longrightarrow> map_of R w \<noteq> None) \<and>
     t = concat (map (subst_piece (\<lambda>w. if map_of ms w = None then None else macro_word R w)) ps))"

definition fix_ok :: "(string \<times> string) list \<Rightarrow> string list \<Rightarrow> macro_state \<Rightarrow> bool" where
  "fix_ok ms vis st \<longleftrightarrow> set vis \<inter> names_of st = {} \<and>
     (\<forall>k v. map_of (ms_resolved st) k = Some v \<longrightarrow>
        (\<exists>body. map_of ms k = Some body \<and> unfolds ms (ms_resolved st) body v))"

abbreviation grows :: "macro_state \<Rightarrow> macro_state \<Rightarrow> bool" where
  "grows st st' \<equiv> map_of (ms_resolved st) \<subseteq>\<^sub>m map_of (ms_resolved st')"

lemma subst_piece_cong:
  "(\<And>w. p = Word w \<Longrightarrow> f w = g w) \<Longrightarrow> subst_piece f p = subst_piece g p"
  by (cases p) (simp_all add: subst_piece_def)

lemma unfolds_mono:
  assumes "unfolds ms R s t" and "map_of R \<subseteq>\<^sub>m map_of R'"
  shows "unfolds ms R' s t"
proof -
  have ex: "map_of R w \<noteq> None \<Longrightarrow> map_of R' w = map_of R w" for w
    using assms(2) by (metis domIff map_le_def)
  from assms(1) obtain ps where ps: "pieces s = Some ps"
    "\<And>w. Word w \<in> set ps \<Longrightarrow> map_of ms w \<noteq> None \<Longrightarrow> map_of R w \<noteq> None"
    "t = concat (map (subst_piece (\<lambda>w. if map_of ms w = None then None else macro_word R w)) ps)"
    unfolding unfolds_def by blast
  have "map (subst_piece (\<lambda>w. if map_of ms w = None then None else macro_word R w)) ps =
      map (subst_piece (\<lambda>w. if map_of ms w = None then None else macro_word R' w)) ps"
  proof (rule map_cong [OF refl subst_piece_cong])
    fix p w assume "p \<in> set ps" "p = Word w"
    with ps(2) [of w] ex [of w]
    show "(if map_of ms w = None then None else macro_word R w) =
        (if map_of ms w = None then None else macro_word R' w)"
      by (cases "map_of ms w") (auto simp: macro_word_def)
  qed
  with ps(3) have "t = concat (map (subst_piece (\<lambda>w. if map_of ms w = None then None else macro_word R' w)) ps)"
    by simp
  with ps(1,2) ex show ?thesis unfolding unfolds_def by (intro exI [of _ ps]) auto
qed

lemma grows_store: "name \<notin> names_of st \<Longrightarrow> grows st (store name out st)"
  by (auto simp: store_def map_le_def update_conv' dom_map_of_conv_image_fst)

lemma fix_ok_store:
  assumes "fix_ok ms (name # vis) st" and "map_of ms name = Some body"
    and "unfolds ms (ms_resolved st) body out" and "name \<notin> set vis"
  shows "fix_ok ms vis (store name out st)"
proof -
  from assms(1) have fresh: "name \<notin> names_of st" by (simp add: fix_ok_def)
  then have g: "grows st (store name out st)" by (rule grows_store)
  have "\<exists>body. map_of ms k = Some body \<and> unfolds ms (ms_resolved (store name out st)) body v"
    if kv: "map_of (ms_resolved (store name out st)) k = Some v" for k v
  proof (cases "k = name")
    case True
    with kv have "v = out" by (simp add: store_def update_conv')
    with True assms(2,3) unfolds_mono [OF _ g] show ?thesis by blast
  next
    case False
    with kv have "map_of (ms_resolved st) k = Some v" by (simp add: store_def update_conv')
    with assms(1) unfolds_mono [OF _ g] show ?thesis unfolding fix_ok_def by blast
  qed
  with assms(1,4) show ?thesis by (auto simp: fix_ok_def store_def dom_update)
qed

lemma unfolds_Cons:
  assumes "next_piece c cs = Some p" and "unfolds ms R (drop (length (piece_text p)) (c # cs)) t"
    and "\<And>w. p = Word w \<Longrightarrow> map_of ms w \<noteq> None \<Longrightarrow> map_of R w \<noteq> None"
  shows "unfolds ms R (c # cs)
    (subst_piece (\<lambda>w. if map_of ms w = None then None else macro_word R w) p @ t)"
  using assms by (auto simp: unfolds_def)

lemma rec_fix_ok:
  "rec_macro ms vis name st = (out, st') \<Longrightarrow> ms_err st' = None \<Longrightarrow>
     ms_err st = None \<and> (map_of ms name \<noteq> None \<longrightarrow> fix_ok ms vis st \<longrightarrow>
       fix_ok ms vis st' \<and> grows st st' \<and> map_of (ms_resolved st') name = Some out)"
  "rec_subst ms vis s st = (r, st') \<Longrightarrow> ms_err st' = None \<Longrightarrow>
     ms_err st = None \<and> (fix_ok ms vis st \<longrightarrow> fix_ok ms vis st' \<and> grows st st' \<and>
       (\<forall>t. r = Inr t \<longrightarrow> unfolds ms (ms_resolved st') s t))"
proof (induction ms vis name st out st' and ms vis s st r st' rule: rec_inducts)
  case (body ms vis name st bdy out st1)
  have nn: "name \<notin> names_of st" using body.hyps(1) by (simp add: map_of_eq_None_iff)
  have e: "ms_err st1 = None" using body.prems by simp
  have "fix_ok ms vis (store name out st1) \<and> grows st (store name out st1)"
    if "fix_ok ms vis st"
  proof -
    from that nn have "fix_ok ms (name # vis) st" by (simp add: fix_ok_def)
    with body.IH [OF e] have IH: "fix_ok ms (name # vis) st1" "grows st st1"
      "unfolds ms (ms_resolved st1) bdy out" by auto
    from IH(1) have "grows st1 (store name out st1)" by (intro grows_store) (simp add: fix_ok_def)
    with IH body.hyps show ?thesis by (blast intro: fix_ok_store map_le_trans)
  qed
  with body.IH [OF e] show ?case by (auto simp: store_def update_conv' fun_upd_def)
next
  case (nil ms vis st)
  then show ?case by (simp add: unfolds_def)
next
  case (word ms vis c cs st w v st1 r st2)
  from word.IH(2) [OF word.prems] have e: "ms_err st1 = None" by simp
  have "fix_ok ms vis st2 \<and> grows st st2 \<and>
      (\<forall>t. rbind r (\<lambda>rest. Inr (''('' @ v @ '')'' @ rest)) = Inr t \<longrightarrow> unfolds ms (ms_resolved st2) (c # cs) t)"
    if "fix_ok ms vis st"
  proof -
    from word.IH(1) [OF e] word.hyps(2) that
    have s1: "fix_ok ms vis st1" "grows st st1" "map_of (ms_resolved st1) w = Some v" by auto
    with word.IH(2) [OF word.prems] have s2: "fix_ok ms vis st2" "grows st1 st2"
      "\<And>t. r = Inr t \<Longrightarrow> unfolds ms (ms_resolved st2) (drop (length w) (c # cs)) t" by auto
    from s1(3) s2(2) have w2: "map_of (ms_resolved st2) w = Some v"
      unfolding map_le_def by (metis domI)
    have "unfolds ms (ms_resolved st2) (c # cs) (''('' @ v @ '')'' @ rest)" if "r = Inr rest" for rest
      using unfolds_Cons [OF word.hyps(1), of ms "ms_resolved st2" rest] s2(3) [OF that] w2 word.hyps(2)
      by (auto simp: subst_piece_def macro_word_def)
    with s1 s2 show ?thesis by (auto simp: rbind_Inr_iff intro: map_le_trans)
  qed
  with word.IH(1) [OF e] show ?case by simp
next
  case (other ms vis c cs st p r st2)
  have "unfolds ms (ms_resolved st2) (c # cs) (piece_text p @ rest)"
    if "unfolds ms (ms_resolved st2) (drop (length (piece_text p)) (c # cs)) rest" for rest
  proof -
    have "subst_piece (\<lambda>w. if map_of ms w = None then None else macro_word (ms_resolved st2) w) p = piece_text p"
      using other.hyps(2) by (cases p) (simp_all add: subst_piece_def)
    with unfolds_Cons [OF other.hyps(1) that] other.hyps(2) show ?thesis by simp
  qed
  with other show ?case by (auto simp: rbind_Inr_iff)
qed auto

lemma resolve_loop_fix_ok:
  "ms_err (resolve_loop ms names st) = None \<Longrightarrow> fix_ok ms [] st \<Longrightarrow> set names \<subseteq> fst ` set ms \<Longrightarrow>
   fix_ok ms [] (resolve_loop ms names st)"
proof (induction ms names st rule: resolve_loop.induct)
  case (2 ms name names st)
  obtain out st1 where r: "rec_macro ms [] name st = (out, st1)" by fastforce
  from "2.prems"(1) r have e: "ms_err st1 = None" by (auto simp: Let_def split: if_splits)
  have "map_of ms name \<noteq> None" using "2.prems"(3) by (auto simp: map_of_eq_None_iff)
  with rec_fix_ok(1) [OF r e] "2.prems"(2) have "fix_ok ms [] st1" by auto
  with "2.IH" [OF r [symmetric] refl] "2.prems" r e show ?case by simp
qed simp

section \<open>Properties\<close>

text \<open>
  C36. \<open>resolveMacros\<close> returns for every set of macros, and it succeeds exactly when no macro
  uses itself, directly or through others, and every body has its string literals closed.
\<close>

theorem resolveMacros_total:
  "(\<exists>resolved. resolveMacros ms = Inr resolved) \<longleftrightarrow>
   acyclicP (depends ms) \<and> fst ` set ms \<subseteq> Collect (scans ms)"
  unfolding resolveMacros_succeeds_iff by blast

text \<open>
  With resolved macros, one pass of \<open>applyMacros\<close> expands a condition completely: no
  macro's name is left as a word of the result, and a further pass changes nothing.
\<close>

theorem expansion_complete:
  assumes "resolveMacros ms = Inr resolved" and "applyMacros cond resolved = Inr cond'"
  shows "clean (fst ` set ms) cond' \<and> applyMacros cond' resolved = Inr cond'"
  using assms by (rule applyMacros_idem)

theorem expansion_complete_witness:
  "clean (fst ` set [(''shells'', ''sh''), (''sh'', ''b'')]) ''a in ((b)) or (b)'' \<and>
   applyMacros ''a in ((b)) or (b)'' [(''sh'', ''b''), (''shells'', ''(b)'')] =
     Inr ''a in ((b)) or (b)''"
  by (rule expansion_complete [where cond = "''a in shells or sh''"]) code_simp+

text \<open>
  \<open>resolveMacros\<close> computes what a macro means: the text of every macro is its body with the
  macros the body names expanded (in parentheses), so the order in which the map is ranged over
  cannot change it.
\<close>

theorem resolveMacros_fixpoint:
  assumes "resolveMacros ms = Inr resolved" and "map_of ms k = Some body"
  shows "\<exists>v. map_of resolved k = Some v \<and> applyMacros body resolved = Inr v"
proof -
  let ?init = "\<lparr>ms_resolved = [], ms_err = None\<rparr>"
  let ?st = "resolve_loop ms (map fst ms) ?init"
  from assms(1) have e: "ms_err ?st = None" and res: "ms_resolved ?st = resolved"
    by (auto simp: resolveMacros_def Let_def split: option.splits)
  have ok: "fix_ok ms [] ?st"
    by (rule resolve_loop_fix_ok [OF e]) (simp_all add: fix_ok_def)
  have dom: "fst ` set resolved = fst ` set ms" by (rule resolveMacros_clean(1) [OF assms(1)])
  have "k \<in> fst ` set resolved" using assms(2) unfolding dom by (auto dest: map_of_SomeD simp: rev_image_eqI)
  then obtain v where v: "map_of resolved k = Some v" by (metis map_of_eq_None_iff not_None_eq)
  with ok assms(2) have "unfolds ms resolved body v"
    unfolding fix_ok_def res by (metis option.inject)
  moreover have "map_of ms w = None \<Longrightarrow> macro_word resolved w = None" for w
    using dom by (auto simp: macro_word_def map_of_eq_None_iff)
  then have "(\<lambda>w. if map_of ms w = None then None else macro_word resolved w) = macro_word resolved" by auto
  ultimately show ?thesis using v by (auto simp: unfolds_def applyMacros_eq)
qed

theorem resolveMacros_fixpoint_witness:
  "\<exists>v. map_of [(''sh'', ''b''), (''shells'', ''(b)'')] ''shells'' = Some v \<and>
     applyMacros ''sh'' [(''sh'', ''b''), (''shells'', ''(b)'')] = Inr v"
  by (rule resolveMacros_fixpoint [where ms = "[(''shells'', ''sh''), (''sh'', ''b'')]"]) code_simp+

end
