(* ===== verification/EvalEnv.thy ===== *)
theory EvalEnv
  imports RuleTypes
begin

text \<open>
  The evaluation context and the fields of the condition language,
  \<open>internal/ruleengine/env.go\<close>. \<open>evalCtx\<close> caches the lineage and the executable's base name; an
  accessor is a constructor of \<open>str_field\<close>, \<open>int_field\<close> or \<open>bool_field\<close> with its function
  \<open>str_get\<close>, \<open>int_get\<close>, \<open>bool_get\<close>, which returns the context with the caches it has filled.
  The specification functions \<open>str_val\<close>, \<open>int_val\<close>, \<open>bool_val\<close> compute from the event, the
  provider and the scope alone; the last section shows that caching cannot be observed.
\<close>

section \<open>Open flags\<close>

definition re_oWRONLY :: "64 word" where "re_oWRONLY = 0x1"
definition re_oRDWR :: "64 word" where "re_oRDWR = 0x2"
definition re_oCREAT :: "64 word" where "re_oCREAT = 0x40"
definition re_oTRUNC :: "64 word" where "re_oTRUNC = 0x200"
definition re_oAPPEND :: "64 word" where "re_oAPPEND = 0x400"

definition re_writeFlagMask :: "64 word" where
  "re_writeFlagMask = re_oWRONLY OR re_oRDWR OR re_oCREAT OR re_oTRUNC OR re_oAPPEND"

section \<open>Small helpers\<close>

definition dirName :: "string \<Rightarrow> string" where
  "dirName path = (case last_index_byte path CHR ''/'' of
     Some i \<Rightarrow> (if i = 0 then ''/'' else take i path)
   | None \<Rightarrow> [])"

definition processName :: "event \<Rightarrow> string" where
  "processName e =
     (if e_Type e = EventExecve \<and> e_Filename e \<noteq> [] then base_name (e_Filename e)
      else e_ProcessName e)"

definition scopeName :: "scope \<Rightarrow> string" where
  "scopeName s = (if s = ScopeHost then ''host'' else ''container'')"

definition reverseShellSigs :: "string list" where
  "reverseShellSigs = [''/dev/tcp/'', ''/dev/udp/'', ''nc -e'', ''ncat -e'', ''nc -c'',
     ''pty.spawn'', ''socket.socket'']"

definition reverseShellMatch :: "string \<Rightarrow> bool" where
  "reverseShellMatch cmd =
     (let cl = to_lower cmd in
      if list_ex (\<lambda>sig. contains cl sig) reverseShellSigs then True
      else if contains cl ''curl '' \<or> contains cl ''wget '' then
        list_ex (\<lambda>p. contains cl p) [''|sh'', ''| sh'', ''|bash'', ''| bash'']
      else False)"

section \<open>The context and its caches\<close>

record eval_ctx =
  cx_e :: event
  cx_c :: provider
  cx_scope :: scope
  cx_lin :: Lineage
  cx_linDone :: bool
  cx_base :: string
  cx_baseDone :: bool

definition newEvalCtx :: "event \<Rightarrow> provider \<Rightarrow> scope \<Rightarrow> eval_ctx" where
  "newEvalCtx e c s = \<lparr>cx_e = e, cx_c = c, cx_scope = s, cx_lin = LineageUnknown,
     cx_linDone = False, cx_base = [], cx_baseDone = False\<rparr>"

definition ctx_lineage :: "eval_ctx \<Rightarrow> Lineage \<times> eval_ctx" where
  "ctx_lineage cx =
     (if cx_linDone cx then (cx_lin cx, cx)
      else let l = p_Classify (cx_c cx) (e_Ancestry (cx_e cx)) (cx_scope cx = ScopeHost)
           in (l, cx\<lparr>cx_lin := l, cx_linDone := True\<rparr>))"

definition ctx_execBase :: "eval_ctx \<Rightarrow> string \<times> eval_ctx" where
  "ctx_execBase cx =
     (if cx_baseDone cx then (cx_base cx, cx)
      else let name = (if e_Filename (cx_e cx) = [] then e_ProcessName (cx_e cx)
                       else e_Filename (cx_e cx));
               b = to_lower (base_name name)
           in (b, cx\<lparr>cx_base := b, cx_baseDone := True\<rparr>))"

definition ctx_chain :: "eval_ctx \<Rightarrow> string list" where
  "ctx_chain cx = e_ProcessName (cx_e cx) # e_Ancestry (cx_e cx)"

section \<open>String fields\<close>

datatype str_field =
    EvtType | ProcName | ProcExeBase | ProcExePath | ProcCmdline | ProcCmdlineLc
  | FdName | FdDirectory | FScope | FLineage | FNetworkParent
  | ContainerName | ContainerID | ContainerImage

definition strFields :: "(string \<times> str_field) list" where
  "strFields =
     [(''evt.type'', EvtType), (''proc.name'', ProcName), (''proc.exe_base'', ProcExeBase),
      (''proc.exe_path'', ProcExePath), (''proc.cmdline'', ProcCmdline),
      (''proc.cmdline_lc'', ProcCmdlineLc), (''fd.name'', FdName), (''fd.directory'', FdDirectory),
      (''scope'', FScope), (''lineage'', FLineage), (''lineage.network_parent'', FNetworkParent),
      (''container.name'', ContainerName), (''container.id'', ContainerID),
      (''container.image'', ContainerImage)]"

definition containerField :: "event \<Rightarrow> nat \<Rightarrow> string" where
  "containerField e which = (case e_Container e of
     None \<Rightarrow> []
   | Some i \<Rightarrow> if which = 0 then c_Name i else if which = 1 then c_ID i else c_ImageName i)"

fun str_get :: "str_field \<Rightarrow> eval_ctx \<Rightarrow> string \<times> eval_ctx" where
  "str_get EvtType cx = (type_name (e_Type (cx_e cx)), cx)"
| "str_get ProcName cx = (processName (cx_e cx), cx)"
| "str_get ProcExeBase cx = ctx_execBase cx"
| "str_get ProcExePath cx = (e_Filename (cx_e cx), cx)"
| "str_get ProcCmdline cx = (e_CmdLine (cx_e cx), cx)"
| "str_get ProcCmdlineLc cx = (to_lower (e_CmdLine (cx_e cx)), cx)"
| "str_get FdName cx = (e_Filename (cx_e cx), cx)"
| "str_get FdDirectory cx = (dirName (e_Filename (cx_e cx)), cx)"
| "str_get FScope cx = (scopeName (cx_scope cx), cx)"
| "str_get FLineage cx = (let (l, cx') = ctx_lineage cx in (lineage_string l, cx'))"
| "str_get FNetworkParent cx = (p_NetworkParent (cx_c cx) (e_Ancestry (cx_e cx)), cx)"
| "str_get ContainerName cx = (containerField (cx_e cx) 0, cx)"
| "str_get ContainerID cx = (containerField (cx_e cx) 1, cx)"
| "str_get ContainerImage cx = (containerField (cx_e cx) 2, cx)"

section \<open>Integer and boolean fields\<close>

text \<open>
  \<open>int64(e.Arg1)\<close> keeps the 64 bits; comparison and \<open>&\<close> are those of the word, the signed
  value is \<open>sint\<close>.
\<close>

datatype int_field = PtraceRequest | PtraceTarget | BpfCmd

definition intFields :: "(string \<times> int_field) list" where
  "intFields = [(''ptrace.request'', PtraceRequest), (''ptrace.target'', PtraceTarget),
     (''bpf.cmd'', BpfCmd)]"

fun int_get :: "int_field \<Rightarrow> eval_ctx \<Rightarrow> 64 word" where
  "int_get PtraceRequest cx = e_Arg1 (cx_e cx)"
| "int_get PtraceTarget cx = e_Arg2 (cx_e cx)"
| "int_get BpfCmd cx = e_Arg1 (cx_e cx)"

datatype bool_field = IsOpenWrite | IsOpenTrunc

definition boolFields :: "(string \<times> bool_field) list" where
  "boolFields = [(''evt.is_open_write'', IsOpenWrite), (''evt.is_open_trunc'', IsOpenTrunc)]"

fun bool_get :: "bool_field \<Rightarrow> eval_ctx \<Rightarrow> bool" where
  "bool_get IsOpenWrite cx =
     (e_Type (cx_e cx) = EventOpen \<and> e_Arg1 (cx_e cx) AND re_writeFlagMask \<noteq> 0)"
| "bool_get IsOpenTrunc cx =
     (e_Type (cx_e cx) = EventOpen \<and> e_Arg1 (cx_e cx) AND re_oTRUNC \<noteq> 0)"

definition fieldAny :: "eval_ctx \<Rightarrow> string \<Rightarrow> gval option \<times> eval_ctx" where
  "fieldAny cx name =
     (case map_of strFields name of
        Some f \<Rightarrow> (let (v, cx') = str_get f cx in (Some (GStr v), cx'))
      | None \<Rightarrow> (case map_of intFields name of
          Some f \<Rightarrow> (Some (GInt (sint (int_get f cx))), cx)
        | None \<Rightarrow> (case map_of boolFields name of
            Some f \<Rightarrow> (Some (GBool (bool_get f cx)), cx)
          | None \<Rightarrow> (None, cx))))"

section \<open>Specification: fields without caches\<close>

type_synonym view = "event \<times> provider \<times> scope"

definition view_of :: "eval_ctx \<Rightarrow> view" where
  "view_of cx = (cx_e cx, cx_c cx, cx_scope cx)"

definition v_lineage :: "view \<Rightarrow> Lineage" where
  "v_lineage v = (case v of (e, c, s) \<Rightarrow> p_Classify c (e_Ancestry e) (s = ScopeHost))"

definition exec_base :: "event \<Rightarrow> string" where
  "exec_base e = to_lower (base_name (if e_Filename e = [] then e_ProcessName e else e_Filename e))"

definition v_chain :: "view \<Rightarrow> string list" where
  "v_chain v = (case v of (e, c, s) \<Rightarrow> e_ProcessName e # e_Ancestry e)"

definition str_val :: "str_field \<Rightarrow> view \<Rightarrow> string" where
  "str_val f v = (case v of (e, c, s) \<Rightarrow> (case f of
     EvtType \<Rightarrow> type_name (e_Type e)
   | ProcName \<Rightarrow> processName e
   | ProcExeBase \<Rightarrow> exec_base e
   | ProcExePath \<Rightarrow> e_Filename e
   | ProcCmdline \<Rightarrow> e_CmdLine e
   | ProcCmdlineLc \<Rightarrow> to_lower (e_CmdLine e)
   | FdName \<Rightarrow> e_Filename e
   | FdDirectory \<Rightarrow> dirName (e_Filename e)
   | FScope \<Rightarrow> scopeName s
   | FLineage \<Rightarrow> lineage_string (v_lineage v)
   | FNetworkParent \<Rightarrow> p_NetworkParent c (e_Ancestry e)
   | ContainerName \<Rightarrow> containerField e 0
   | ContainerID \<Rightarrow> containerField e 1
   | ContainerImage \<Rightarrow> containerField e 2))"

definition int_val :: "int_field \<Rightarrow> view \<Rightarrow> 64 word" where
  "int_val f v = (case v of (e, c, s) \<Rightarrow> (case f of
     PtraceRequest \<Rightarrow> e_Arg1 e | PtraceTarget \<Rightarrow> e_Arg2 e | BpfCmd \<Rightarrow> e_Arg1 e))"

definition bool_val :: "bool_field \<Rightarrow> view \<Rightarrow> bool" where
  "bool_val f v = (case v of (e, c, s) \<Rightarrow> (case f of
     IsOpenWrite \<Rightarrow> e_Type e = EventOpen \<and> e_Arg1 e AND re_writeFlagMask \<noteq> 0
   | IsOpenTrunc \<Rightarrow> e_Type e = EventOpen \<and> e_Arg1 e AND re_oTRUNC \<noteq> 0))"

definition field_val :: "view \<Rightarrow> string \<Rightarrow> gval option" where
  "field_val v name =
     (case map_of strFields name of Some f \<Rightarrow> Some (GStr (str_val f v))
      | None \<Rightarrow> (case map_of intFields name of Some f \<Rightarrow> Some (GInt (sint (int_val f v)))
        | None \<Rightarrow> map_option (\<lambda>f. GBool (bool_val f v)) (map_of boolFields name)))"

section \<open>Caching is transparent\<close>

text \<open>A filled cache holds the value it stands for.\<close>

definition ctx_ok :: "eval_ctx \<Rightarrow> bool" where
  "ctx_ok cx \<longleftrightarrow> (cx_linDone cx \<longrightarrow> cx_lin cx = v_lineage (view_of cx)) \<and>
     (cx_baseDone cx \<longrightarrow> cx_base cx = exec_base (cx_e cx))"

text \<open>\<open>agrees cx v r\<close>: the read \<open>r\<close> from \<open>cx\<close> yields \<open>v\<close>, and the context after it is as good.\<close>

definition agrees :: "eval_ctx \<Rightarrow> 'a \<Rightarrow> 'a \<times> eval_ctx \<Rightarrow> bool" where
  "agrees cx v r \<longleftrightarrow> fst r = v \<and> ctx_ok (snd r) \<and> view_of (snd r) = view_of cx"

lemma agrees_pure: "ctx_ok cx \<Longrightarrow> agrees cx v (v, cx)"
  by (simp add: agrees_def)

lemma agreesD: "agrees cx v (v', cx') \<Longrightarrow> v' = v \<and> ctx_ok cx' \<and> view_of cx' = view_of cx"
  by (simp add: agrees_def)

lemma ctx_ok_new: "ctx_ok (newEvalCtx e c s)" "view_of (newEvalCtx e c s) = (e, c, s)"
  by (simp_all add: ctx_ok_def newEvalCtx_def view_of_def)

lemma ctx_lineage_agrees: "ctx_ok cx \<Longrightarrow> agrees cx (v_lineage (view_of cx)) (ctx_lineage cx)"
  by (auto simp: agrees_def ctx_lineage_def ctx_ok_def view_of_def v_lineage_def Let_def)

lemma ctx_execBase_agrees: "ctx_ok cx \<Longrightarrow> agrees cx (exec_base (cx_e cx)) (ctx_execBase cx)"
  by (auto simp: agrees_def ctx_execBase_def ctx_ok_def view_of_def v_lineage_def exec_base_def Let_def)

lemma str_get_agrees: "ctx_ok cx \<Longrightarrow> agrees cx (str_val f (view_of cx)) (str_get f cx)"
proof (cases f)
  case ProcExeBase
  moreover assume "ctx_ok cx"
  ultimately show ?thesis using ctx_execBase_agrees by (simp add: str_val_def view_of_def)
next
  case FLineage
  moreover assume "ctx_ok cx"
  ultimately show ?thesis using ctx_lineage_agrees [of cx]
    by (auto simp: str_val_def agrees_def split: prod.splits)
qed (simp_all add: str_val_def view_of_def agrees_def)

lemma int_get_val: "int_get f cx = int_val f (view_of cx)"
  by (cases f) (simp_all add: int_val_def view_of_def)

lemma bool_get_val: "bool_get f cx = bool_val f (view_of cx)"
  by (cases f) (simp_all add: bool_val_def view_of_def)

lemma fieldAny_agrees:
  assumes "ctx_ok cx"
  shows "agrees cx (field_val (view_of cx) name) (fieldAny cx name)"
proof (cases "map_of strFields name")
  case (Some f)
  have "agrees cx (str_val f (view_of cx)) (str_get f cx)"
    using assms by (rule str_get_agrees)
  with Some show ?thesis
    by (cases "str_get f cx") (simp add: field_val_def fieldAny_def agrees_def)
next
  case None
  with assms show ?thesis
    by (simp add: field_val_def fieldAny_def agrees_def int_get_val bool_get_val split: option.split)
qed

lemma ctx_chain_view: "ctx_chain cx = v_chain (view_of cx)"
  by (simp add: ctx_chain_def v_chain_def view_of_def)

lemma exec_base_lower [simp]: "to_lower (exec_base e) = exec_base e"
  by (simp add: exec_base_def)

end
