(* ===== verification/Pred.thy ===== *)
theory Pred
  imports EvalEnv
begin

text \<open>
  Compiled predicates, the type \<open>pred\<close> of \<open>internal/ruleengine/parser.go\<close>. The Go type is a closure
  over the context; \<open>pred\<close> has one constructor per closure the parser builds, holding the variables
  it captures, and \<open>run_pred\<close> is the body of each: it passes the context on, and it evaluates the right
  operand of \<open>&&\<close> and \<open>||\<close> only when Go does. \<open>eval_pred\<close> is the meaning without caches and
  without an order of evaluation, and \<open>run_pred_agrees\<close> shows that it is what a run computes.
\<close>

datatype pred =
    POr pred pred
  | PAnd pred pred
  | PNot pred
  | PBool bool_field
  | PTrustedWriter
  | PStrEq str_field string
  | PStrNeq str_field string
  | PIntEq int_field "64 word"
  | PIntNeq int_field "64 word"
  | PContains str_field string
  | PStartswith str_field string
  | PMask int_field "64 word"
  | PInSet str_field "string list"
  | PInInts int_field "64 word list"
  | PChainIn "string list"
  | PHasPrefix str_field "string list"
  | PContainsAny str_field "string list"
  | PDockerClient str_field
  | PReverseShell str_field

definition loweredSet :: "string list \<Rightarrow> string list" where
  "loweredSet items = map to_lower items"

text \<open>Reading a string field and testing its value.\<close>

definition str_test :: "str_field \<Rightarrow> (string \<Rightarrow> bool) \<Rightarrow> eval_ctx \<Rightarrow> bool \<times> eval_ctx" where
  "str_test f P cx = (let (v, cx') = str_get f cx in (P v, cx'))"

fun run_pred :: "pred \<Rightarrow> eval_ctx \<Rightarrow> bool \<times> eval_ctx" where
  "run_pred (POr a b) cx = (let (r, cx') = run_pred a cx in if r then (True, cx') else run_pred b cx')"
| "run_pred (PAnd a b) cx = (let (r, cx') = run_pred a cx in if r then run_pred b cx' else (False, cx'))"
| "run_pred (PNot c) cx = (let (r, cx') = run_pred c cx in (\<not> r, cx'))"
| "run_pred (PBool f) cx = (bool_get f cx, cx)"
| "run_pred PTrustedWriter cx = (p_TrustedWriter (cx_c cx) (ctx_chain cx), cx)"
| "run_pred (PStrEq f want) cx = str_test f (\<lambda>v. v = want) cx"
| "run_pred (PStrNeq f want) cx = str_test f (\<lambda>v. v \<noteq> want) cx"
| "run_pred (PIntEq f want) cx = (int_get f cx = want, cx)"
| "run_pred (PIntNeq f want) cx = (int_get f cx \<noteq> want, cx)"
| "run_pred (PContains f want) cx = str_test f (\<lambda>v. contains v want) cx"
| "run_pred (PStartswith f want) cx = str_test f (\<lambda>v. has_prefix v want) cx"
| "run_pred (PMask f m) cx = (int_get f cx AND m \<noteq> 0, cx)"
| "run_pred (PInSet f items) cx = str_test f (\<lambda>v. to_lower v \<in> set items) cx"
| "run_pred (PInInts f ints) cx = (list_ex (\<lambda>n. int_get f cx = n) ints, cx)"
| "run_pred (PChainIn items) cx = (list_ex (\<lambda>a. to_lower a \<in> set items) (ctx_chain cx), cx)"
| "run_pred (PHasPrefix f ps) cx = str_test f (\<lambda>v. list_ex (\<lambda>pre. has_prefix v pre) ps) cx"
| "run_pred (PContainsAny f subs) cx =
     str_test f (\<lambda>v. list_ex (\<lambda>sub. sub \<noteq> [] \<and> contains v sub) subs) cx"
| "run_pred (PDockerClient f) cx =
     (let (v, cx') = str_get f cx in (p_IsDockerClient (cx_c cx') v, cx'))"
| "run_pred (PReverseShell f) cx = str_test f reverseShellMatch cx"

section \<open>Meaning\<close>

fun eval_pred :: "pred \<Rightarrow> view \<Rightarrow> bool" where
  "eval_pred (POr a b) v = (eval_pred a v \<or> eval_pred b v)"
| "eval_pred (PAnd a b) v = (eval_pred a v \<and> eval_pred b v)"
| "eval_pred (PNot c) v = (\<not> eval_pred c v)"
| "eval_pred (PBool f) v = bool_val f v"
| "eval_pred PTrustedWriter v = p_TrustedWriter (fst (snd v)) (v_chain v)"
| "eval_pred (PStrEq f want) v = (str_val f v = want)"
| "eval_pred (PStrNeq f want) v = (str_val f v \<noteq> want)"
| "eval_pred (PIntEq f want) v = (int_val f v = want)"
| "eval_pred (PIntNeq f want) v = (int_val f v \<noteq> want)"
| "eval_pred (PContains f want) v = contains (str_val f v) want"
| "eval_pred (PStartswith f want) v = has_prefix (str_val f v) want"
| "eval_pred (PMask f m) v = (int_val f v AND m \<noteq> 0)"
| "eval_pred (PInSet f items) v = (to_lower (str_val f v) \<in> set items)"
| "eval_pred (PInInts f ints) v = (int_val f v \<in> set ints)"
| "eval_pred (PChainIn items) v = (\<exists>a \<in> set (v_chain v). to_lower a \<in> set items)"
| "eval_pred (PHasPrefix f ps) v = (\<exists>pre \<in> set ps. has_prefix (str_val f v) pre)"
| "eval_pred (PContainsAny f subs) v = (\<exists>sub \<in> set subs. sub \<noteq> [] \<and> contains (str_val f v) sub)"
| "eval_pred (PDockerClient f) v = p_IsDockerClient (fst (snd v)) (str_val f v)"
| "eval_pred (PReverseShell f) v = reverseShellMatch (str_val f v)"

lemma view_of_provider: "fst (snd (view_of cx)) = cx_c cx"
  by (simp add: view_of_def)

lemma str_test_agrees:
  "ctx_ok cx \<Longrightarrow> agrees cx b (str_test f P cx) \<longleftrightarrow> b = P (str_val f (view_of cx))"
  using str_get_agrees [of cx f] by (auto simp: str_test_def agrees_def split: prod.splits)

lemma agrees_trans:
  "agrees cx v (v', cx') \<Longrightarrow> agrees cx' w r \<Longrightarrow> agrees cx w r"
  by (simp add: agrees_def)

lemma agrees_pure_iff: "ctx_ok cx \<Longrightarrow> agrees cx v (w, cx) \<longleftrightarrow> w = v"
  by (auto simp: agrees_def)

lemma run_pred_agrees: "ctx_ok cx \<Longrightarrow> agrees cx (eval_pred p (view_of cx)) (run_pred p cx)"
proof (induction p arbitrary: cx)
  case (POr a b)
  obtain r cx' where r: "run_pred a cx = (r, cx')" by fastforce
  with POr.IH(1) [OF POr.prems] have a: "r = eval_pred a (view_of cx)" "ctx_ok cx'"
    "view_of cx' = view_of cx" by (auto dest: agreesD)
  with POr.IH(2) [OF a(2)] r show ?case by (simp add: agrees_def)
next
  case (PAnd a b)
  obtain r cx' where r: "run_pred a cx = (r, cx')" by fastforce
  with PAnd.IH(1) [OF PAnd.prems] have a: "r = eval_pred a (view_of cx)" "ctx_ok cx'"
    "view_of cx' = view_of cx" by (auto dest: agreesD)
  with PAnd.IH(2) [OF a(2)] r show ?case by (simp add: agrees_def)
next
  case (PNot c)
  from PNot.IH [OF PNot.prems] show ?case by (cases "run_pred c cx") (auto simp: agrees_def)
next
  case (PDockerClient f)
  with str_get_agrees [OF PDockerClient, of f] view_of_provider show ?case
    by (cases "str_get f cx") (auto simp: agrees_def view_of_def)
qed (auto simp: agrees_pure_iff str_test_agrees bool_get_val int_get_val view_of_provider
       ctx_chain_view list_ex_iff)

end
