(* ===== verification/Parser.thy ===== *)
theory Parser
  imports Lexer Pred
begin

text \<open>
  The recursive-descent parser of the condition language, \<open>internal/ruleengine/parser.go\<close>. The Go
  parser holds the tokens and a position; \<open>lex\<close> ends the tokens with one of kind \<open>tEOF\<close> at which
  \<open>adv\<close> stays. Here the state is the list of the tokens from the position on, without that last one:
  \<open>cur\<close> of the empty list is the end token, and \<open>adv\<close> drops one token. Each method returns its
  value with the tokens left, or the error. A map of lists is an association list.
\<close>

section \<open>The token stream\<close>

definition eof :: token where
  "eof = tok tEOF [] 0"

definition cur :: "token list \<Rightarrow> token" where
  "cur ts = (case ts of [] \<Rightarrow> eof | t # _ \<Rightarrow> t)"

definition adv :: "token list \<Rightarrow> token list" where
  "adv ts = tl ts"

definition peek :: "token list \<Rightarrow> token" where
  "peek ts = cur (tl ts)"

definition expect :: "tokKind \<Rightarrow> token list \<Rightarrow> (rule_err, token list) res" where
  "expect k ts = (if tk_kind (cur ts) \<noteq> k then Inl (ExpectedToken k (tk_text (cur ts))) else Inr (adv ts))"

lemma stream_simps [simp]:
  "cur [] = eof" "cur (t # ts) = t" "adv [] = []" "adv (t # ts) = ts" "peek (t # ts) = cur ts"
  "peek [] = eof" "tk_kind eof = tEOF" "tk_text eof = []"
  by (simp_all add: cur_def adv_def peek_def eof_def)

text \<open>\<open>if p.cur().kind == tComma { p.adv() }\<close>\<close>

definition skip_comma :: "token list \<Rightarrow> token list" where
  "skip_comma ts = (if tk_kind (cur ts) = tComma then adv ts else ts)"

lemma skip_comma_length [simp]: "length (skip_comma ts) \<le> length ts"
  by (simp add: skip_comma_def adv_def)

lemma skip_comma_less [simp]: "length (skip_comma ts) < Suc (length ts)"
  using skip_comma_length [of ts] by linarith

section \<open>Operands\<close>

definition scalarString :: "token list \<Rightarrow> (rule_err, string \<times> token list) res" where
  "scalarString ts =
     (if tk_kind (cur ts) = tString \<or> tk_kind (cur ts) = tIdent then Inr (tk_text (cur ts), adv ts)
      else Inl (ExpectedStringOperand (tk_text (cur ts))))"

text \<open>
  \<open>strconv.ParseInt(s, 0, 64)\<close> on the text of an integer token, which has no sign and no
  underscore: a prefix \<open>0x\<close> is base 16, another leading \<open>0\<close> base 8, and a value above the largest
  \<open>int64\<close> is an error.
\<close>

definition digit_val :: "char \<Rightarrow> int" where
  "digit_val c =
     (if 48 \<le> code c \<and> code c \<le> 57 then int (code c) - 48
      else if 97 \<le> code c \<and> code c \<le> 122 then int (code c) - 87
      else if 65 \<le> code c \<and> code c \<le> 90 then int (code c) - 55
      else 99)"

fun digits_value :: "int \<Rightarrow> int \<Rightarrow> string \<Rightarrow> int option" where
  "digits_value base acc [] = Some acc"
| "digits_value base acc (c # cs) =
     (if digit_val c < base then digits_value base (base * acc + digit_val c) cs else None)"

definition int_base :: "string \<Rightarrow> int \<times> string" where
  "int_base s =
     (case s of
        c # cs \<Rightarrow>
          if c = CHR ''0'' then
            (if 3 \<le> length s \<and> lower_char (hd cs) = CHR ''b'' then (2, tl cs)
             else if 3 \<le> length s \<and> lower_char (hd cs) = CHR ''o'' then (8, tl cs)
             else if 3 \<le> length s \<and> lower_char (hd cs) = CHR ''x'' then (16, tl cs)
             else (8, cs))
          else (10, s)
      | [] \<Rightarrow> (10, s))"

definition parse_int :: "string \<Rightarrow> 64 word option" where
  "parse_int s =
     (if s = [] then None
      else (let (base, ds) = int_base s in
        (case digits_value base 0 ds of
           Some n \<Rightarrow> if n < 2 ^ 63 then Some (word_of_int n) else None
         | None \<Rightarrow> None)))"

definition scalarInt :: "token list \<Rightarrow> (rule_err, 64 word \<times> token list) res" where
  "scalarInt ts =
     (if tk_kind (cur ts) \<noteq> tInt then Inl (ExpectedIntOperand (tk_text (cur ts)))
      else (case parse_int (tk_text (cur ts)) of
          Some n \<Rightarrow> Inr (n, adv ts)
        | None \<Rightarrow> Inl (BadInt (tk_text (cur ts)))))"

text \<open>The loops up to the closing bracket; \<open>out\<close> is what has been read.\<close>

function list_literal :: "string list \<Rightarrow> token list \<Rightarrow> (rule_err, string list \<times> token list) res" where
  "list_literal out ts =
     (if tk_kind (cur ts) = tRBrack then Inr (out, adv ts)
      else if tk_kind (cur ts) \<noteq> tString \<and> tk_kind (cur ts) \<noteq> tIdent
        then Inl (ExpectedStringInList (tk_text (cur ts)))
      else list_literal (out @ [tk_text (cur ts)]) (skip_comma (adv ts)))"
  by pat_completeness auto
termination
proof (relation "measure (\<lambda>(out, ts). length ts)", goal_cases)
  case (2 out ts)
  then show ?case by (cases ts) auto
qed simp

function int_literal :: "64 word list \<Rightarrow> token list \<Rightarrow> (rule_err, 64 word list \<times> token list) res" where
  "int_literal out ts =
     (if tk_kind (cur ts) = tRBrack then Inr (out, adv ts)
      else (case scalarInt ts of
          Inl e \<Rightarrow> Inl e
        | Inr (v, ts') \<Rightarrow> int_literal (out @ [v]) (skip_comma ts')))"
  by pat_completeness auto
termination
proof (relation "measure (\<lambda>(out, ts). length ts)", goal_cases)
  case (2 out ts r v ts')
  then have "ts' = adv ts" "ts \<noteq> []"
    by (auto simp: scalarInt_def split: if_splits option.splits)
  then show ?case by (cases ts) auto
qed simp

declare list_literal.simps [simp del] int_literal.simps [simp del]

definition listStrings :: "(string \<times> string list) list \<Rightarrow> token list \<Rightarrow>
    (rule_err, string list \<times> token list) res" where
  "listStrings ls ts =
     (if tk_kind (cur ts) = tList then
        (case map_of ls (tk_text (cur ts)) of
           None \<Rightarrow> Inl (UnknownList (tk_text (cur ts)))
         | Some l \<Rightarrow> Inr (l, adv ts))
      else if tk_kind (cur ts) = tLBrack then list_literal [] (adv ts)
      else Inl (ExpectedListAfterIn (tk_text (cur ts))))"

definition listInts :: "token list \<Rightarrow> (rule_err, 64 word list \<times> token list) res" where
  "listInts ts =
     (if tk_kind (cur ts) \<noteq> tLBrack then Inl (ExpectedIntListAfterIn (tk_text (cur ts)))
      else int_literal [] (adv ts))"

section \<open>Comparisons\<close>

definition parseComparison :: "(string \<times> string list) list \<Rightarrow> string \<Rightarrow> token list \<Rightarrow>
    (rule_err, pred \<times> token list) res" where
  "parseComparison ls field ts =
     (let op = tk_kind (cur ts); ts1 = adv ts;
          sf = map_of strFields field; intf = map_of intFields field
      in if sf = None \<and> intf = None then Inl (UnknownField field)
      else if op = tEq \<or> op = tNeq then
        (case sf of
           Some f \<Rightarrow> rbind (scalarString ts1) (\<lambda>(want, ts2).
             Inr (if op = tEq then PStrEq f want else PStrNeq f want, ts2))
         | None \<Rightarrow> rbind (scalarInt ts1) (\<lambda>(want, ts2).
             Inr (if op = tEq then PIntEq (the intf) want else PIntNeq (the intf) want, ts2)))
      else if op = tContains then
        (case sf of
           None \<Rightarrow> Inl (NeedsStringField ''contains'' field)
         | Some f \<Rightarrow> rbind (scalarString ts1) (\<lambda>(want, ts2). Inr (PContains f want, ts2)))
      else if op = tStartswith then
        (case sf of
           None \<Rightarrow> Inl (NeedsStringField ''startswith'' field)
         | Some f \<Rightarrow> rbind (scalarString ts1) (\<lambda>(want, ts2). Inr (PStartswith f want, ts2)))
      else if op = tAmp then
        (case intf of
           None \<Rightarrow> Inl (NeedsIntField field)
         | Some f \<Rightarrow> rbind (scalarInt ts1) (\<lambda>(m, ts2). Inr (PMask f m, ts2)))
      else if op = tIn then
        (case sf of
           Some f \<Rightarrow> rbind (listStrings ls ts1) (\<lambda>(items, ts2).
             Inr (PInSet f (loweredSet items), ts2))
         | None \<Rightarrow> rbind (listInts ts1) (\<lambda>(ints, ts2). Inr (PInInts (the intf) ints, ts2)))
      else Inl (UnsupportedOperator field))"

section \<open>Calls\<close>

function call_args :: "string \<Rightarrow> token list \<Rightarrow> token list \<Rightarrow> (rule_err, token list \<times> token list) res" where
  "call_args name args ts =
     (if tk_kind (cur ts) = tRParen then Inr (args, ts)
      else if tk_kind (cur ts) = tEOF then Inl (UnterminatedArgs name)
      else call_args name (args @ [cur ts]) (skip_comma (adv ts)))"
  by pat_completeness auto
termination
proof (relation "measure (\<lambda>(name, args, ts). length ts)", goal_cases)
  case (2 name args ts)
  then show ?case by (cases ts) auto
qed simp

declare call_args.simps [simp del]

definition fieldArg :: "string \<Rightarrow> token list \<Rightarrow> nat \<Rightarrow> (rule_err, str_field) res" where
  "fieldArg name args i =
     (if length args \<le> i \<or> tk_kind (args ! i) \<noteq> tIdent then Inl (ExpectedFieldArg name)
      else (case map_of strFields (tk_text (args ! i)) of
          None \<Rightarrow> Inl (NotAStringField name (tk_text (args ! i)))
        | Some f \<Rightarrow> Inr f))"

definition listArg :: "(string \<times> string list) list \<Rightarrow> string \<Rightarrow> token list \<Rightarrow> nat \<Rightarrow>
    (rule_err, string list) res" where
  "listArg ls name args i =
     (if length args \<le> i \<or> tk_kind (args ! i) \<noteq> tList then Inl (ExpectedListArg name)
      else (case map_of ls (tk_text (args ! i)) of
          None \<Rightarrow> Inl (UnknownListIn name (tk_text (args ! i)))
        | Some l \<Rightarrow> Inr l))"

definition build_call :: "(string \<times> string list) list \<Rightarrow> string \<Rightarrow> token list \<Rightarrow> (rule_err, pred) res" where
  "build_call ls name args =
     (if name = ''in_list'' then
        rbind (fieldArg name args 0) (\<lambda>sf. rbind (listArg ls name args 1) (\<lambda>l.
          Inr (PInSet sf (loweredSet l))))
      else if name = ''chain_in_list'' then
        rbind (listArg ls name args 0) (\<lambda>l. Inr (PChainIn (loweredSet l)))
      else if name = ''has_prefix'' then
        rbind (fieldArg name args 0) (\<lambda>sf. rbind (listArg ls name args 1) (\<lambda>l.
          Inr (PHasPrefix sf l)))
      else if name = ''contains_any'' then
        rbind (fieldArg name args 0) (\<lambda>sf. rbind (listArg ls name args 1) (\<lambda>l.
          Inr (PContainsAny sf l)))
      else if name = ''is_docker_client'' then
        rbind (fieldArg name args 0) (\<lambda>sf. Inr (PDockerClient sf))
      else if name = ''reverse_shell'' then
        rbind (fieldArg name args 0) (\<lambda>sf. Inr (PReverseShell sf))
      else if name = ''is_trusted_writer'' then Inr PTrustedWriter
      else Inl (UnknownFunction name))"

definition parseCall :: "(string \<times> string list) list \<Rightarrow> string \<Rightarrow> token list \<Rightarrow>
    (rule_err, pred \<times> token list) res" where
  "parseCall ls name ts =
     rbind (expect tLParen (adv ts)) (\<lambda>ts1.
     rbind (call_args name [] ts1) (\<lambda>(args, ts2).
     rbind (expect tRParen ts2) (\<lambda>ts3.
     rbind (build_call ls name args) (\<lambda>p. Inr (p, ts3)))))"

text \<open>An identifier not followed by a parenthesis: a comparison or a bare atom.\<close>

definition parse_field :: "(string \<times> string list) list \<Rightarrow> string \<Rightarrow> token list \<Rightarrow>
    (rule_err, pred \<times> token list) res" where
  "parse_field ls name ts =
     (if tk_kind (cur ts) \<in> {tEq, tNeq, tAmp, tIn, tContains, tStartswith}
        then parseComparison ls name ts
      else (case map_of boolFields name of
          Some f \<Rightarrow> Inr (PBool f, ts)
        | None \<Rightarrow>
            if name = ''is_trusted_writer'' then Inr (PTrustedWriter, ts)
            else Inl (UnexpectedIdent name)))"

section \<open>Operands consume tokens\<close>

lemma adv_length: "length (adv ts) = length ts - 1"
  by (simp add: adv_def)

lemma adv_less [simp]: "tk_kind (cur ts) \<noteq> tEOF \<Longrightarrow> length (adv ts) < length ts"
  by (cases ts) auto

lemma scalarString_length: "scalarString ts = Inr (w, ts') \<Longrightarrow> length ts' < length ts"
  by (cases ts) (auto simp: scalarString_def split: if_splits)

lemma scalarInt_length: "scalarInt ts = Inr (v, ts') \<Longrightarrow> length ts' < length ts"
  by (cases ts) (auto simp: scalarInt_def split: if_splits option.splits)

lemma list_literal_length: "list_literal out ts = Inr (r, ts') \<Longrightarrow> length ts' < length ts"
proof (induction out ts arbitrary: r ts' rule: list_literal.induct)
  case (1 out ts)
  show ?case
  proof (cases "tk_kind (cur ts) = tRBrack")
    case True
    with "1.prems" show ?thesis by (cases ts) (auto simp: list_literal.simps)
  next
    case False
    with "1.prems" have "tk_kind (cur ts) = tString \<or> tk_kind (cur ts) = tIdent"
      and "list_literal (out @ [tk_text (cur ts)]) (skip_comma (adv ts)) = Inr (r, ts')"
      by (subst (asm) list_literal.simps; simp split: if_splits)+
    with "1.IH" False have "length ts' < length (skip_comma (adv ts))" by auto
    with skip_comma_length [of "adv ts"] adv_length [of ts] show ?thesis by linarith
  qed
qed

lemma int_literal_length: "int_literal out ts = Inr (r, ts') \<Longrightarrow> length ts' < length ts"
proof (induction out ts arbitrary: r ts' rule: int_literal.induct)
  case (1 out ts)
  show ?case
  proof (cases "tk_kind (cur ts) = tRBrack")
    case True
    with "1.prems" show ?thesis by (cases ts) (auto simp: int_literal.simps)
  next
    case False
    with "1.prems" obtain v ts1 where s: "scalarInt ts = Inr (v, ts1)"
      and r: "int_literal (out @ [v]) (skip_comma ts1) = Inr (r, ts')"
      by (subst (asm) int_literal.simps) (auto split: sum.splits)
    from "1.IH" [OF False s refl r] skip_comma_length [of ts1] scalarInt_length [OF s]
    show ?thesis by linarith
  qed
qed

lemma listStrings_length: "listStrings ls ts = Inr (l, ts') \<Longrightarrow> length ts' < length ts"
  by (cases ts) (auto simp: listStrings_def split: if_splits option.splits dest: list_literal_length)

lemma listInts_length: "listInts ts = Inr (l, ts') \<Longrightarrow> length ts' < length ts"
  by (cases ts) (auto simp: listInts_def split: if_splits dest: int_literal_length)

lemma call_args_length: "call_args name args ts = Inr (r, ts') \<Longrightarrow> length ts' \<le> length ts"
proof (induction name args ts arbitrary: r ts' rule: call_args.induct)
  case (1 name args ts)
  show ?case
  proof (cases "tk_kind (cur ts) = tRParen")
    case True
    with "1.prems" show ?thesis by (simp add: call_args.simps)
  next
    case False
    with "1.prems" have "tk_kind (cur ts) \<noteq> tEOF"
      and "call_args name (args @ [cur ts]) (skip_comma (adv ts)) = Inr (r, ts')"
      by (subst (asm) call_args.simps; simp split: if_splits)+
    with "1.IH" False have "length ts' \<le> length (skip_comma (adv ts))" by auto
    with skip_comma_length [of "adv ts"] adv_length [of ts] show ?thesis by linarith
  qed
qed

lemmas operand_lengths = scalarString_length scalarInt_length listStrings_length listInts_length

lemma expect_length: "expect k ts = Inr ts' \<Longrightarrow> length ts' \<le> length ts"
  by (auto simp: expect_def adv_length split: if_splits)

lemma parseComparison_length: "parseComparison ls f ts = Inr (p, ts') \<Longrightarrow> length ts' < length ts"
proof -
  have *: "length ts' < length (adv ts) \<Longrightarrow> length ts' < length ts" by (simp add: adv_length)
  show "parseComparison ls f ts = Inr (p, ts') \<Longrightarrow> length ts' < length ts"
    by (rule *)
       (auto simp: parseComparison_def Let_def rbind_Inr_iff split: if_splits option.splits
         dest: operand_lengths)
qed

lemma parse_field_length: "parse_field ls f ts = Inr (p, ts') \<Longrightarrow> length ts' \<le> length ts"
  by (auto simp: parse_field_def split: if_splits option.splits dest: parseComparison_length)

lemma parseCall_length: "parseCall ls f ts = Inr (p, ts') \<Longrightarrow> ts \<noteq> [] \<Longrightarrow> length ts' < length ts"
proof -
  assume "parseCall ls f ts = Inr (p, ts')" and "ts \<noteq> []"
  then obtain ts1 args ts2 where "expect tLParen (adv ts) = Inr ts1"
    "call_args f [] ts1 = Inr (args, ts2)" "expect tRParen ts2 = Inr ts'"
    by (auto simp: parseCall_def rbind_Inr_iff)
  then have "length ts' \<le> length (adv ts)"
    by (meson call_args_length expect_length le_trans)
  with \<open>ts \<noteq> []\<close> show ?thesis by (cases ts) auto
qed

section \<open>The grammar\<close>

text \<open>
  \<open>parseOr\<close> and \<open>parseAnd\<close> with their loops, \<open>parseUnary\<close> and \<open>parsePrimary\<close>. They terminate
  because every call that returns has consumed a token, which is shown along the way.
\<close>

function
  parseOr :: "(string \<times> string list) list \<Rightarrow> token list \<Rightarrow> (rule_err, pred \<times> token list) res" and
  or_loop :: "(string \<times> string list) list \<Rightarrow> pred \<Rightarrow> token list \<Rightarrow> (rule_err, pred \<times> token list) res" and
  parseAnd :: "(string \<times> string list) list \<Rightarrow> token list \<Rightarrow> (rule_err, pred \<times> token list) res" and
  and_loop :: "(string \<times> string list) list \<Rightarrow> pred \<Rightarrow> token list \<Rightarrow> (rule_err, pred \<times> token list) res" and
  parseUnary :: "(string \<times> string list) list \<Rightarrow> token list \<Rightarrow> (rule_err, pred \<times> token list) res" and
  parsePrimary :: "(string \<times> string list) list \<Rightarrow> token list \<Rightarrow> (rule_err, pred \<times> token list) res"
where
  "parseOr ls ts = rbind (parseAnd ls ts) (\<lambda>(l, ts1). or_loop ls l ts1)"
| "or_loop ls l ts =
     (if tk_kind (cur ts) = tOr then
        rbind (parseAnd ls (adv ts)) (\<lambda>(r, ts1). or_loop ls (POr l r) ts1)
      else Inr (l, ts))"
| "parseAnd ls ts = rbind (parseUnary ls ts) (\<lambda>(l, ts1). and_loop ls l ts1)"
| "and_loop ls l ts =
     (if tk_kind (cur ts) = tAnd then
        rbind (parseUnary ls (adv ts)) (\<lambda>(r, ts1). and_loop ls (PAnd l r) ts1)
      else Inr (l, ts))"
| "parseUnary ls ts =
     (if tk_kind (cur ts) = tNot then
        rbind (parseUnary ls (adv ts)) (\<lambda>(c, ts1). Inr (PNot c, ts1))
      else parsePrimary ls ts)"
| "parsePrimary ls ts =
     (let t = cur ts in
      if tk_kind t = tLParen then
        rbind (parseOr ls (adv ts)) (\<lambda>(e, ts1).
        rbind (expect tRParen ts1) (\<lambda>ts2. Inr (e, ts2)))
      else if tk_kind t = tIdent then
        (if tk_kind (peek ts) = tLParen then parseCall ls (tk_text t) ts
         else parse_field ls (tk_text t) (adv ts))
      else Inl (UnexpectedToken (tk_text t)))"
  by pat_completeness auto

termination
proof -
  have parse_length:
    "parseOr_or_loop_parseAnd_and_loop_parseUnary_parsePrimary_dom (Inl (Inl (ls, ts))) \<Longrightarrow> parseOr ls ts = Inr (p, ts') \<Longrightarrow> length ts' < length ts"
    "parseOr_or_loop_parseAnd_and_loop_parseUnary_parsePrimary_dom (Inl (Inr (Inl (ls, l, ts)))) \<Longrightarrow> or_loop ls l ts = Inr (p, ts') \<Longrightarrow> length ts' \<le> length ts"
    "parseOr_or_loop_parseAnd_and_loop_parseUnary_parsePrimary_dom (Inl (Inr (Inr (ls, ts)))) \<Longrightarrow> parseAnd ls ts = Inr (p, ts') \<Longrightarrow> length ts' < length ts"
    "parseOr_or_loop_parseAnd_and_loop_parseUnary_parsePrimary_dom (Inr (Inl (ls, l, ts))) \<Longrightarrow> and_loop ls l ts = Inr (p, ts') \<Longrightarrow> length ts' \<le> length ts"
    "parseOr_or_loop_parseAnd_and_loop_parseUnary_parsePrimary_dom (Inr (Inr (Inl (ls, ts)))) \<Longrightarrow> parseUnary ls ts = Inr (p, ts') \<Longrightarrow> length ts' < length ts"
    "parseOr_or_loop_parseAnd_and_loop_parseUnary_parsePrimary_dom (Inr (Inr (Inr (ls, ts)))) \<Longrightarrow> parsePrimary ls ts = Inr (p, ts') \<Longrightarrow> length ts' < length ts" for ls ts l p ts'
  proof (induction ls ts and ls l ts and ls ts and ls l ts and ls ts and ls ts
      arbitrary: p ts' and p ts' and p ts' and p ts' and p ts' and p ts'
      rule: parseOr_or_loop_parseAnd_and_loop_parseUnary_parsePrimary.pinduct)
    case (1 ls ts)
    from "1.prems" "1.hyps" obtain l ts1 where "parseAnd ls ts = Inr (l, ts1)" "or_loop ls l ts1 = Inr (p, ts')"
      by (auto simp: parseOr.psimps rbind_Inr_iff)
    with "1.IH" show ?case by fastforce
  next
    case (2 ls l ts)
    show ?case
    proof (cases "tk_kind (cur ts) = tOr")
      case True
      with "2.prems" "2.hyps" obtain r ts1 where r: "parseAnd ls (adv ts) = Inr (r, ts1)"
        "or_loop ls (POr l r) ts1 = Inr (p, ts')"
        by (auto simp: or_loop.psimps rbind_Inr_iff)
      from "2.IH"(1) [OF True r(1)] "2.IH"(2) [OF True r(1) refl r(2)] show ?thesis
        by (simp add: adv_length)
    next
      case False
      with "2.prems" "2.hyps" show ?thesis by (simp add: or_loop.psimps)
    qed
  next
    case (3 ls ts)
    from "3.prems" "3.hyps" obtain l ts1 where "parseUnary ls ts = Inr (l, ts1)" "and_loop ls l ts1 = Inr (p, ts')"
      by (auto simp: parseAnd.psimps rbind_Inr_iff)
    with "3.IH" show ?case by fastforce
  next
    case (4 ls l ts)
    show ?case
    proof (cases "tk_kind (cur ts) = tAnd")
      case True
      with "4.prems" "4.hyps" obtain r ts1 where r: "parseUnary ls (adv ts) = Inr (r, ts1)"
        "and_loop ls (PAnd l r) ts1 = Inr (p, ts')"
        by (auto simp: and_loop.psimps rbind_Inr_iff)
      from "4.IH"(1) [OF True r(1)] "4.IH"(2) [OF True r(1) refl r(2)] show ?thesis
        by (simp add: adv_length)
    next
      case False
      with "4.prems" "4.hyps" show ?thesis by (simp add: and_loop.psimps)
    qed
  next
    case (5 ls ts)
    show ?case
    proof (cases "tk_kind (cur ts) = tNot")
      case True
      with "5.prems" "5.hyps" obtain c where "parseUnary ls (adv ts) = Inr (c, ts')"
        by (auto simp: parseUnary.psimps rbind_Inr_iff)
      from "5.IH"(1) [OF True this] show ?thesis by (simp add: adv_length)
    next
      case False
      with "5.prems" "5.hyps" "5.IH"(2) show ?thesis by (simp add: parseUnary.psimps)
    qed
  next
    case (6 ls ts)
    show ?case
    proof (cases "tk_kind (cur ts) = tLParen")
      case True
      with "6.prems" "6.hyps" obtain ts1 where ts1: "parseOr ls (adv ts) = Inr (p, ts1)" "expect tRParen ts1 = Inr ts'"
        by (auto simp: parsePrimary.psimps rbind_Inr_iff)
      from "6.IH" [OF refl True ts1(1)] expect_length [OF ts1(2)] show ?thesis by (simp add: adv_length)
    next
      case False
      then show ?thesis
        using "6.prems" "6.hyps" parse_field_length [of ls "tk_text (cur ts)" "adv ts" p ts']
          parseCall_length [of ls "tk_text (cur ts)" ts p ts']
        by (cases ts) (auto simp: parsePrimary.psimps Let_def split: if_splits)
    qed
  qed
  show ?thesis
  proof (relation "measure (\<lambda>x. case x of
        Inl (Inl (ls, ts)) \<Rightarrow> 4 * length ts + 3
      | Inl (Inr (Inl (ls, l, ts))) \<Rightarrow> 4 * length ts
      | Inl (Inr (Inr (ls, ts))) \<Rightarrow> 4 * length ts + 2
      | Inr (Inl (ls, l, ts)) \<Rightarrow> 4 * length ts
      | Inr (Inr (Inl (ls, ts))) \<Rightarrow> 4 * length ts + 1
      | Inr (Inr (Inr (ls, ts))) \<Rightarrow> 4 * length ts)", goal_cases)
    case (3 ls ts a x y)
    then show ?case by (auto dest: parse_length)
  next
    case (4 ls l ts)
    then show ?case by (cases ts) auto
  next
    case (5 ls l ts a x y)
    then have "length y < length (adv ts)" by (auto dest: parse_length)
    then show ?case by (simp add: adv_length)
  next
    case (7 ls ts a x y)
    then show ?case by (auto dest: parse_length)
  next
    case (8 ls l ts)
    then show ?case by (cases ts) auto
  next
    case (9 ls l ts a x y)
    then have "length y < length (adv ts)" by (auto dest: parse_length)
    then show ?case by (simp add: adv_length)
  next
    case (10 ls ts)
    then show ?case by (cases ts) auto
  next
    case (12 ls ts x)
    then show ?case by (cases ts) auto
  qed simp_all
qed

declare parseOr.simps [simp del] or_loop.simps [simp del] parseAnd.simps [simp del]
  and_loop.simps [simp del] parseUnary.simps [simp del] parsePrimary.simps [simp del]

definition compileCondition :: "string \<Rightarrow> (string \<times> string list) list \<Rightarrow> (rule_err, pred) res" where
  "compileCondition src ls =
     rbind (lex src) (\<lambda>toks.
     rbind (parseOr ls (butlast toks)) (\<lambda>(pr, rest).
       if tk_kind (cur rest) \<noteq> tEOF then Inl (TrailingToken (tk_text (cur rest))) else Inr pr))"

end
