(* ===== verification/Grammar.thy ===== *)
theory Grammar
  imports Parser
begin

text \<open>
  The condition language as a grammar with the meaning of each construct: \<open>or_d ls ts p\<close> holds when
  the tokens \<open>ts\<close> form a disjunction that compiles to \<open>p\<close>. \<open>and\<close> binds stronger than \<open>or\<close>, \<open>not\<close>
  stronger than \<open>and\<close>, both connectives associate to the left, and commas between the items of a list
  are optional. The parser of \<open>Parser\<close> accepts exactly this language (\<open>parser_accepts_grammar\<close>).
\<close>

section \<open>Atoms\<close>

definition str_cmp :: "tokKind \<Rightarrow> str_field \<Rightarrow> string \<Rightarrow> pred option" where
  "str_cmp op f w =
     (if op = tEq then Some (PStrEq f w)
      else if op = tNeq then Some (PStrNeq f w)
      else if op = tContains then Some (PContains f w)
      else if op = tStartswith then Some (PStartswith f w)
      else None)"

definition int_cmp :: "tokKind \<Rightarrow> int_field \<Rightarrow> 64 word \<Rightarrow> pred option" where
  "int_cmp op f n =
     (if op = tEq then Some (PIntEq f n)
      else if op = tNeq then Some (PIntNeq f n)
      else if op = tAmp then Some (PMask f n)
      else None)"

inductive strs_d :: "token list \<Rightarrow> string list \<Rightarrow> bool" where
  strs_Nil: "strs_d [] []"
| strs_Cons: "tk_kind t \<in> {tString, tIdent} \<Longrightarrow> strs_d ts ws \<Longrightarrow> strs_d (t # ts) (tk_text t # ws)"
| strs_comma: "tk_kind t \<in> {tString, tIdent} \<Longrightarrow> tk_kind c = tComma \<Longrightarrow> strs_d ts ws \<Longrightarrow>
    strs_d (t # c # ts) (tk_text t # ws)"

inductive ints_d :: "token list \<Rightarrow> 64 word list \<Rightarrow> bool" where
  ints_Nil: "ints_d [] []"
| ints_Cons: "tk_kind t = tInt \<Longrightarrow> parse_int (tk_text t) = Some n \<Longrightarrow> ints_d ts ns \<Longrightarrow>
    ints_d (t # ts) (n # ns)"
| ints_comma: "tk_kind t = tInt \<Longrightarrow> parse_int (tk_text t) = Some n \<Longrightarrow> tk_kind c = tComma \<Longrightarrow>
    ints_d ts ns \<Longrightarrow> ints_d (t # c # ts) (n # ns)"

text \<open>Arguments are any tokens up to the closing parenthesis; one comma after each is skipped.\<close>

inductive args_d :: "token list \<Rightarrow> token list \<Rightarrow> bool" where
  args_Nil: "args_d [] []"
| args_Cons: "tk_kind t \<notin> {tRParen, tEOF} \<Longrightarrow> tk_kind (cur ts) \<noteq> tComma \<Longrightarrow> args_d ts as \<Longrightarrow>
    args_d (t # ts) (t # as)"
| args_comma: "tk_kind t \<notin> {tRParen, tEOF} \<Longrightarrow> tk_kind c = tComma \<Longrightarrow> args_d ts as \<Longrightarrow>
    args_d (t # c # ts) (t # as)"

inductive atom_d :: "(string \<times> string list) list \<Rightarrow> token list \<Rightarrow> pred \<Rightarrow> bool" for ls where
  atom_str: "tk_kind i = tIdent \<Longrightarrow> map_of strFields (tk_text i) = Some f \<Longrightarrow>
    tk_kind w \<in> {tString, tIdent} \<Longrightarrow> str_cmp (tk_kind opr) f (tk_text w) = Some p \<Longrightarrow>
    atom_d ls [i, opr, w] p"
| atom_int: "tk_kind i = tIdent \<Longrightarrow> map_of intFields (tk_text i) = Some g \<Longrightarrow>
    tk_kind w = tInt \<Longrightarrow> parse_int (tk_text w) = Some n \<Longrightarrow> int_cmp (tk_kind opr) g n = Some p \<Longrightarrow>
    atom_d ls [i, opr, w] p"
| atom_in_list: "tk_kind i = tIdent \<Longrightarrow> map_of strFields (tk_text i) = Some f \<Longrightarrow>
    tk_kind opr = tIn \<Longrightarrow> tk_kind l = tList \<Longrightarrow> map_of ls (tk_text l) = Some items \<Longrightarrow>
    atom_d ls [i, opr, l] (PInSet f (loweredSet items))"
| atom_in_strs: "tk_kind i = tIdent \<Longrightarrow> map_of strFields (tk_text i) = Some f \<Longrightarrow>
    tk_kind opr = tIn \<Longrightarrow> tk_kind lb = tLBrack \<Longrightarrow> strs_d body items \<Longrightarrow> tk_kind rb = tRBrack \<Longrightarrow>
    atom_d ls (i # opr # lb # body @ [rb]) (PInSet f (loweredSet items))"
| atom_in_ints: "tk_kind i = tIdent \<Longrightarrow> map_of intFields (tk_text i) = Some g \<Longrightarrow>
    tk_kind opr = tIn \<Longrightarrow> tk_kind lb = tLBrack \<Longrightarrow> ints_d body ns \<Longrightarrow> tk_kind rb = tRBrack \<Longrightarrow>
    atom_d ls (i # opr # lb # body @ [rb]) (PInInts g ns)"
| atom_call: "tk_kind i = tIdent \<Longrightarrow> tk_kind lp = tLParen \<Longrightarrow> args_d body as \<Longrightarrow> tk_kind rp = tRParen \<Longrightarrow>
    build_call ls (tk_text i) as = Inr p \<Longrightarrow> atom_d ls (i # lp # body @ [rp]) p"
| atom_bool: "tk_kind i = tIdent \<Longrightarrow> map_of boolFields (tk_text i) = Some b \<Longrightarrow> atom_d ls [i] (PBool b)"
| atom_trusted: "tk_kind i = tIdent \<Longrightarrow> tk_text i = ''is_trusted_writer'' \<Longrightarrow> atom_d ls [i] PTrustedWriter"

section \<open>Conditions\<close>

inductive or_d and and_d and not_d for ls :: "(string \<times> string list) list" where
  or_one: "and_d ls ts p \<Longrightarrow> or_d ls ts p"
| or_more: "or_d ls ts a \<Longrightarrow> tk_kind t = tOr \<Longrightarrow> and_d ls us b \<Longrightarrow> or_d ls (ts @ t # us) (POr a b)"
| and_one: "not_d ls ts p \<Longrightarrow> and_d ls ts p"
| and_more: "and_d ls ts a \<Longrightarrow> tk_kind t = tAnd \<Longrightarrow> not_d ls us b \<Longrightarrow> and_d ls (ts @ t # us) (PAnd a b)"
| not_neg: "tk_kind t = tNot \<Longrightarrow> not_d ls ts c \<Longrightarrow> not_d ls (t # ts) (PNot c)"
| not_paren: "tk_kind l = tLParen \<Longrightarrow> or_d ls ts p \<Longrightarrow> tk_kind r = tRParen \<Longrightarrow> not_d ls (l # ts @ [r]) p"
| not_atom: "atom_d ls ts p \<Longrightarrow> not_d ls ts p"

section \<open>The parser reads what the grammar derives\<close>

text \<open>The tokens that may follow a complete operand of a connective.\<close>

definition follow :: "token list \<Rightarrow> bool" where
  "follow rest \<longleftrightarrow> tk_kind (cur rest) \<in> {tEOF, tRParen, tOr, tAnd}"

lemma cur_append: "ts \<noteq> [] \<Longrightarrow> cur (ts @ us) = cur ts"
  by (cases ts) auto

lemma field_tables_disjoint: "map_of strFields n = Some f \<Longrightarrow> map_of intFields n = None"
  by (auto simp: strFields_def intFields_def split: if_splits)

lemma trusted_writer_no_field: "map_of boolFields ''is_trusted_writer'' = None"
  by (simp add: boolFields_def)

lemma list_literal_reads:
  "strs_d body ws \<Longrightarrow> tk_kind rb = tRBrack \<Longrightarrow> list_literal out (body @ rb # rest) = Inr (out @ ws, rest)"
proof (induction arbitrary: out rule: strs_d.induct)
  case strs_Nil
  then show ?case by (simp add: list_literal.simps)
next
  case (strs_Cons t ts ws)
  moreover from strs_Cons.hyps(2) strs_Cons.prems have "tk_kind (cur (ts @ rb # rest)) \<noteq> tComma"
    by (cases rule: strs_d.cases) auto
  ultimately show ?case
    by (subst list_literal.simps) (auto simp: skip_comma_def)
next
  case (strs_comma t c ts ws)
  then show ?case
    by (subst list_literal.simps) (auto simp: skip_comma_def)
qed

lemma int_literal_reads:
  "ints_d body ns \<Longrightarrow> tk_kind rb = tRBrack \<Longrightarrow> int_literal out (body @ rb # rest) = Inr (out @ ns, rest)"
proof (induction arbitrary: out rule: ints_d.induct)
  case ints_Nil
  then show ?case by (simp add: int_literal.simps)
next
  case (ints_Cons t n ts ns)
  moreover from ints_Cons.hyps(3) ints_Cons.prems have "tk_kind (cur (ts @ rb # rest)) \<noteq> tComma"
    by (cases rule: ints_d.cases) auto
  ultimately show ?case
    by (subst int_literal.simps) (auto simp: skip_comma_def scalarInt_def)
next
  case (ints_comma t n c ts ns)
  then show ?case
    by (subst int_literal.simps) (auto simp: skip_comma_def scalarInt_def)
qed

lemma call_args_reads:
  "args_d body as \<Longrightarrow> tk_kind rp = tRParen \<Longrightarrow>
   call_args name out (body @ rp # rest) = Inr (out @ as, rp # rest)"
proof (induction arbitrary: out rule: args_d.induct)
  case args_Nil
  then show ?case by (simp add: call_args.simps)
next
  case (args_Cons t ts as)
  then have "tk_kind (cur (ts @ rp # rest)) \<noteq> tComma" by (cases ts) auto
  with args_Cons show ?case
    by (subst call_args.simps) (auto simp: skip_comma_def)
next
  case (args_comma t c ts as)
  then show ?case
    by (subst call_args.simps) (auto simp: skip_comma_def)
qed

lemma atom_reads:
  assumes "atom_d ls ts p" and "follow rest"
  shows "parsePrimary ls (ts @ rest) = Inr (p, rest)"
  using assms(1)
proof cases
  case (atom_str i f w opr)
  then show ?thesis
    by (auto simp: parsePrimary.simps Let_def parse_field_def parseComparison_def str_cmp_def
        scalarString_def split: if_splits)
next
  case (atom_int i g w n opr)
  then have "map_of strFields (tk_text i) = None" using field_tables_disjoint by fastforce
  with atom_int show ?thesis
    by (auto simp: parsePrimary.simps Let_def parse_field_def parseComparison_def int_cmp_def
        scalarInt_def split: if_splits)
next
  case (atom_in_list i f opr l items)
  then show ?thesis
    by (simp add: parsePrimary.simps Let_def parse_field_def parseComparison_def listStrings_def)
next
  case (atom_in_strs i f opr lb body items rb)
  then show ?thesis
    by (simp add: parsePrimary.simps Let_def parse_field_def parseComparison_def listStrings_def
        list_literal_reads)
next
  case (atom_in_ints i g opr lb body ns rb)
  then have "map_of strFields (tk_text i) = None" using field_tables_disjoint by fastforce
  with atom_in_ints show ?thesis
    by (simp add: parsePrimary.simps Let_def parse_field_def parseComparison_def listInts_def
        int_literal_reads)
next
  case (atom_call i lp body as rp)
  then show ?thesis
    by (simp add: parsePrimary.simps Let_def parseCall_def expect_def call_args_reads)
next
  case (atom_bool i b)
  with assms(2) show ?thesis
    by (auto simp: parsePrimary.simps Let_def parse_field_def follow_def)
next
  case (atom_trusted i)
  with assms(2) show ?thesis
    by (auto simp: parsePrimary.simps Let_def parse_field_def follow_def trusted_writer_no_field)
qed

lemma atom_hd: "atom_d ls ts p \<Longrightarrow> tk_kind (cur (ts @ rest)) = tIdent"
  by (cases rule: atom_d.cases) auto

lemma grammar_reads:
  "or_d ls ts p \<Longrightarrow> follow rest \<Longrightarrow> tk_kind (cur rest) \<noteq> tAnd \<Longrightarrow> parseOr ls (ts @ rest) = or_loop ls p rest"
  "and_d ls ts p \<Longrightarrow> follow rest \<Longrightarrow> parseAnd ls (ts @ rest) = and_loop ls p rest"
  "not_d ls ts p \<Longrightarrow> follow rest \<Longrightarrow> parseUnary ls (ts @ rest) = Inr (p, rest)"
proof (induction arbitrary: rest and rest and rest rule: or_d_and_d_not_d.inducts)
  case (or_one ts p)
  then show ?case by (simp add: parseOr.simps and_loop.simps)
next
  case (or_more ts a t us b)
  have "parseAnd ls (us @ rest) = Inr (b, rest)"
    using or_more by (simp add: and_loop.simps)
  with or_more show ?case by (simp add: follow_def or_loop.simps [of ls a "t # us @ rest"])
next
  case (and_one ts p)
  then show ?case by (simp add: parseAnd.simps)
next
  case (and_more ts a t us b)
  then show ?case by (simp add: follow_def and_loop.simps [of ls a "t # us @ rest"])
next
  case (not_neg t ts c)
  then show ?case by (simp add: parseUnary.simps [of ls "t # ts @ rest"])
next
  case (not_paren l ts p r)
  then have "parseOr ls (ts @ r # rest) = Inr (p, r # rest)"
    by (simp add: follow_def or_loop.simps)
  with not_paren show ?case
    by (simp add: parseUnary.simps [of ls "l # ts @ r # rest"]
        parsePrimary.simps [of ls "l # ts @ r # rest"] expect_def)
next
  case (not_atom ts p)
  then show ?case
    using atom_hd [of ls ts p rest] by (simp add: parseUnary.simps [of ls "ts @ rest"] atom_reads)
qed

section \<open>What the parser reads is derived\<close>

lemma list_literal_derived:
  "list_literal out ts = Inr (r, rest) \<Longrightarrow>
   \<exists>body rb ws. ts = body @ rb # rest \<and> strs_d body ws \<and> tk_kind rb = tRBrack \<and> r = out @ ws"
proof (induction out ts arbitrary: rule: list_literal.induct)
  case (1 out ts)
  show ?case
  proof (cases "tk_kind (cur ts) = tRBrack")
    case True
    with "1.prems" show ?thesis
      by (cases ts) (auto simp: list_literal.simps intro!: exI [of _ "[]"] strs_d.intros)
  next
    case False
    with "1.prems" have k: "tk_kind (cur ts) \<in> {tString, tIdent}"
      and r: "list_literal (out @ [tk_text (cur ts)]) (skip_comma (adv ts)) = Inr (r, rest)"
      by (subst (asm) list_literal.simps; simp split: if_splits)+
    from "1.IH" [OF False _ r] k obtain body rb ws where IH:
      "skip_comma (adv ts) = body @ rb # rest" "strs_d body ws" "tk_kind rb = tRBrack"
      "r = out @ tk_text (cur ts) # ws" by auto
    from k obtain t us where ts: "ts = t # us" by (cases ts) auto
    show ?thesis
    proof (cases "tk_kind (cur us) = tComma")
      case True
      then obtain c vs where "us = c # vs" "tk_kind c = tComma" by (cases us) auto
      with IH ts k show ?thesis
        by (intro exI [of _ "t # c # body"]) (auto simp: skip_comma_def intro: strs_d.intros)
    next
      case False
      with IH ts k show ?thesis
        by (intro exI [of _ "t # body"]) (auto simp: skip_comma_def intro: strs_d.intros)
    qed
  qed
qed

lemma int_literal_derived:
  "int_literal out ts = Inr (r, rest) \<Longrightarrow>
   \<exists>body rb ns. ts = body @ rb # rest \<and> ints_d body ns \<and> tk_kind rb = tRBrack \<and> r = out @ ns"
proof (induction out ts arbitrary: rule: int_literal.induct)
  case (1 out ts)
  show ?case
  proof (cases "tk_kind (cur ts) = tRBrack")
    case True
    with "1.prems" show ?thesis
      by (cases ts) (auto simp: int_literal.simps intro!: exI [of _ "[]"] ints_d.intros)
  next
    case False
    with "1.prems" obtain v ts1 where s: "scalarInt ts = Inr (v, ts1)"
      and r: "int_literal (out @ [v]) (skip_comma ts1) = Inr (r, rest)"
      by (subst (asm) int_literal.simps) (auto split: sum.splits)
    from "1.IH" [OF False s refl r] obtain body rb ns where IH:
      "skip_comma ts1 = body @ rb # rest" "ints_d body ns" "tk_kind rb = tRBrack" "r = out @ v # ns"
      by auto
    from s obtain t where ts: "ts = t # ts1" "tk_kind t = tInt" "parse_int (tk_text t) = Some v"
      by (cases ts) (auto simp: scalarInt_def split: if_splits option.splits)
    show ?thesis
    proof (cases "tk_kind (cur ts1) = tComma")
      case True
      then obtain c vs where "ts1 = c # vs" "tk_kind c = tComma" by (cases ts1) auto
      with IH ts show ?thesis
        by (intro exI [of _ "t # c # body"]) (auto simp: skip_comma_def intro: ints_d.intros)
    next
      case False
      with IH ts show ?thesis
        by (intro exI [of _ "t # body"]) (auto simp: skip_comma_def intro: ints_d.intros)
    qed
  qed
qed

lemma call_args_derived:
  "call_args name out ts = Inr (r, rest) \<Longrightarrow>
   tk_kind (cur rest) = tRParen \<and> (\<exists>body as. ts = body @ rest \<and> args_d body as \<and> r = out @ as)"
proof (induction name out ts arbitrary: rule: call_args.induct)
  case (1 name out ts)
  show ?case
  proof (cases "tk_kind (cur ts) = tRParen")
    case True
    with "1.prems" show ?thesis by (auto simp: call_args.simps intro: args_d.intros)
  next
    case False
    with "1.prems" have k: "tk_kind (cur ts) \<noteq> tEOF"
      and r: "call_args name (out @ [cur ts]) (skip_comma (adv ts)) = Inr (r, rest)"
      by (subst (asm) call_args.simps; simp split: if_splits)+
    from "1.IH" [OF False k r] obtain body as where IH: "tk_kind (cur rest) = tRParen"
      "skip_comma (adv ts) = body @ rest" "args_d body as" "r = out @ cur ts # as" by auto
    from k obtain t us where ts: "ts = t # us" by (cases ts) auto
    show ?thesis
    proof (cases "tk_kind (cur us) = tComma")
      case True
      then obtain c vs where "us = c # vs" "tk_kind c = tComma" by (cases us) auto
      with IH ts k False show ?thesis
        by (auto simp: skip_comma_def intro!: exI [of _ "t # c # body"] args_d.intros)
    next
      case comma: False
      with IH(2) ts have us: "us = body @ rest" by (simp add: skip_comma_def)
      with comma have "tk_kind (cur body) \<noteq> tComma" by (cases body) auto
      with IH ts us k False show ?thesis
        by (auto intro!: exI [of _ "t # body"] args_d.intros)
    qed
  qed
qed

lemma scalarString_derived:
  "scalarString ts = Inr (w, rest) \<Longrightarrow> \<exists>t. ts = t # rest \<and> tk_kind t \<in> {tString, tIdent} \<and> w = tk_text t"
  by (cases ts) (auto simp: scalarString_def split: if_splits)

lemma scalarInt_derived:
  "scalarInt ts = Inr (n, rest) \<Longrightarrow>
   \<exists>t. ts = t # rest \<and> tk_kind t = tInt \<and> parse_int (tk_text t) = Some n"
  by (cases ts) (auto simp: scalarInt_def split: if_splits option.splits)

lemma comparison_str_derived:
  assumes "map_of strFields n = Some f" and "parseComparison ls n ts = Inr (p, rest)"
    and "tk_kind i = tIdent" and "tk_text i = n" and "ts \<noteq> []"
  shows "\<exists>body. i # ts = body @ rest \<and> atom_d ls body p"
proof -
  obtain opr us where ts: "ts = opr # us" using assms(5) by (cases ts) auto
  show ?thesis
  proof (cases "tk_kind opr = tIn")
    case True
    with assms ts obtain items where items: "listStrings ls us = Inr (items, rest)"
      and p: "p = PInSet f (loweredSet items)"
      by (auto simp: parseComparison_def Let_def rbind_Inr_iff)
    show ?thesis
    proof (cases "tk_kind (cur us) = tList")
      case l: True
      with items obtain t where "us = t # rest" "map_of ls (tk_text t) = Some items" "tk_kind t = tList"
        by (cases us) (auto simp: listStrings_def split: option.splits)
      with ts True p assms show ?thesis by (auto intro!: exI [of _ "[i, opr, t]"] atom_in_list)
    next
      case False
      with items obtain lb vs where us: "us = lb # vs" "tk_kind lb = tLBrack"
        and lit: "list_literal [] vs = Inr (items, rest)"
        by (cases us) (auto simp: listStrings_def split: if_splits)
      from list_literal_derived [OF lit] obtain body rb where
        "vs = body @ rb # rest" "strs_d body items" "tk_kind rb = tRBrack" by auto
      with us ts True p assms show ?thesis
        by (auto intro!: exI [of _ "i # opr # lb # body @ [rb]"] atom_in_strs)
    qed
  next
    case False
    with assms ts field_tables_disjoint [OF assms(1)] obtain w where w: "scalarString us = Inr (w, rest)"
      and p: "str_cmp (tk_kind opr) f w = Some p"
      by (auto simp: parseComparison_def Let_def rbind_Inr_iff str_cmp_def split: if_splits)
    from scalarString_derived [OF w] obtain t where
      "us = t # rest" "tk_kind t \<in> {tString, tIdent}" "w = tk_text t" by blast
    with ts p assms show ?thesis by (auto intro!: exI [of _ "[i, opr, t]"] atom_str)
  qed
qed

lemma comparison_int_derived:
  assumes "map_of strFields n = None" and "parseComparison ls n ts = Inr (p, rest)"
    and "tk_kind i = tIdent" and "tk_text i = n" and "ts \<noteq> []"
  shows "\<exists>body. i # ts = body @ rest \<and> atom_d ls body p"
proof -
  obtain opr us where ts: "ts = opr # us" using assms(5) by (cases ts) auto
  from assms obtain g where g: "map_of intFields n = Some g"
    by (auto simp: parseComparison_def Let_def split: if_splits)
  show ?thesis
  proof (cases "tk_kind opr = tIn")
    case True
    with assms ts g obtain ns where ns: "listInts us = Inr (ns, rest)" and p: "p = PInInts g ns"
      by (auto simp: parseComparison_def Let_def rbind_Inr_iff)
    then obtain lb vs where us: "us = lb # vs" "tk_kind lb = tLBrack"
      and lit: "int_literal [] vs = Inr (ns, rest)"
      by (cases us) (auto simp: listInts_def split: if_splits)
    from int_literal_derived [OF lit] obtain body rb where
      "vs = body @ rb # rest" "ints_d body ns" "tk_kind rb = tRBrack" by auto
    with us ts True p assms g show ?thesis
      by (auto intro!: exI [of _ "i # opr # lb # body @ [rb]"] atom_in_ints)
  next
    case False
    with assms ts g obtain v where v: "scalarInt us = Inr (v, rest)"
      and p: "int_cmp (tk_kind opr) g v = Some p"
      by (auto simp: parseComparison_def Let_def rbind_Inr_iff int_cmp_def split: if_splits)
    from scalarInt_derived [OF v] obtain t where
      "us = t # rest" "tk_kind t = tInt" "parse_int (tk_text t) = Some v" by blast
    with ts p assms g show ?thesis by (auto intro!: exI [of _ "[i, opr, t]"] atom_int)
  qed
qed

lemma parse_field_derived:
  assumes "parse_field ls (tk_text i) ts = Inr (p, rest)" and "tk_kind i = tIdent"
  shows "\<exists>body. i # ts = body @ rest \<and> atom_d ls body p"
proof (cases "tk_kind (cur ts) \<in> {tEq, tNeq, tAmp, tIn, tContains, tStartswith}")
  case True
  with assms(1) have "parseComparison ls (tk_text i) ts = Inr (p, rest)" and "ts \<noteq> []"
    by (auto simp: parse_field_def)
  then show ?thesis
    using comparison_str_derived comparison_int_derived assms(2)
    by (cases "map_of strFields (tk_text i)") blast+
next
  case False
  with assms(1) have "rest = ts" and "(\<exists>b. map_of boolFields (tk_text i) = Some b \<and> p = PBool b) \<or>
      tk_text i = ''is_trusted_writer'' \<and> p = PTrustedWriter"
    by (auto simp: parse_field_def split: option.splits if_splits)
  with assms(2) show ?thesis
    by (intro exI [of _ "[i]"]) (auto intro: atom_bool atom_trusted)
qed

lemma parseCall_derived:
  assumes "parseCall ls (tk_text i) (i # ts) = Inr (p, rest)" and "tk_kind i = tIdent"
  shows "\<exists>body. i # ts = body @ rest \<and> atom_d ls body p"
proof -
  from assms(1) obtain us args vs where
    lp: "expect tLParen ts = Inr us" and ar: "call_args (tk_text i) [] us = Inr (args, vs)" and
    rp: "expect tRParen vs = Inr rest" and b: "build_call ls (tk_text i) args = Inr p"
    by (auto simp: parseCall_def rbind_Inr_iff)
  from lp obtain l where l: "ts = l # us" "tk_kind l = tLParen"
    by (cases ts) (auto simp: expect_def split: if_splits)
  from rp obtain r where r: "vs = r # rest" "tk_kind r = tRParen"
    by (cases vs) (auto simp: expect_def split: if_splits)
  from call_args_derived [OF ar] obtain body where "us = body @ vs" "args_d body args" by auto
  with l r b assms(2) show ?thesis
    by (intro exI [of _ "i # l # body @ [r]"]) (auto intro: atom_call)
qed

lemma parser_derives:
  "parseOr ls ts = Inr (p, rest) \<Longrightarrow> \<exists>body. ts = body @ rest \<and> or_d ls body p"
  "or_loop ls l ts = Inr (p, rest) \<Longrightarrow> or_d ls pre l \<Longrightarrow> \<exists>body. pre @ ts = body @ rest \<and> or_d ls body p"
  "parseAnd ls ts = Inr (p, rest) \<Longrightarrow> \<exists>body. ts = body @ rest \<and> and_d ls body p"
  "and_loop ls l ts = Inr (p, rest) \<Longrightarrow> and_d ls pre l \<Longrightarrow> \<exists>body. pre @ ts = body @ rest \<and> and_d ls body p"
  "parseUnary ls ts = Inr (p, rest) \<Longrightarrow> \<exists>body. ts = body @ rest \<and> not_d ls body p"
  "parsePrimary ls ts = Inr (p, rest) \<Longrightarrow> \<exists>body. ts = body @ rest \<and> not_d ls body p"
proof (induction ls ts and ls l ts and ls ts and ls l ts and ls ts and ls ts
    arbitrary: p rest and pre p rest and p rest and pre p rest and p rest and p rest
    rule: parseOr_or_loop_parseAnd_and_loop_parseUnary_parsePrimary.induct)
  case (1 ls ts)
  from "1.prems" obtain l us where l: "parseAnd ls ts = Inr (l, us)" "or_loop ls l us = Inr (p, rest)"
    by (auto simp: parseOr.simps rbind_Inr_iff)
  from "1.IH"(1) [OF l(1)] obtain pre where "ts = pre @ us" "and_d ls pre l" by blast
  with "1.IH"(2) [OF l(1) refl l(2)] show ?case by (auto intro: or_one)
next
  case (2 ls l ts)
  show ?case
  proof (cases "tk_kind (cur ts) = tOr")
    case True
    with "2.prems"(1) obtain r us where r: "parseAnd ls (adv ts) = Inr (r, us)"
      "or_loop ls (POr l r) us = Inr (p, rest)"
      by (auto simp: or_loop.simps [of ls l ts] rbind_Inr_iff)
    from True obtain t where t: "ts = t # adv ts" "tk_kind t = tOr" by (cases ts) auto
    from "2.IH"(1) [OF True r(1)] obtain body where body: "adv ts = body @ us" "and_d ls body r" by blast
    with t "2.prems"(2) have "or_d ls (pre @ t # body) (POr l r)" by (blast intro: or_more)
    from "2.IH"(2) [OF True r(1) refl r(2) this] t body show ?thesis by auto
  next
    case False
    with "2.prems" show ?thesis by (auto simp: or_loop.simps)
  qed
next
  case (3 ls ts)
  from "3.prems" obtain l us where l: "parseUnary ls ts = Inr (l, us)" "and_loop ls l us = Inr (p, rest)"
    by (auto simp: parseAnd.simps rbind_Inr_iff)
  from "3.IH"(1) [OF l(1)] obtain pre where "ts = pre @ us" "not_d ls pre l" by blast
  with "3.IH"(2) [OF l(1) refl l(2)] show ?case by (auto intro: and_one)
next
  case (4 ls l ts)
  show ?case
  proof (cases "tk_kind (cur ts) = tAnd")
    case True
    with "4.prems"(1) obtain r us where r: "parseUnary ls (adv ts) = Inr (r, us)"
      "and_loop ls (PAnd l r) us = Inr (p, rest)"
      by (auto simp: and_loop.simps [of ls l ts] rbind_Inr_iff)
    from True obtain t where t: "ts = t # adv ts" "tk_kind t = tAnd" by (cases ts) auto
    from "4.IH"(1) [OF True r(1)] obtain body where body: "adv ts = body @ us" "not_d ls body r" by blast
    with t "4.prems"(2) have "and_d ls (pre @ t # body) (PAnd l r)" by (blast intro: and_more)
    from "4.IH"(2) [OF True r(1) refl r(2) this] t body show ?thesis by auto
  next
    case False
    with "4.prems" show ?thesis by (auto simp: and_loop.simps)
  qed
next
  case (5 ls ts)
  show ?case
  proof (cases "tk_kind (cur ts) = tNot")
    case True
    with "5.prems" obtain c where c: "parseUnary ls (adv ts) = Inr (c, rest)" "p = PNot c"
      by (auto simp: parseUnary.simps [of ls ts] rbind_Inr_iff)
    from True obtain t where t: "ts = t # adv ts" "tk_kind t = tNot" by (cases ts) auto
    from "5.IH"(1) [OF True c(1)] obtain body where "adv ts = body @ rest" "not_d ls body c" by blast
    with t c show ?thesis by (intro exI [of _ "t # body"]) (auto intro: not_neg)
  next
    case False
    with "5.prems" "5.IH"(2) show ?thesis by (simp add: parseUnary.simps [of ls ts])
  qed
next
  case (6 ls ts)
  show ?case
  proof (cases "tk_kind (cur ts) = tLParen")
    case True
    with "6.prems" obtain us where us: "parseOr ls (adv ts) = Inr (p, us)" "expect tRParen us = Inr rest"
      by (auto simp: parsePrimary.simps [of ls ts] rbind_Inr_iff)
    from True obtain t where t: "ts = t # adv ts" "tk_kind t = tLParen" by (cases ts) auto
    from us(2) obtain r where r: "us = r # rest" "tk_kind r = tRParen"
      by (cases us) (auto simp: expect_def split: if_splits)
    from "6.IH" [OF refl True us(1)] obtain body where "adv ts = body @ us" "or_d ls body p" by blast
    with t r show ?thesis by (intro exI [of _ "t # body @ [r]"]) (auto intro: not_paren)
  next
    case False
    with "6.prems" have k: "tk_kind (cur ts) = tIdent"
      by (auto simp: parsePrimary.simps [of ls ts] Let_def split: if_splits)
    then obtain i us where ts: "ts = i # us" "tk_kind i = tIdent" by (cases ts) auto
    with "6.prems" have "parseCall ls (tk_text i) (i # us) = Inr (p, rest) \<or>
        parse_field ls (tk_text i) us = Inr (p, rest)"
      by (auto simp: parsePrimary.simps [of ls "i # us"] Let_def split: if_splits)
    with ts parseCall_derived parse_field_derived show ?thesis by (metis not_atom)
  qed
qed

lemma grammar_unambiguous: "Uniq (or_d ls ts)"
proof (rule Uniq_I)
  fix p q assume "or_d ls ts p" and "or_d ls ts q"
  then show "p = q"
    using grammar_reads(1) [of ls ts p "[]"] grammar_reads(1) [of ls ts q "[]"]
    by (simp add: follow_def or_loop.simps)
qed

section \<open>Properties\<close>

text \<open>
  C13. \<open>compileCondition\<close> accepts exactly the texts whose tokens form a condition of the grammar
  (\<open>or\<close> weaker than \<open>and\<close>, weaker than \<open>not\<close>, both left-associative, lists known, fields of the right
  type, integers in range), and compiles each to the predicate the grammar gives it.
\<close>

theorem parser_accepts_grammar:
  "compileCondition src ls = Inr p \<longleftrightarrow> (\<exists>ts. lex src = Inr (ts @ [tok tEOF [] (length src)]) \<and> or_d ls ts p)"
proof
  assume "compileCondition src ls = Inr p"
  then obtain toks rest where toks: "lex src = Inr toks" and pr: "parseOr ls (butlast toks) = Inr (p, rest)"
    and rest: "tk_kind (cur rest) = tEOF"
    by (auto simp: compileCondition_def rbind_Inr_iff split: if_splits)
  from toks obtain ts where ts: "toks = ts @ [tok tEOF [] (length src)]" "list_all token_ok ts"
    unfolding lex_def by (metis add_0 lex_from_shape)
  from pr ts parser_derives(1) obtain body where b: "ts = body @ rest" "or_d ls body p" by fastforce
  from b(1) ts(2) rest have "rest = []" by (cases rest) (auto simp: token_ok_def)
  with toks ts b show "\<exists>ts. lex src = Inr (ts @ [tok tEOF [] (length src)]) \<and> or_d ls ts p" by auto
next
  assume "\<exists>ts. lex src = Inr (ts @ [tok tEOF [] (length src)]) \<and> or_d ls ts p"
  then obtain ts where ts: "lex src = Inr (ts @ [tok tEOF [] (length src)])" "or_d ls ts p" by blast
  from grammar_reads(1) [OF ts(2), of "[]"] have "parseOr ls ts = Inr (p, [])"
    by (simp add: follow_def or_loop.simps)
  with ts(1) show "compileCondition src ls = Inr p" by (simp add: compileCondition_def)
qed

end
