(* ===== verification/Engine.thy ===== *)
theory Engine
  imports Pred
begin

text \<open>
  The compiled ruleset and its evaluation, \<open>internal/ruleengine/engine.go\<close>, with the compiled
  types of \<open>compile.go\<close>. \<open>Match\<close> threads one evaluation context through every rule, arm, exception
  and detail of an event, as the code shares \<open>cx\<close>. The second half is the specification: what an
  event's findings are, without a context; \<open>Match_eq_findings\<close> shows that the engine computes it.
\<close>

section \<open>Compiled rules\<close>

record compiled_arm =
  ca_whenAny :: bool
  ca_when :: "Lineage list"
  ca_guard :: "pred option"
  ca_suppress :: bool
  ca_severity :: severity
  ca_reason :: string
  ca_details :: "(string \<times> string) list"

record compiled_exception =
  ce_name :: string
  ce_fields :: "str_field list"
  ce_comps :: "string list"
  ce_values :: "string list list"

record compiled_rule =
  cr_ID :: string
  cr_Scope :: scope
  cr_Tactic :: string
  cr_Technique :: string
  cr_Tags :: "string list"
  cr_gate :: pred
  cr_hasArms :: bool
  cr_severity :: severity
  cr_reason :: string
  cr_details :: "(string \<times> string) list"
  cr_arms :: "compiled_arm list"
  cr_exceptions :: "compiled_exception list"

section \<open>Evaluation\<close>

text \<open>The loop of \<open>renderDetails\<close>; the map is an association list updated in key order.\<close>

fun render_loop :: "(string \<times> string) list \<Rightarrow> (string \<times> gval) list \<Rightarrow> eval_ctx \<Rightarrow>
    (string \<times> gval) list \<times> eval_ctx" where
  "render_loop [] m cx = (m, cx)"
| "render_loop ((k, token) # kvs) m cx =
     (let (v, cx') = fieldAny cx token in
      render_loop kvs (AList.update k (case v of Some x \<Rightarrow> x | None \<Rightarrow> GStr token) m) cx')"

definition renderDetails :: "eval_ctx \<Rightarrow> (string \<times> string) list \<Rightarrow> (string \<times> gval) list \<times> eval_ctx" where
  "renderDetails cx kvs = (if kvs = [] then ([], cx) else render_loop kvs [] cx)"

definition mk_result :: "compiled_rule \<Rightarrow> severity \<Rightarrow> string \<Rightarrow> (string \<times> gval) list \<Rightarrow> result" where
  "mk_result r sev reason m = \<lparr>r_RuleID = cr_ID r, r_Reason = reason, r_Severity = sev,
     r_Tactic = cr_Tactic r, r_Technique = cr_Technique r, r_Tags = cr_Tags r, r_Details = m\<rparr>"

definition rule_result :: "compiled_rule \<Rightarrow> eval_ctx \<Rightarrow> severity \<Rightarrow> string \<Rightarrow> (string \<times> string) list \<Rightarrow>
    result \<times> eval_ctx" where
  "rule_result r cx sev reason details =
     (let (m, cx') = renderDetails cx details in (mk_result r sev reason m, cx'))"

fun outcome_arms :: "compiled_rule \<Rightarrow> Lineage \<Rightarrow> compiled_arm list \<Rightarrow> eval_ctx \<Rightarrow> result option \<times> eval_ctx" where
  "outcome_arms r lin [] cx = (None, cx)"
| "outcome_arms r lin (a # as) cx =
     (if \<not> ca_whenAny a \<and> lin \<notin> set (ca_when a) then outcome_arms r lin as cx
      else
        (let (ok, cx1) = (case ca_guard a of None \<Rightarrow> (True, cx) | Some g \<Rightarrow> run_pred g cx)
         in if \<not> ok then outcome_arms r lin as cx1
            else if ca_suppress a then (None, cx1)
            else (let (res, cx2) = rule_result r cx1 (ca_severity a) (ca_reason a) (ca_details a)
                  in (Some res, cx2))))"

definition outcome :: "compiled_rule \<Rightarrow> eval_ctx \<Rightarrow> result option \<times> eval_ctx" where
  "outcome r cx =
     (if \<not> cr_hasArms r then
        (let (res, cx') = rule_result r cx (cr_severity r) (cr_reason r) (cr_details r) in (Some res, cx'))
      else (let (lin, cx1) = ctx_lineage cx in outcome_arms r lin (cr_arms r) cx1))"

definition compareException :: "string \<Rightarrow> string \<Rightarrow> string \<Rightarrow> bool" where
  "compareException got cmp want =
     (if cmp = ''in'' then list_ex (\<lambda>w. equal_fold (trim_space w) got) (split_byte CHR '','' want)
      else if cmp = ''contains'' then contains got want
      else if cmp = ''startswith'' then has_prefix got want
      else equal_fold got want)"

text \<open>The comparator of column \<open>i\<close>: the default is \<open>=\<close>.\<close>

definition comp_at :: "string list \<Rightarrow> nat \<Rightarrow> string" where
  "comp_at comps i = (if i < length comps \<and> comps ! i \<noteq> [] then comps ! i else ''='')"

fun match_row :: "string list \<Rightarrow> string list \<Rightarrow> nat \<Rightarrow> str_field list \<Rightarrow> eval_ctx \<Rightarrow> bool \<times> eval_ctx" where
  "match_row comps row i [] cx = (True, cx)"
| "match_row comps row i (sf # sfs) cx =
     (let (got, cx') = str_get sf cx in
      if \<not> compareException got (comp_at comps i) (row ! i) then (False, cx')
      else match_row comps row (Suc i) sfs cx')"

fun match_rows :: "compiled_exception \<Rightarrow> string list list \<Rightarrow> eval_ctx \<Rightarrow> bool \<times> eval_ctx" where
  "match_rows e [] cx = (False, cx)"
| "match_rows e (row # rows) cx =
     (let (all, cx') = match_row (ce_comps e) row 0 (ce_fields e) cx in
      if all then (True, cx') else match_rows e rows cx')"

definition exception_matches :: "compiled_exception \<Rightarrow> eval_ctx \<Rightarrow> bool \<times> eval_ctx" where
  "exception_matches e cx =
     (if ce_fields e = [] \<or> ce_values e = [] then (False, cx) else match_rows e (ce_values e) cx)"

fun suppressedByException :: "compiled_exception list \<Rightarrow> eval_ctx \<Rightarrow> bool \<times> eval_ctx" where
  "suppressedByException [] cx = (False, cx)"
| "suppressedByException (e # es) cx =
     (let (m, cx') = exception_matches e cx in if m then (True, cx') else suppressedByException es cx')"

fun match_loop :: "compiled_rule list \<Rightarrow> scope \<Rightarrow> eval_ctx \<Rightarrow> result list \<times> eval_ctx" where
  "match_loop [] scope cx = ([], cx)"
| "match_loop (r # rs) scope cx =
     (if cr_Scope r AND scope = 0 then match_loop rs scope cx
      else
        (let (g, cx1) = run_pred (cr_gate r) cx in
         if \<not> g then match_loop rs scope cx1
         else
           (let (res, cx2) = outcome r cx1 in
            (case res of
               None \<Rightarrow> match_loop rs scope cx2
             | Some x \<Rightarrow>
                 (let (s, cx3) = suppressedByException (cr_exceptions r) cx2 in
                  if s then match_loop rs scope cx3
                  else (let (out, cx4) = match_loop rs scope cx3 in (x # out, cx4)))))))"

definition engine_Match :: "compiled_rule list \<Rightarrow> event \<Rightarrow> provider \<Rightarrow> scope \<Rightarrow> result list" where
  "engine_Match rules ev c scope = fst (match_loop rules scope (newEvalCtx ev c scope))"

section \<open>Specification\<close>

definition detail_val :: "view \<Rightarrow> string \<Rightarrow> gval" where
  "detail_val v token = (case field_val v token of Some x \<Rightarrow> x | None \<Rightarrow> GStr token)"

definition details_val :: "view \<Rightarrow> (string \<times> string) list \<Rightarrow> (string \<times> gval) list" where
  "details_val v kvs = fold (\<lambda>(k, t) m. AList.update k (detail_val v t) m) kvs []"

definition arm_applies :: "view \<Rightarrow> compiled_arm \<Rightarrow> bool" where
  "arm_applies v a \<longleftrightarrow> (ca_whenAny a \<or> v_lineage v \<in> set (ca_when a)) \<and>
     (case ca_guard a of None \<Rightarrow> True | Some g \<Rightarrow> eval_pred g v)"

text \<open>The first arm that applies decides; a suppressing arm, or none, yields nothing.\<close>

definition arm_choice :: "view \<Rightarrow> compiled_rule \<Rightarrow> compiled_arm list \<Rightarrow> result option" where
  "arm_choice v r as =
     (case find (arm_applies v) as of
        None \<Rightarrow> None
      | Some a \<Rightarrow> if ca_suppress a then None
          else Some (mk_result r (ca_severity a) (ca_reason a) (details_val v (ca_details a))))"

definition rule_outcome :: "view \<Rightarrow> compiled_rule \<Rightarrow> result option" where
  "rule_outcome v r =
     (if \<not> cr_hasArms r then
        Some (mk_result r (cr_severity r) (cr_reason r) (details_val v (cr_details r)))
      else arm_choice v r (cr_arms r))"

definition row_holds :: "view \<Rightarrow> compiled_exception \<Rightarrow> string list \<Rightarrow> bool" where
  "row_holds v e row \<longleftrightarrow> (\<forall>i < length (ce_fields e).
     compareException (str_val (ce_fields e ! i) v) (comp_at (ce_comps e) i) (row ! i))"

definition exception_holds :: "view \<Rightarrow> compiled_exception \<Rightarrow> bool" where
  "exception_holds v e \<longleftrightarrow> ce_fields e \<noteq> [] \<and> (\<exists>row \<in> set (ce_values e). row_holds v e row)"

definition finding :: "view \<Rightarrow> compiled_rule \<Rightarrow> result option" where
  "finding v r =
     (if cr_Scope r AND snd (snd v) = 0 \<or> \<not> eval_pred (cr_gate r) v \<or>
         (\<exists>e \<in> set (cr_exceptions r). exception_holds v e)
      then None else rule_outcome v r)"

definition findings :: "view \<Rightarrow> compiled_rule list \<Rightarrow> result list" where
  "findings v rs = List.map_filter (finding v) rs"

section \<open>Running is reading\<close>

lemma agreesE:
  assumes "agrees cx v r"
  obtains cx' where "r = (v, cx')" "ctx_ok cx'" "view_of cx' = view_of cx"
  using assms by (cases r) (simp add: agrees_def)

lemma agrees_laterE:
  assumes "agrees cx1 v r" and "view_of cx1 = view_of cx"
  obtains cx' where "r = (v, cx')" "ctx_ok cx'" "view_of cx' = view_of cx"
  using assms by (cases r) (simp add: agrees_def)

lemma render_loop_agrees:
  "ctx_ok cx \<Longrightarrow> agrees cx (fold (\<lambda>(k, t) m. AList.update k (detail_val (view_of cx) t) m) kvs m)
     (render_loop kvs m cx)"
proof (induction kvs m cx rule: render_loop.induct)
  case (1 m cx)
  then show ?case by (simp add: agrees_def)
next
  case (2 k token kvs m cx)
  obtain cx' where f: "fieldAny cx token = (field_val (view_of cx) token, cx')" "ctx_ok cx'"
    "view_of cx' = view_of cx"
    using fieldAny_agrees [OF "2.prems", of token] by (rule agreesE)
  from "2.IH" [OF f(1) [symmetric] refl f(2)] f show ?case
    by (simp add: agrees_def detail_val_def)
qed

lemma rule_result_agrees:
  assumes "ctx_ok cx"
  shows "agrees cx (mk_result r sev reason (details_val (view_of cx) kvs)) (rule_result r cx sev reason kvs)"
proof -
  have "agrees cx (details_val (view_of cx) kvs) (renderDetails cx kvs)"
    using render_loop_agrees [OF assms, of kvs "[]"] assms
    by (simp add: renderDetails_def details_val_def agrees_def)
  then show ?thesis by (rule agreesE) (simp add: rule_result_def agrees_def)
qed

lemma arm_choice_simps [simp]:
  "arm_choice v r [] = None"
  "\<not> arm_applies v a \<Longrightarrow> arm_choice v r (a # as) = arm_choice v r as"
  "arm_applies v a \<Longrightarrow> arm_choice v r (a # as) =
     (if ca_suppress a then None
      else Some (mk_result r (ca_severity a) (ca_reason a) (details_val v (ca_details a))))"
  by (simp_all add: arm_choice_def)

lemma outcome_arms_agrees:
  "ctx_ok cx \<Longrightarrow> agrees cx (arm_choice (view_of cx) r as) (outcome_arms r (v_lineage (view_of cx)) as cx)"
proof (induction as arbitrary: cx)
  case Nil
  then show ?case by (simp add: agrees_def)
next
  case (Cons a as)
  show ?case
  proof (cases "\<not> ca_whenAny a \<and> v_lineage (view_of cx) \<notin> set (ca_when a)")
    case True
    then have "\<not> arm_applies (view_of cx) a" by (simp add: arm_applies_def)
    with True Cons show ?thesis by simp
  next
    case False
    define g where "g = (case ca_guard a of None \<Rightarrow> True | Some g \<Rightarrow> eval_pred g (view_of cx))"
    have "agrees cx g (case ca_guard a of None \<Rightarrow> (True, cx) | Some g \<Rightarrow> run_pred g cx)"
      using run_pred_agrees [OF Cons.prems] Cons.prems
      by (cases "ca_guard a") (simp_all add: g_def agrees_pure_iff)
    then obtain cx1 where g1: "(case ca_guard a of None \<Rightarrow> (True, cx) | Some g \<Rightarrow> run_pred g cx) = (g, cx1)"
      and c1: "ctx_ok cx1" "view_of cx1 = view_of cx" by (rule agreesE)
    have ap: "arm_applies (view_of cx) a \<longleftrightarrow> g" using False by (auto simp: arm_applies_def g_def)
    show ?thesis
    proof (cases "g \<and> \<not> ca_suppress a")
      case True
      obtain cx2 where "rule_result r cx1 (ca_severity a) (ca_reason a) (ca_details a) =
          (mk_result r (ca_severity a) (ca_reason a) (details_val (view_of cx) (ca_details a)), cx2)"
        "ctx_ok cx2" "view_of cx2 = view_of cx"
        using rule_result_agrees [OF c1(1)] unfolding c1(2) by (rule agrees_laterE [OF _ c1(2)])
      with True False g1 ap show ?thesis by (auto simp: agrees_def)
    next
      case inner: False
      from Cons.IH [OF c1(1)] have "agrees cx (arm_choice (view_of cx) r as)
          (outcome_arms r (v_lineage (view_of cx)) as cx1)"
        unfolding c1(2) by (simp add: agrees_def c1(2))
      with inner False g1 ap c1 show ?thesis by (cases g) (auto simp: agrees_def)
    qed
  qed
qed

lemma outcome_agrees:
  assumes "ctx_ok cx"
  shows "agrees cx (rule_outcome (view_of cx) r) (outcome r cx)"
proof (cases "cr_hasArms r")
  case False
  obtain cx' where "rule_result r cx (cr_severity r) (cr_reason r) (cr_details r) =
      (mk_result r (cr_severity r) (cr_reason r) (details_val (view_of cx) (cr_details r)), cx')"
    "ctx_ok cx'" "view_of cx' = view_of cx"
    using rule_result_agrees [OF assms] by (rule agreesE)
  with False show ?thesis by (simp add: outcome_def rule_outcome_def agrees_def)
next
  case True
  obtain cx1 where l: "ctx_lineage cx = (v_lineage (view_of cx), cx1)" "ctx_ok cx1" "view_of cx1 = view_of cx"
    using ctx_lineage_agrees [OF assms] by (rule agreesE)
  from outcome_arms_agrees [OF l(2), where as = "cr_arms r" and r = r] True l(1,3) show ?thesis
    by (simp add: outcome_def rule_outcome_def agrees_def)
qed

lemma match_row_agrees:
  "ctx_ok cx \<Longrightarrow> agrees cx (\<forall>j < length sfs.
      compareException (str_val (sfs ! j) (view_of cx)) (comp_at comps (i + j)) (row ! (i + j)))
     (match_row comps row i sfs cx)"
proof (induction comps row i sfs cx rule: match_row.induct)
  case (1 comps row i cx)
  then show ?case by (simp add: agrees_def)
next
  case (2 comps row i sf sfs cx)
  obtain cx' where g: "str_get sf cx = (str_val sf (view_of cx), cx')" "ctx_ok cx'" "view_of cx' = view_of cx"
    using str_get_agrees [OF "2.prems"] by (rule agreesE)
  from "2.IH" [OF g(1) [symmetric] refl _ g(2)] g show ?case
    by (simp add: agrees_def All_less_Suc2)
qed

lemma match_rows_agrees:
  "ctx_ok cx \<Longrightarrow> agrees cx (\<exists>row \<in> set rows. row_holds (view_of cx) e row) (match_rows e rows cx)"
proof (induction e rows cx rule: match_rows.induct)
  case (1 e cx)
  then show ?case by (simp add: agrees_def)
next
  case (2 e row rows cx)
  obtain cx' where g: "match_row (ce_comps e) row 0 (ce_fields e) cx = (row_holds (view_of cx) e row, cx')"
    "ctx_ok cx'" "view_of cx' = view_of cx"
    using match_row_agrees [OF "2.prems", of "ce_fields e" "ce_comps e" 0 row]
    by (auto simp: row_holds_def elim: agreesE)
  from "2.IH" [OF g(1) [symmetric] refl _ g(2)] g show ?case
    by (simp add: agrees_def)
qed

lemma suppressedByException_agrees:
  "ctx_ok cx \<Longrightarrow> agrees cx (\<exists>e \<in> set es. exception_holds (view_of cx) e) (suppressedByException es cx)"
proof (induction es arbitrary: cx)
  case Nil
  then show ?case by (simp add: agrees_def)
next
  case (Cons e es)
  have "agrees cx (exception_holds (view_of cx) e) (exception_matches e cx)"
    using match_rows_agrees [OF Cons.prems, of "ce_values e" e] Cons.prems
    by (auto simp: exception_matches_def exception_holds_def agrees_def)
  then obtain cx' where g: "exception_matches e cx = (exception_holds (view_of cx) e, cx')"
    "ctx_ok cx'" "view_of cx' = view_of cx" by (rule agreesE)
  with Cons.IH [OF g(2)] show ?case by (simp add: agrees_def)
qed

lemma match_loop_agrees:
  "ctx_ok cx \<Longrightarrow> cx_scope cx = scope \<Longrightarrow> agrees cx (findings (view_of cx) rs) (match_loop rs scope cx)"
proof (induction rs arbitrary: cx)
  case Nil
  then show ?case by (simp add: agrees_def findings_def)
next
  case (Cons r rs)
  have sc: "snd (snd (view_of cx)) = scope" using Cons.prems by (simp add: view_of_def)
  have scx: "cx_scope cx' = scope" if "view_of cx' = view_of cx" for cx'
    using that Cons.prems by (simp add: view_of_def)
  have IH: "agrees cx (findings (view_of cx) rs) (match_loop rs scope cx')"
    if "ctx_ok cx'" "view_of cx' = view_of cx" for cx'
    using Cons.IH [OF that(1) scx [OF that(2)]] that by (simp add: agrees_def)
  have skip: "findings (view_of cx) (r # rs) = findings (view_of cx) rs" if "finding (view_of cx) r = None"
    using that by (simp add: findings_def List.map_filter_simps)
  show ?case
  proof (cases "cr_Scope r AND scope = 0")
    case True
    with skip IH [OF Cons.prems(1) refl] sc show ?thesis by (simp add: finding_def)
  next
    case inscope: False
    obtain cx1 where g: "run_pred (cr_gate r) cx = (eval_pred (cr_gate r) (view_of cx), cx1)"
      "ctx_ok cx1" "view_of cx1 = view_of cx"
      using run_pred_agrees [OF Cons.prems(1)] by (rule agreesE)
    obtain cx2 where o: "outcome r cx1 = (rule_outcome (view_of cx) r, cx2)"
      "ctx_ok cx2" "view_of cx2 = view_of cx"
      using outcome_agrees [OF g(2), of r] unfolding g(3) by (rule agrees_laterE [OF _ g(3)])
    obtain cx3 where s: "suppressedByException (cr_exceptions r) cx2 =
        (\<exists>e \<in> set (cr_exceptions r). exception_holds (view_of cx) e, cx3)"
      "ctx_ok cx3" "view_of cx3 = view_of cx"
      using suppressedByException_agrees [OF o(2), of "cr_exceptions r"] unfolding o(3) by (rule agrees_laterE [OF _ o(3)])
    obtain cx4 where rest: "match_loop rs scope cx3 = (findings (view_of cx) rs, cx4)"
      "ctx_ok cx4" "view_of cx4 = view_of cx"
      using IH [OF s(2,3)] by (rule agreesE)
    show ?thesis
    proof (cases "eval_pred (cr_gate r) (view_of cx)")
      case False
      with inscope g skip IH [OF g(2,3)] show ?thesis by (simp add: finding_def)
    next
      case gate: True
      show ?thesis
      proof (cases "rule_outcome (view_of cx) r")
        case None
        with inscope gate g o skip IH [OF o(2,3)] show ?thesis by (simp add: finding_def)
      next
        case (Some x)
        with inscope gate g o s rest skip IH [OF s(2,3)] sc show ?thesis
          by (auto simp: finding_def findings_def List.map_filter_simps agrees_def)
      qed
    qed
  qed
qed

lemma Match_findings: "engine_Match rules ev c scope = findings (ev, c, scope) rules"
  using match_loop_agrees [OF ctx_ok_new(1), of ev c scope scope rules]
  by (simp add: engine_Match_def agrees_def ctx_ok_new newEvalCtx_def view_of_def)

lemma findings_append: "findings v (rs @ qs) = findings v rs @ findings v qs"
  by (simp add: findings_def List.map_filter_def)

lemma finding_RuleID: "finding v r = Some x \<Longrightarrow> r_RuleID x = cr_ID r"
  by (auto simp: finding_def rule_outcome_def arm_choice_def mk_result_def split: if_splits option.splits)

end
