(* ===== verification/Compile.thy ===== *)
theory Compile
  imports Macros Grammar Engine
begin

text \<open>
  Compilation of a ruleset document, \<open>internal/ruleengine/compile.go\<close>: \<open>compileRuleset\<close>,
  \<open>compileRule\<close>, \<open>compileArm\<close>, \<open>compileException\<close>, \<open>detailList\<close>, \<open>parseScope\<close>. The second half
  shows what holds of every compiled rule.
\<close>

definition parseScope :: "string \<Rightarrow> (rule_err, scope) res" where
  "parseScope s =
     (if s = [] \<or> s = ''all'' then Inr ScopeAll
      else if s = ''container'' then Inr ScopeContainer
      else if s = ''host'' then Inr ScopeHost
      else Inl (InvalidScope s))"

definition detailList :: "(string \<times> string) list \<Rightarrow> (string \<times> string) list" where
  "detailList m = map (\<lambda>k. (k, the (map_of m k))) (sort (remdups (map fst m)))"

fun exception_fields :: "string list \<Rightarrow> (rule_err, str_field list) res" where
  "exception_fields [] = Inr []"
| "exception_fields (f # fs) =
     (case map_of strFields f of
        None \<Rightarrow> Inl (UnknownField f)
      | Some sf \<Rightarrow> rbind (exception_fields fs) (\<lambda>sfs. Inr (sf # sfs)))"

fun bad_row :: "nat \<Rightarrow> nat \<Rightarrow> string list list \<Rightarrow> rule_err option" where
  "bad_row n i [] = None"
| "bad_row n i (row # rows) =
     (if length row \<noteq> n then Some (BadValueRow i (length row) n) else bad_row n (Suc i) rows)"

definition compileException :: "exception_spec \<Rightarrow> (rule_err, compiled_exception) res" where
  "compileException e =
     rbind (exception_fields (es_Fields e)) (\<lambda>fs.
       case bad_row (length (es_Fields e)) 0 (es_Values e) of
         Some err \<Rightarrow> Inl err
       | None \<Rightarrow> Inr \<lparr>ce_name = es_Name e, ce_fields = fs, ce_comps = es_Comps e, ce_values = es_Values e\<rparr>)"

text \<open>The loop over \<open>a.When\<close>: whether \<open>any\<close> occurs, and the lineages named.\<close>

fun when_loop :: "bool \<Rightarrow> Lineage list \<Rightarrow> string list \<Rightarrow> (rule_err, bool \<times> Lineage list) res" where
  "when_loop any ls [] = Inr (any, ls)"
| "when_loop any ls (w # ws) =
     (if w = ''any'' then when_loop True ls ws
      else (case map_of lineageNames w of
          None \<Rightarrow> Inl (InvalidLineage w)
        | Some l \<Rightarrow> when_loop any (l # ls) ws))"

definition compileArm :: "arm_spec \<Rightarrow> (string \<times> string list) list \<Rightarrow> (string \<times> string) list \<Rightarrow>
    (rule_err, compiled_arm) res" where
  "compileArm a ls macros =
     rbind (when_loop (as_When a = []) [] (as_When a)) (\<lambda>(any, whens).
     rbind (if as_And a \<noteq> [] then
              rbind (applyMacros (as_And a) macros) (\<lambda>guardCond.
                case compileCondition guardCond ls of
                  Inl e \<Rightarrow> Inl (InGuard e)
                | Inr g \<Rightarrow> Inr (Some g))
            else Inr None) (\<lambda>guard.
       if as_Action a = ''suppress'' then
         Inr \<lparr>ca_whenAny = any, ca_when = whens, ca_guard = guard, ca_suppress = True,
              ca_severity = [], ca_reason = [], ca_details = []\<rparr>
       else if as_Action a \<noteq> [] then Inl (InvalidAction (as_Action a))
       else (case parseSeverity (as_Severity a) of
           None \<Rightarrow> Inl (InvalidSeverity (as_Severity a))
         | Some sev \<Rightarrow> Inr \<lparr>ca_whenAny = any, ca_when = whens, ca_guard = guard, ca_suppress = False,
              ca_severity = sev, ca_reason = as_Reason a, ca_details = detailList (as_Details a)\<rparr>)))"

fun compile_arms :: "nat \<Rightarrow> arm_spec list \<Rightarrow> (string \<times> string list) list \<Rightarrow> (string \<times> string) list \<Rightarrow>
    (rule_err, compiled_arm list) res" where
  "compile_arms ai [] ls macros = Inr []"
| "compile_arms ai (a # as) ls macros =
     (case compileArm a ls macros of
        Inl e \<Rightarrow> Inl (InArm ai e)
      | Inr arm \<Rightarrow> rbind (compile_arms (Suc ai) as ls macros) (\<lambda>arms. Inr (arm # arms)))"

fun compile_exceptions :: "exception_spec list \<Rightarrow> (rule_err, compiled_exception list) res" where
  "compile_exceptions [] = Inr []"
| "compile_exceptions (e # es) =
     (case compileException e of
        Inl err \<Rightarrow> Inl (InException (es_Name e) err)
      | Inr ce \<Rightarrow> rbind (compile_exceptions es) (\<lambda>ces. Inr (ce # ces)))"

definition compileRule :: "rule_spec \<Rightarrow> (string \<times> string list) list \<Rightarrow> (string \<times> string) list \<Rightarrow>
    (rule_err, compiled_rule) res" where
  "compileRule spec ls macros =
     (if rs_ID spec = [] then Inl MissingID
      else
        rbind (parseScope (rs_Scope spec)) (\<lambda>scope.
        rbind (applyMacros (rs_Condition spec) macros) (\<lambda>cond.
          if cond = [] then Inl EmptyCondition
          else (case compileCondition cond ls of
              Inl e \<Rightarrow> Inl (InCondition e)
            | Inr gate \<Rightarrow>
              rbind (if rs_Lineage spec \<noteq> [] then
                  rbind (compile_arms 0 (rs_Lineage spec) ls macros) (\<lambda>arms. Inr (True, [], [], [], arms))
                else (case parseSeverity (rs_Severity spec) of
                    None \<Rightarrow> Inl (InvalidSeverity (rs_Severity spec))
                  | Some sev \<Rightarrow> Inr (False, sev, rs_Reason spec, detailList (rs_Details spec), [])))
                (\<lambda>(hasArms, sev, reason, details, arms).
              rbind (compile_exceptions (rs_Exceptions spec)) (\<lambda>excs.
                Inr \<lparr>cr_ID = rs_ID spec, cr_Scope = scope, cr_Tactic = rs_Tactic spec,
                     cr_Technique = rs_Technique spec, cr_Tags = rs_Tags spec, cr_gate = gate,
                     cr_hasArms = hasArms, cr_severity = sev, cr_reason = reason, cr_details = details,
                     cr_arms = arms, cr_exceptions = excs\<rparr>))))))"

text \<open>A rule is skipped when \<open>enabled: false\<close> is set.\<close>

definition rule_enabled :: "rule_spec \<Rightarrow> bool" where
  "rule_enabled spec \<longleftrightarrow> rs_Enabled spec \<noteq> Some False"

fun compile_rules :: "rule_spec list \<Rightarrow> (string \<times> string list) list \<Rightarrow> (string \<times> string) list \<Rightarrow>
    (rule_err, compiled_rule list) res" where
  "compile_rules [] ls macros = Inr []"
| "compile_rules (spec # specs) ls macros =
     (if \<not> rule_enabled spec then compile_rules specs ls macros
      else (case compileRule spec ls macros of
          Inl e \<Rightarrow> Inl (InRule (rs_ID spec) e)
        | Inr cr \<Rightarrow> rbind (compile_rules specs ls macros) (\<lambda>crs. Inr (cr # crs))))"

definition compileRuleset :: "rule_file \<Rightarrow> (rule_err, compiled_rule list) res" where
  "compileRuleset f =
     rbind (resolveMacros (f_Macros f)) (\<lambda>resolved. compile_rules (f_Rules f) (f_Lists f) resolved)"

section \<open>Compiled rules are well-formed\<close>

text \<open>
  The severities a rule can give are real ones, its scope is not empty, its detail keys are strictly
  increasing, and every row of an exception has a value for each field, so that \<open>row[i]\<close> is in range.
\<close>

definition details_ok :: "(string \<times> string) list \<Rightarrow> bool" where
  "details_ok ds \<longleftrightarrow> sorted_wrt (<) (map fst ds)"

definition exception_ok :: "compiled_exception \<Rightarrow> bool" where
  "exception_ok e \<longleftrightarrow> (\<forall>row \<in> set (ce_values e). length row = length (ce_fields e))"

definition severity_ok :: "severity \<Rightarrow> bool" where
  "severity_ok s \<longleftrightarrow> 1 \<le> severityRank s \<and> severityRank s \<le> 4"

definition arm_ok :: "compiled_arm \<Rightarrow> bool" where
  "arm_ok a \<longleftrightarrow> (ca_suppress a \<or> severity_ok (ca_severity a)) \<and> details_ok (ca_details a)"

definition rule_ok :: "compiled_rule \<Rightarrow> bool" where
  "rule_ok r \<longleftrightarrow> cr_ID r \<noteq> [] \<and> cr_Scope r \<in> {ScopeContainer, ScopeHost, ScopeAll} \<and>
     (if cr_hasArms r then cr_arms r \<noteq> [] \<and> list_all arm_ok (cr_arms r)
      else severity_ok (cr_severity r) \<and> details_ok (cr_details r)) \<and>
     list_all exception_ok (cr_exceptions r)"

lemma details_ok_detailList: "details_ok (detailList m)"
proof -
  have "map fst (detailList m) = sort (remdups (map fst m))"
    by (simp add: detailList_def o_def)
  then show ?thesis
    by (simp add: details_ok_def strict_sorted_iff)
qed

lemma details_ok_Nil: "details_ok []"
  by (simp add: details_ok_def)

lemma parseSeverity_ok: "parseSeverity s = Some sev \<Longrightarrow> severity_ok sev"
  by (auto simp: severity_ok_def dest: parseSeverity_rank)

lemma exception_fields_length: "exception_fields fs = Inr sfs \<Longrightarrow> length sfs = length fs"
  by (induction fs arbitrary: sfs) (auto simp: rbind_Inr_iff split: option.splits)

lemma bad_row_None: "bad_row n i rows = None \<longleftrightarrow> (\<forall>row \<in> set rows. length row = n)"
  by (induction rows arbitrary: i) auto

lemma compileException_ok: "compileException e = Inr ce \<Longrightarrow> exception_ok ce"
  by (auto simp: compileException_def rbind_Inr_iff exception_ok_def bad_row_None
      dest: exception_fields_length split: option.splits)

lemma compile_exceptions_ok: "compile_exceptions es = Inr ces \<Longrightarrow> list_all exception_ok ces"
  by (induction es arbitrary: ces) (auto simp: rbind_Inr_iff compileException_ok split: sum.splits)

lemma compileArm_ok: "compileArm a ls ms = Inr arm \<Longrightarrow> arm_ok arm"
  by (auto simp: compileArm_def rbind_Inr_iff arm_ok_def details_ok_detailList details_ok_Nil
      split: if_splits option.splits dest: parseSeverity_ok)

lemma compile_arms_ok: "compile_arms i as ls ms = Inr arms \<Longrightarrow> list_all arm_ok arms \<and> length arms = length as"
  by (induction as arbitrary: i arms) (auto simp: rbind_Inr_iff compileArm_ok split: sum.splits)

lemma parseScope_ok: "parseScope s = Inr sc \<Longrightarrow> sc \<in> {ScopeContainer, ScopeHost, ScopeAll}"
  by (auto simp: parseScope_def split: if_splits)

lemma compileRule_ok:
  assumes "compileRule spec ls ms = Inr r"
  shows "rule_ok r \<and> cr_ID r = rs_ID spec"
proof -
  obtain sc gate arms sev reason details hasArms excs where
    sc: "parseScope (rs_Scope spec) = Inr sc" and id: "rs_ID spec \<noteq> []" and
    arms: "(if rs_Lineage spec \<noteq> [] then
        rbind (compile_arms 0 (rs_Lineage spec) ls ms) (\<lambda>arms. Inr (True, [], [], [], arms))
      else (case parseSeverity (rs_Severity spec) of
          None \<Rightarrow> Inl (InvalidSeverity (rs_Severity spec))
        | Some sev \<Rightarrow> Inr (False, sev, rs_Reason spec, detailList (rs_Details spec), []))) =
      Inr (hasArms, sev, reason, details, arms)" and
    excs: "compile_exceptions (rs_Exceptions spec) = Inr excs" and
    r: "r = \<lparr>cr_ID = rs_ID spec, cr_Scope = sc, cr_Tactic = rs_Tactic spec,
       cr_Technique = rs_Technique spec, cr_Tags = rs_Tags spec, cr_gate = gate,
       cr_hasArms = hasArms, cr_severity = sev, cr_reason = reason, cr_details = details,
       cr_arms = arms, cr_exceptions = excs\<rparr>"
    using assms by (auto simp: compileRule_def rbind_Inr_iff split: if_splits sum.splits option.splits)
  have "if hasArms then arms \<noteq> [] \<and> list_all arm_ok arms else severity_ok sev \<and> details_ok details"
    using arms by (auto simp: rbind_Inr_iff details_ok_detailList parseSeverity_ok
        dest!: compile_arms_ok split: if_splits option.splits)
  with parseScope_ok [OF sc] id compile_exceptions_ok [OF excs] show ?thesis
    by (simp add: r rule_ok_def)
qed

lemma compile_rules_ok: "compile_rules specs ls ms = Inr rs \<Longrightarrow> list_all rule_ok rs"
  by (induction specs arbitrary: rs) (auto simp: rbind_Inr_iff compileRule_ok split: if_splits sum.splits)

lemma compile_rules_ids:
  "compile_rules specs ls ms = Inr rs \<Longrightarrow> map cr_ID rs = map rs_ID (filter rule_enabled specs)"
  by (induction specs arbitrary: rs) (auto simp: rbind_Inr_iff compileRule_ok split: if_splits sum.splits)

lemma rule_ok_severity: "rule_ok r \<Longrightarrow> finding v r = Some x \<Longrightarrow> severity_ok (r_Severity x)"
  by (auto simp: finding_def rule_outcome_def arm_choice_def rule_ok_def mk_result_def arm_ok_def
      list_all_iff find_Some_iff split: if_splits option.splits)

end
