(* ===== verification/Loader.thy ===== *)
theory Loader
  imports Compile
begin

text \<open>
  Building an engine from the embedded ruleset and operator overlays,
  \<open>internal/ruleengine/loader.go\<close>: \<open>mergeOver\<close>, \<open>checkUniqueIDs\<close> and \<open>Load\<close>. The file system and the
  YAML decoder (\<open>gopkg.in/yaml.v3\<close>) are parameters: \<open>readDir\<close> gives the entries of a directory with
  a flag for sub-directories, \<open>readFile\<close> the bytes of a file, \<open>decode\<close> a document or its error.
\<close>

section \<open>Merging\<close>

definition set_lists :: "(string \<times> 'v) list \<Rightarrow> (string \<times> 'v) list \<Rightarrow> (string \<times> 'v) list" where
  "set_lists m kvs = fold (\<lambda>(k, v) m. AList.update k v m) kvs m"

definition append_lists :: "(string \<times> string list) list \<Rightarrow> (string \<times> string list) list \<Rightarrow>
    (string \<times> string list) list" where
  "append_lists m kvs =
     fold (\<lambda>(k, v) m. AList.update k ((case map_of m k of Some old \<Rightarrow> old | None \<Rightarrow> []) @ v) m) kvs m"

text \<open>\<open>idx\<close> maps a rule's id to its position; a later rule with the same id wins.\<close>

fun index_rules :: "nat \<Rightarrow> rule_spec list \<Rightarrow> (string \<times> nat) list \<Rightarrow> (string \<times> nat) list" where
  "index_rules i [] idx = idx"
| "index_rules i (r # rs) idx = index_rules (Suc i) rs (AList.update (rs_ID r) i idx)"

definition append_rule :: "rule_spec \<Rightarrow> rule_spec \<Rightarrow> rule_spec" where
  "append_rule old r = old\<lparr>rs_Tags := rs_Tags old @ rs_Tags r,
     rs_Exceptions := rs_Exceptions old @ rs_Exceptions r,
     rs_Enabled := (if rs_Enabled r \<noteq> None then rs_Enabled r else rs_Enabled old)\<rparr>"

fun merge_rules :: "rule_spec list \<Rightarrow> (string \<times> nat) list \<Rightarrow> rule_spec list \<Rightarrow> (rule_err, rule_spec list) res" where
  "merge_rules rules idx [] = Inr rules"
| "merge_rules rules idx (r # rs) =
     (let i = map_of idx (rs_ID r) in
      if rs_Override r then
        (case i of
           Some i \<Rightarrow> merge_rules (rules[i := r]) idx rs
         | None \<Rightarrow> merge_rules (rules @ [r]) (AList.update (rs_ID r) (length rules) idx) rs)
      else if rs_Append r then
        (case i of
           None \<Rightarrow> Inl (AppendToUnknown (rs_ID r))
         | Some i \<Rightarrow> merge_rules (rules[i := append_rule (rules ! i) r]) idx rs)
      else
        (case i of
           Some i \<Rightarrow> Inl (DuplicateRule (rs_ID r))
         | None \<Rightarrow> merge_rules (rules @ [r]) (AList.update (rs_ID r) (length rules) idx) rs))"

definition mergeOver :: "rule_file \<Rightarrow> rule_file \<Rightarrow> (rule_err, rule_file) res" where
  "mergeOver f ov =
     (let f1 = f\<lparr>f_Lists := append_lists (set_lists (f_Lists f) (f_Lists ov)) (f_AppendLists ov),
                 f_Macros := set_lists (f_Macros f) (f_Macros ov)\<rparr>
      in rbind (merge_rules (f_Rules f1) (index_rules 0 (f_Rules f1) []) (f_Rules ov))
           (\<lambda>rules. Inr (f1\<lparr>f_Rules := rules\<rparr>)))"

fun unique_loop :: "nat \<Rightarrow> string list \<Rightarrow> rule_spec list \<Rightarrow> rule_err option" where
  "unique_loop i seen [] = None"
| "unique_loop i seen (r # rs) =
     (if rs_ID r = [] then Some (RuleWithoutID i)
      else if rs_ID r \<in> set seen then Some (DuplicateRule (rs_ID r))
      else unique_loop (Suc i) (rs_ID r # seen) rs)"

definition checkUniqueIDs :: "rule_file \<Rightarrow> rule_err option" where
  "checkUniqueIDs f = unique_loop 0 [] (f_Rules f)"

section \<open>Paths\<close>

text \<open>\<open>filepath.Ext\<close> and \<open>filepath.Join\<close> (with \<open>Clean\<close>) on slash-separated paths.\<close>

definition path_ext :: "string \<Rightarrow> string" where
  "path_ext p =
     (case last_index_byte p CHR ''.'' of
        Some i \<Rightarrow> if CHR ''/'' \<in> set (drop i p) then [] else drop i p
      | None \<Rightarrow> [])"

fun clean_parts :: "bool \<Rightarrow> string list \<Rightarrow> string list \<Rightarrow> string list" where
  "clean_parts rooted out [] = rev out"
| "clean_parts rooted out (w # ws) =
     (if w = [] \<or> w = ''.'' then clean_parts rooted out ws
      else if w = ''..'' then
        (if out \<noteq> [] \<and> hd out \<noteq> ''..'' then clean_parts rooted (tl out) ws
         else if rooted then clean_parts rooted out ws
         else clean_parts rooted (w # out) ws)
      else clean_parts rooted (w # out) ws)"

definition path_clean :: "string \<Rightarrow> string" where
  "path_clean p =
     (if p = [] then ''.''
      else (let rooted = (hd p = CHR ''/'');
                c = (if rooted then ''/'' else []) @ join ''/'' (clean_parts rooted [] (split_byte CHR ''/'' p))
            in if c = [] then ''.'' else c))"

definition path_join :: "string \<Rightarrow> string \<Rightarrow> string" where
  "path_join d n =
     (if d = [] \<and> n = [] then []
      else if d = [] then path_clean n
      else if n = [] then path_clean d
      else path_clean (d @ ''/'' @ n))"

section \<open>Load\<close>

definition dir_names :: "string \<Rightarrow> (string \<times> bool) list \<Rightarrow> string list" where
  "dir_names dir entries = sort
     (map (\<lambda>(n, _). path_join dir n)
       (filter (\<lambda>(n, isDir). \<not> isDir \<and> (path_ext n = ''.yaml'' \<or> path_ext n = ''.yml'')) entries))"

definition overlays :: "(string \<Rightarrow> (string \<times> bool) list option) \<Rightarrow> string \<Rightarrow> string \<Rightarrow>
    (rule_err, string list) res" where
  "overlays readDir rulesFile rulesDir =
     (let files = (if rulesFile \<noteq> [] then [rulesFile] else [])
      in if rulesDir \<noteq> [] then
           (case readDir rulesDir of
              None \<Rightarrow> Inl (ReadFailed rulesDir)
            | Some entries \<Rightarrow> Inr (files @ dir_names rulesDir entries))
         else Inr files)"

fun merge_overlays :: "(string \<Rightarrow> string option) \<Rightarrow> (string \<Rightarrow> (rule_err, rule_file) res) \<Rightarrow> rule_file \<Rightarrow>
    string list \<Rightarrow> (rule_err, rule_file) res" where
  "merge_overlays readFile decode base [] = Inr base"
| "merge_overlays readFile decode base (path # paths) =
     (case readFile path of
        None \<Rightarrow> Inl (ReadFailed path)
      | Some data \<Rightarrow>
          rbind (decode data) (\<lambda>over.
            case mergeOver base over of
              Inl e \<Rightarrow> Inl (InFile path e)
            | Inr base' \<Rightarrow> merge_overlays readFile decode base' paths))"

definition load_ruleset :: "rule_file \<Rightarrow> (string \<Rightarrow> (string \<times> bool) list option) \<Rightarrow> (string \<Rightarrow> string option) \<Rightarrow>
    (string \<Rightarrow> (rule_err, rule_file) res) \<Rightarrow> string \<Rightarrow> string \<Rightarrow> (rule_err, compiled_rule list) res" where
  "load_ruleset base readDir readFile decode rulesFile rulesDir =
     rbind (overlays readDir rulesFile rulesDir) (\<lambda>paths.
     rbind (merge_overlays readFile decode base paths) (\<lambda>f.
       case checkUniqueIDs f of
         Some e \<Rightarrow> Inl e
       | None \<Rightarrow> compileRuleset f))"

section \<open>Facts\<close>

abbreviation ids :: "rule_spec list \<Rightarrow> string list" where
  "ids rs \<equiv> map rs_ID rs"

text \<open>The index of a list of rules with distinct ids is exact.\<close>

definition index_ok :: "rule_spec list \<Rightarrow> (string \<times> nat) list \<Rightarrow> bool" where
  "index_ok rules idx \<longleftrightarrow> distinct (ids rules) \<and>
     (\<forall>k. map_of idx k = None \<longleftrightarrow> k \<notin> set (ids rules)) \<and>
     (\<forall>k i. map_of idx k = Some i \<longrightarrow> i < length rules \<and> rs_ID (rules ! i) = k)"

lemma index_okD: "index_ok rules idx \<Longrightarrow> map_of idx k = Some i \<Longrightarrow> i < length rules \<and> rs_ID (rules ! i) = k"
  by (simp add: index_ok_def)

lemma index_ok_snoc:
  assumes "index_ok rules idx" and "map_of idx (rs_ID r) = None"
  shows "index_ok (rules @ [r]) (AList.update (rs_ID r) (length rules) idx)"
  using assms by (auto simp: index_ok_def update_conv' nth_append intro: less_SucI)

lemma index_ok_update:
  assumes "index_ok rules idx" and "map_of idx k = Some i" and "rs_ID r = k"
  shows "index_ok (rules[i := r]) idx"
proof -
  note i = index_okD [OF assms(1,2)]
  have e: "ids (rules[i := r]) = ids rules"
    using i assms(3) by (simp add: map_update list_update_same_conv)
  have "j < length (rules[i := r]) \<and> rs_ID (rules[i := r] ! j) = k'" if "map_of idx k' = Some j" for k' j
    using index_okD [OF assms(1) that] i assms(3) by (cases "j = i") simp_all
  with assms(1) show ?thesis unfolding index_ok_def e by blast
qed

lemma index_rules_ok:
  "index_ok pre idx \<Longrightarrow> distinct (ids (pre @ rs)) \<Longrightarrow> index_ok (pre @ rs) (index_rules (length pre) rs idx)"
proof (induction rs arbitrary: pre idx)
  case (Cons r rs)
  have "map_of idx (rs_ID r) = None" using Cons.prems by (auto simp: index_ok_def)
  from index_ok_snoc [OF Cons.prems(1) this] Cons.IH [of "pre @ [r]"] Cons.prems show ?case by simp
qed simp

lemma index_rules_all: "distinct (ids rs) \<Longrightarrow> index_ok rs (index_rules 0 rs [])"
  using index_rules_ok [of "[]" "[]" rs] by (simp add: index_ok_def)

lemma append_rule_ID [simp]: "rs_ID (append_rule old r) = rs_ID old"
  by (simp add: append_rule_def)

text \<open>Merging keeps the rules in place and adds the new ones at the end.\<close>

lemma merge_rules_ids:
  "merge_rules rules idx rs = Inr rules' \<Longrightarrow> index_ok rules idx \<Longrightarrow>
   distinct (ids rules') \<and> (\<exists>new. ids rules' = ids rules @ new \<and> set new \<subseteq> set (ids rs))"
proof (induction rules idx rs rule: merge_rules.induct)
  case (1 rules idx)
  then show ?case by (auto simp: index_ok_def)
next
  case (2 rules idx r rs)
  have upd: "ids (rules[i := x]) = ids rules" if "map_of idx (rs_ID r) = Some i" "rs_ID x = rs_ID r" for i x
    using that "2.prems"(2)
    by (auto simp: index_ok_def map_update intro: list_update_same_conv [THEN iffD2])
  show ?case
  proof (cases "map_of idx (rs_ID r)")
    case None
    with "2.prems"(1) have m: "merge_rules (rules @ [r]) (AList.update (rs_ID r) (length rules) idx) rs = Inr rules'"
      and ap: "rs_Override r \<or> \<not> rs_Append r"
      by (auto simp: Let_def split: if_splits)
    have ok: "index_ok (rules @ [r]) (AList.update (rs_ID r) (length rules) idx)"
      using "2.prems"(2) None by (rule index_ok_snoc)
    have "distinct (ids rules') \<and> (\<exists>new. ids rules' = ids (rules @ [r]) @ new \<and> set new \<subseteq> set (ids rs))"
      using "2.IH"(1) [OF refl _ None m ok] "2.IH"(4) [OF refl _ _ None m ok] ap by blast
    then show ?thesis by auto
  next
    case (Some i)
    have rid: "rs_ID (rules ! i) = rs_ID r" using Some "2.prems"(2) by (simp add: index_ok_def)
    show ?thesis
    proof (cases "rs_Override r")
      case True
      with "2.prems"(1) Some have m: "merge_rules (rules[i := r]) idx rs = Inr rules'" by simp
      from "2.IH"(2) [OF refl True Some m index_ok_update [OF "2.prems"(2) Some refl]] upd [OF Some refl]
      show ?thesis by auto
    next
      case False
      with "2.prems"(1) Some have ap: "rs_Append r"
        and m: "merge_rules (rules[i := append_rule (rules ! i) r]) idx rs = Inr rules'"
        by (auto simp: Let_def split: if_splits)
      have "index_ok (rules[i := append_rule (rules ! i) r]) idx"
        using "2.prems"(2) Some by (rule index_ok_update) (simp add: rid)
      from "2.IH"(3) [OF refl False ap Some m this] upd [OF Some, of "append_rule (rules ! i) r"] rid
      show ?thesis by auto
    qed
  qed
qed

lemma unique_loop_None:
  "unique_loop i seen rs = None \<longleftrightarrow> [] \<notin> set (ids rs) \<and> distinct (ids rs) \<and> set seen \<inter> set (ids rs) = {}"
  by (induction rs arbitrary: i seen) auto

lemma checkUniqueIDs_None: "checkUniqueIDs f = None \<longleftrightarrow> [] \<notin> set (ids (f_Rules f)) \<and> distinct (ids (f_Rules f))"
  by (simp add: checkUniqueIDs_def unique_loop_None)

lemma mergeOver_ids:
  assumes "mergeOver f ov = Inr f'" and "distinct (ids (f_Rules f))"
  shows "distinct (ids (f_Rules f')) \<and>
    (\<exists>new. ids (f_Rules f') = ids (f_Rules f) @ new \<and> set new \<subseteq> set (ids (f_Rules ov)))"
proof -
  from assms(1) obtain rules where
    m: "merge_rules (f_Rules f) (index_rules 0 (f_Rules f) []) (f_Rules ov) = Inr rules"
    and f': "f_Rules f' = rules"
    by (auto simp: mergeOver_def Let_def rbind_Inr_iff)
  from merge_rules_ids [OF m index_rules_all [OF assms(2)]] f' show ?thesis by simp
qed

lemma merge_overlays_ids:
  "merge_overlays readFile decode base paths = Inr f \<Longrightarrow> distinct (ids (f_Rules base)) \<Longrightarrow>
   distinct (ids (f_Rules f)) \<and> (\<exists>new. ids (f_Rules f) = ids (f_Rules base) @ new)"
proof (induction paths arbitrary: base)
  case (Cons path paths)
  from Cons.prems(1) obtain data over where "readFile path = Some data" "decode data = Inr over"
    by (auto simp: rbind_Inr_iff split: option.splits)
  with Cons.prems(1) obtain base' where m: "mergeOver base over = Inr base'"
    and r: "merge_overlays readFile decode base' paths = Inr f"
    by (auto split: sum.splits)
  from mergeOver_ids [OF m Cons.prems(2)] Cons.IH [OF r] show ?case by auto
qed auto

lemma load_ruleset_ok:
  assumes "load_ruleset base readDir readFile decode rulesFile rulesDir = Inr rs"
  shows "list_all rule_ok rs \<and> distinct (map cr_ID rs)"
proof -
  from assms obtain f where u: "checkUniqueIDs f = None" and c: "compileRuleset f = Inr rs"
    by (auto simp: load_ruleset_def rbind_Inr_iff split: option.splits)
  from c obtain ms where cr: "compile_rules (f_Rules f) (f_Lists f) ms = Inr rs"
    by (auto simp: compileRuleset_def rbind_Inr_iff)
  from compile_rules_ids [OF cr] u have "distinct (map cr_ID rs)"
    by (simp add: checkUniqueIDs_None distinct_map_filter)
  with compile_rules_ok [OF cr] show ?thesis by simp
qed

end
