(* ===== verification/Config.thy ===== *)
theory Config
  imports Prelude
begin

text \<open>
  Runtime configuration, \<open>internal/config/config.go\<close>: the record \<open>Config\<close>, the readers
  \<open>envOr\<close>, \<open>envInt\<close>, \<open>envBool\<close>, \<open>splitCSV\<close> of the \<open>KW_*\<close> variables, \<open>Load\<close>,
  \<open>validate\<close>, \<open>IsMonitored\<close> and \<open>DSN\<close>. The environment is a function from variable
  names to values (an unset variable reads as the empty string, as \<open>os.Getenv\<close> has it), the
  file system is the parameter \<open>stat\<close>, which says of a path whether it is a file, a directory,
  or cannot be read.
\<close>

record config =
  cfg_ServerName :: string
  cfg_Mode :: string
  cfg_RulesFile :: string
  cfg_RulesDir :: string
  cfg_AncestryDepth :: int
  cfg_TrustedParents :: "string list"
  cfg_NetworkParents :: "string list"
  cfg_DetectionExceptions :: "string list"
  cfg_MonitorHost :: bool
  cfg_HostOpenWatchExtra :: "string list"
  cfg_HostExecExclude :: "string list"
  cfg_HostTrustedWriters :: "string list"
  cfg_HostTrustedParents :: "string list"
  cfg_HostDockerClients :: "string list"
  cfg_ContainerWhitelist :: "string list"
  cfg_ContainerBlacklist :: "string list"
  cfg_AlertMinSeverity :: string
  cfg_AlertMaxRate :: int
  cfg_AlertRateWindow :: int
  cfg_AlertFormat :: string
  cfg_CorrelationEnabled :: bool
  cfg_CorrelationWindow :: int
  cfg_CorrelationMinStages :: int
  cfg_CorrelationMinScore :: int
  cfg_CorrelationCooldown :: int
  cfg_CorrelationHostMinStages :: int
  cfg_CorrelationHostMinScore :: int
  cfg_AuthLogEnabled :: bool
  cfg_AuthLogPath :: string
  cfg_SSHBruteThreshold :: int
  cfg_SSHBruteWindow :: int
  cfg_LogEnabled :: bool
  cfg_LogPath :: string
  cfg_LogMaxMB :: int
  cfg_LogMaxBackups :: int
  cfg_WebhookEnabled :: bool
  cfg_WebhookURL :: string
  cfg_WebhookSecret :: string
  cfg_SlackEnabled :: bool
  cfg_SlackWebhookURL :: string
  cfg_SlackChannel :: string
  cfg_APIEnabled :: bool
  cfg_APIBindAddr :: string
  cfg_APIPort :: int
  cfg_APIToken :: string
  cfg_EBPFRingbufSize :: int
  cfg_HealthFile :: string
  cfg_DBEnabled :: bool
  cfg_DBRetentionDays :: int
  cfg_DBHost :: string
  cfg_DBPort :: int
  cfg_DBName :: string
  cfg_DBUser :: string
  cfg_DBPassword :: string
  cfg_DBSSLMode :: string

type_synonym environ = "string \<Rightarrow> string"

datatype file_kind = RegularFile | Directory

section \<open>Reading environment variables\<close>

text \<open>\<open>strconv.Atoi\<close>: an optional sign and decimal digits, within int64.\<close>

definition atoi :: "string \<Rightarrow> int option" where
  "atoi s =
     (let (neg, ds) = (case s of
            c # cs \<Rightarrow> if c = CHR ''-'' then (True, cs) else if c = CHR ''+'' then (False, cs) else (False, s)
          | [] \<Rightarrow> (False, []))
      in if ds = [] \<or> \<not> list_all is_digit ds then None
         else let n = int (nat_of_digits 0 ds); v = (if neg then - n else n)
              in if - (2 ^ 63) \<le> v \<and> v < 2 ^ 63 then Some v else None)"

text \<open>\<open>strconv.ParseBool\<close>.\<close>

definition parse_bool :: "string \<Rightarrow> bool option" where
  "parse_bool s =
     (if s \<in> set [''1'', ''t'', ''T'', ''true'', ''TRUE'', ''True''] then Some True
      else if s \<in> set [''0'', ''f'', ''F'', ''false'', ''FALSE'', ''False''] then Some False
      else None)"

definition envOr :: "environ \<Rightarrow> string \<Rightarrow> string \<Rightarrow> string" where
  "envOr env key fallback = (let v = env key in if v \<noteq> [] then v else fallback)"

text \<open>The error result of \<open>envInt\<close> carries the variable's name and text.\<close>

definition envInt :: "environ \<Rightarrow> string \<Rightarrow> int \<Rightarrow> (string \<times> string, int) res" where
  "envInt env key fallback =
     (let v = env key in
      if v = [] then Inr fallback
      else (case atoi v of None \<Rightarrow> Inl (key, v) | Some n \<Rightarrow> Inr n))"

definition envBool :: "environ \<Rightarrow> string \<Rightarrow> bool \<Rightarrow> bool" where
  "envBool env key fallback =
     (let v = env key in
      if v = [] then fallback
      else (case parse_bool v of None \<Rightarrow> fallback | Some b \<Rightarrow> b))"

definition splitCSV :: "string \<Rightarrow> string list" where
  "splitCSV s = (if s = [] then [] else filter (\<lambda>p. p \<noteq> []) (map trim_space (split_byte CHR '','' s)))"

text \<open>
  The statement \<open>if v, err := envInt(key, d); err == nil && ok(v) then cfg.f = v\<close>, which
  leaves the field as it was when the variable is malformed or out of range.
\<close>

definition override_int :: "environ \<Rightarrow> string \<Rightarrow> int \<Rightarrow> (int \<Rightarrow> bool) \<Rightarrow> int \<Rightarrow> int" where
  "override_int env key d ok old =
     (case envInt env key d of Inl _ \<Rightarrow> old | Inr v \<Rightarrow> if ok v then v else old)"

section \<open>Validation\<close>

datatype config_err =
    BadSeverity string | BadMode string | BadFormat string
  | DBPasswordMissing | DBPasswordDefault
  | BadPort int | TokenMissing | TokenPlaceholder | TokenShort nat
  | BadRulesFile string | BadRulesDir string
  | WebhookURLMissing | SlackURLMissing

definition validate :: "(string \<Rightarrow> file_kind option) \<Rightarrow> config \<Rightarrow> config_err option" where
  "validate stat c =
     (if cfg_AlertMinSeverity c \<notin> set [''low'', ''medium'', ''high'', ''critical'']
        then Some (BadSeverity (cfg_AlertMinSeverity c))
      else if cfg_Mode c \<noteq> ''alert'' \<and> cfg_Mode c \<noteq> ''monitor'' then Some (BadMode (cfg_Mode c))
      else if cfg_AlertFormat c \<noteq> ''native'' \<and> cfg_AlertFormat c \<noteq> ''ecs''
        then Some (BadFormat (cfg_AlertFormat c))
      else if cfg_DBEnabled c \<and> cfg_DBPassword c = [] then Some DBPasswordMissing
      else if cfg_DBEnabled c \<and> cfg_DBPassword c = ''changeme'' then Some DBPasswordDefault
      else if cfg_APIPort c < 1 \<or> 65535 < cfg_APIPort c then Some (BadPort (cfg_APIPort c))
      else if cfg_APIEnabled c \<and> cfg_APIToken c = [] then Some TokenMissing
      else if cfg_APIEnabled c \<and> contains (to_lower (cfg_APIToken c)) ''changeme''
        then Some TokenPlaceholder
      else if cfg_APIEnabled c \<and> length (cfg_APIToken c) < 16
        then Some (TokenShort (length (cfg_APIToken c)))
      else if cfg_RulesFile c \<noteq> [] \<and> stat (cfg_RulesFile c) \<noteq> Some RegularFile
        then Some (BadRulesFile (cfg_RulesFile c))
      else if cfg_RulesDir c \<noteq> [] \<and> stat (cfg_RulesDir c) \<noteq> Some Directory
        then Some (BadRulesDir (cfg_RulesDir c))
      else if cfg_WebhookEnabled c \<and> cfg_WebhookURL c = [] then Some WebhookURLMissing
      else if cfg_SlackEnabled c \<and> cfg_SlackWebhookURL c = [] then Some SlackURLMissing
      else None)"

section \<open>Load\<close>

definition load_fields :: "environ \<Rightarrow> config" where
  "load_fields env = \<lparr>
     cfg_ServerName = envOr env ''KW_SERVER_NAME'' ''kernelwatch-host'',
     cfg_Mode = envOr env ''KW_MODE'' ''alert'',
     cfg_RulesFile = env ''KW_RULES_FILE'',
     cfg_RulesDir = env ''KW_RULES_DIR'',
     cfg_AncestryDepth = override_int env ''KW_ANCESTRY_DEPTH'' 5 (\<lambda>v. v > 0) 5,
     cfg_TrustedParents = splitCSV (env ''KW_TRUSTED_PARENTS''),
     cfg_NetworkParents = splitCSV (env ''KW_NETWORK_PARENTS''),
     cfg_DetectionExceptions = splitCSV (env ''KW_DETECTION_EXCEPTIONS''),
     cfg_MonitorHost = envBool env ''KW_MONITOR_HOST'' False,
     cfg_HostOpenWatchExtra = splitCSV (env ''KW_HOST_OPEN_WATCH_EXTRA''),
     cfg_HostExecExclude = splitCSV (env ''KW_HOST_EXEC_EXCLUDE''),
     cfg_HostTrustedWriters = splitCSV (env ''KW_HOST_TRUSTED_WRITERS''),
     cfg_HostTrustedParents = splitCSV (env ''KW_HOST_TRUSTED_PARENTS''),
     cfg_HostDockerClients = splitCSV (env ''KW_HOST_DOCKER_CLIENTS''),
     cfg_ContainerWhitelist = splitCSV (env ''KW_CONTAINER_WHITELIST''),
     cfg_ContainerBlacklist = splitCSV (env ''KW_CONTAINER_BLACKLIST''),
     cfg_AlertMinSeverity = envOr env ''KW_ALERT_MIN_SEVERITY'' ''medium'',
     cfg_AlertMaxRate = override_int env ''KW_ALERT_MAX_RATE'' 10 (\<lambda>v. True) 10,
     cfg_AlertRateWindow = override_int env ''KW_ALERT_RATE_WINDOW'' 60 (\<lambda>v. True) 60,
     cfg_AlertFormat = to_lower (envOr env ''KW_ALERT_FORMAT'' ''native''),
     cfg_CorrelationEnabled = envBool env ''KW_CORRELATION_ENABLED'' True,
     cfg_CorrelationWindow = override_int env ''KW_CORRELATION_WINDOW'' 300 (\<lambda>v. v > 0) 300,
     cfg_CorrelationMinStages = override_int env ''KW_CORRELATION_MIN_STAGES'' 3 (\<lambda>v. v > 0) 3,
     cfg_CorrelationMinScore = override_int env ''KW_CORRELATION_MIN_SCORE'' 120 (\<lambda>v. v > 0) 120,
     cfg_CorrelationCooldown = override_int env ''KW_CORRELATION_COOLDOWN'' 300 (\<lambda>v. v \<ge> 0) 300,
     cfg_CorrelationHostMinStages =
       override_int env ''KW_CORRELATION_HOST_MIN_STAGES'' 0 (\<lambda>v. v > 0) 0,
     cfg_CorrelationHostMinScore =
       override_int env ''KW_CORRELATION_HOST_MIN_SCORE'' 0 (\<lambda>v. v > 0) 0,
     cfg_AuthLogEnabled = envBool env ''KW_AUTHLOG_ENABLED'' False,
     cfg_AuthLogPath = envOr env ''KW_AUTHLOG_PATH'' ''/var/log/auth.log'',
     cfg_SSHBruteThreshold = override_int env ''KW_SSH_BRUTE_THRESHOLD'' 5 (\<lambda>v. v > 0) 5,
     cfg_SSHBruteWindow = override_int env ''KW_SSH_BRUTE_WINDOW'' 60 (\<lambda>v. v > 0) 60,
     cfg_LogEnabled = envBool env ''KW_LOG_ENABLED'' True,
     cfg_LogPath = envOr env ''KW_LOG_PATH'' ''/var/log/kernelwatch/alerts.json'',
     cfg_LogMaxMB = override_int env ''KW_LOG_MAX_MB'' 50 (\<lambda>v. True) 50,
     cfg_LogMaxBackups = override_int env ''KW_LOG_MAX_BACKUPS'' 3 (\<lambda>v. True) 3,
     cfg_WebhookEnabled = envBool env ''KW_WEBHOOK_ENABLED'' False,
     cfg_WebhookURL = env ''KW_WEBHOOK_URL'',
     cfg_WebhookSecret = env ''KW_WEBHOOK_SECRET'',
     cfg_SlackEnabled = envBool env ''KW_SLACK_ENABLED'' False,
     cfg_SlackWebhookURL = env ''KW_SLACK_WEBHOOK_URL'',
     cfg_SlackChannel = envOr env ''KW_SLACK_CHANNEL'' ''#security-alerts'',
     cfg_APIEnabled = envBool env ''KW_API_ENABLED'' False,
     cfg_APIBindAddr = envOr env ''KW_API_BIND_ADDR'' ''127.0.0.1'',
     cfg_APIPort = override_int env ''KW_API_PORT'' 8080 (\<lambda>v. True) 8080,
     cfg_APIToken = env ''KW_API_TOKEN'',
     cfg_EBPFRingbufSize =
       override_int env ''KW_EBPF_RINGBUF_SIZE'' (16 * 1024 * 1024) (\<lambda>v. True) (16 * 1024 * 1024),
     cfg_HealthFile = envOr env ''KW_HEALTH_FILE'' ''/var/log/kernelwatch/health'',
     cfg_DBEnabled = envBool env ''KW_DB_ENABLED'' False,
     cfg_DBRetentionDays = override_int env ''KW_DB_RETENTION_DAYS'' 90 (\<lambda>v. True) 0,
     cfg_DBHost = envOr env ''KW_DB_HOST'' ''localhost'',
     cfg_DBPort = override_int env ''KW_DB_PORT'' 5432 (\<lambda>v. True) 5432,
     cfg_DBName = envOr env ''KW_DB_NAME'' ''kernelwatch'',
     cfg_DBUser = envOr env ''KW_DB_USER'' ''kernelwatch'',
     cfg_DBPassword = env ''KW_DB_PASSWORD'',
     cfg_DBSSLMode = envOr env ''KW_DB_SSL_MODE'' ''disable''\<rparr>"

definition Load :: "(string \<Rightarrow> file_kind option) \<Rightarrow> environ \<Rightarrow> (config_err, config) res" where
  "Load stat env =
     (let cfg = load_fields env
      in (case validate stat cfg of Some e \<Rightarrow> Inl e | None \<Rightarrow> Inr cfg))"

section \<open>Container filtering and the connection string\<close>

definition IsMonitored :: "config \<Rightarrow> string \<Rightarrow> bool" where
  "IsMonitored c containerName =
     (if list_ex (\<lambda>b. b \<noteq> [] \<and> equal_fold b containerName) (cfg_ContainerBlacklist c) then False
      else if cfg_ContainerWhitelist c \<noteq> []
        then list_ex (\<lambda>w. w \<noteq> [] \<and> equal_fold w containerName) (cfg_ContainerWhitelist c)
      else True)"

definition DSN :: "config \<Rightarrow> string" where
  "DSN c = ''host='' @ cfg_DBHost c @ '' port='' @ show_int (cfg_DBPort c) @
     '' dbname='' @ cfg_DBName c @ '' user='' @ cfg_DBUser c @
     '' password='' @ cfg_DBPassword c @ '' sslmode='' @ cfg_DBSSLMode c"

section \<open>Facts\<close>

lemma splitCSV_nonempty: "p \<in> set (splitCSV s) \<Longrightarrow> p \<noteq> [] \<and> trim_space p = p"
  by (auto simp: splitCSV_def split: if_splits)

lemma splitCSV_no_comma: "p \<in> set (splitCSV s) \<Longrightarrow> CHR '','' \<notin> set p"
proof -
  have sub: "set (trim_space w) \<subseteq> set w" for w
    by (auto simp: trim_space_def dest!: set_dropWhileD)
  show "p \<in> set (splitCSV s) \<Longrightarrow> CHR '','' \<notin> set p"
    using sub by (auto simp: splitCSV_def dest: split_byte_no_sep split: if_splits)
qed

lemma override_int_ok: "ok old \<Longrightarrow> ok (override_int env key d ok old)"
  by (simp add: override_int_def split: sum.splits)

lemma override_int_malformed: "env key \<noteq> [] \<Longrightarrow> atoi (env key) = None \<Longrightarrow>
    override_int env key d ok old = old"
  by (simp add: override_int_def envInt_def)

lemma override_int_unset: "env key = [] \<Longrightarrow> ok d \<Longrightarrow> override_int env key d ok old = d"
  by (simp add: override_int_def envInt_def)

lemma Load_Inr_iff: "Load stat env = Inr c \<longleftrightarrow> c = load_fields env \<and> validate stat c = None"
  by (auto simp: Load_def Let_def split: option.splits)

text \<open>What \<open>validate\<close> accepts.\<close>

definition config_ok :: "(string \<Rightarrow> file_kind option) \<Rightarrow> config \<Rightarrow> bool" where
  "config_ok stat c \<longleftrightarrow>
     cfg_AlertMinSeverity c \<in> {''low'', ''medium'', ''high'', ''critical''} \<and>
     cfg_Mode c \<in> {''alert'', ''monitor''} \<and> cfg_AlertFormat c \<in> {''native'', ''ecs''} \<and>
     1 \<le> cfg_APIPort c \<and> cfg_APIPort c \<le> 65535 \<and>
     (cfg_DBEnabled c \<longrightarrow> cfg_DBPassword c \<noteq> [] \<and> cfg_DBPassword c \<noteq> ''changeme'') \<and>
     (cfg_APIEnabled c \<longrightarrow> 16 \<le> length (cfg_APIToken c) \<and>
        \<not> contains (to_lower (cfg_APIToken c)) ''changeme'') \<and>
     (cfg_RulesFile c \<noteq> [] \<longrightarrow> stat (cfg_RulesFile c) = Some RegularFile) \<and>
     (cfg_RulesDir c \<noteq> [] \<longrightarrow> stat (cfg_RulesDir c) = Some Directory) \<and>
     (cfg_WebhookEnabled c \<longrightarrow> cfg_WebhookURL c \<noteq> []) \<and>
     (cfg_SlackEnabled c \<longrightarrow> cfg_SlackWebhookURL c \<noteq> [])"

lemma if_Some_None: "(if a then Some e else r) = None \<longleftrightarrow> \<not> a \<and> r = None"
  by simp

lemma validate_None_iff: "validate stat c = None \<longleftrightarrow> config_ok stat c"
proof -
  have "cfg_APIToken c = [] \<Longrightarrow> \<not> 16 \<le> length (cfg_APIToken c)" by simp
  then show ?thesis
    unfolding validate_def config_ok_def if_Some_None list.set not_less [symmetric] de_Morgan_disj
    by blast
qed

text \<open>
  The integers that \<open>Load\<close> guards are in their range whatever the environment holds. The rate limit settings,
  \<open>KW_ALERT_MAX_RATE\<close> and \<open>KW_ALERT_RATE_WINDOW\<close>, are not guarded: what they do out of range is in \<open>Settings\<close> and
  \<open>RateLimit\<close>.
\<close>

definition tuning_ok :: "config \<Rightarrow> bool" where
  "tuning_ok c \<longleftrightarrow> 0 < cfg_AncestryDepth c \<and> 0 < cfg_CorrelationWindow c \<and>
     0 < cfg_CorrelationMinStages c \<and> 0 < cfg_CorrelationMinScore c \<and>
     0 \<le> cfg_CorrelationCooldown c \<and> 0 \<le> cfg_CorrelationHostMinStages c \<and>
     0 \<le> cfg_CorrelationHostMinScore c \<and> 0 < cfg_SSHBruteThreshold c \<and> 0 < cfg_SSHBruteWindow c"

lemma override_int_pos: "0 < old \<Longrightarrow> 0 < override_int env key d (\<lambda>v. 0 < v) old"
  by (rule override_int_ok)

lemma override_int_nonneg: "0 \<le> old \<Longrightarrow> 0 \<le> override_int env key d (\<lambda>v. 0 \<le> v) old"
  by (rule override_int_ok)

lemma override_int_pos0: "0 \<le> old \<Longrightarrow> 0 \<le> override_int env key d (\<lambda>v. 0 < v) old"
  by (simp add: override_int_def split: sum.splits)

lemma load_fields_tuning_ok: "tuning_ok (load_fields env)"
  by (simp add: tuning_ok_def load_fields_def override_int_pos override_int_nonneg override_int_pos0)

section \<open>Properties\<close>

text \<open>
  A malformed \<open>KW_DB_RETENTION_DAYS\<close> is read as 0 (keep alerts forever), not as the
  default of 90 days.
\<close>

theorem malformed_retention_keeps_forever:
  assumes "env ''KW_DB_RETENTION_DAYS'' \<noteq> []" and "atoi (env ''KW_DB_RETENTION_DAYS'') = None"
  shows "cfg_DBRetentionDays (load_fields env) = 0"
  using assms by (simp add: load_fields_def override_int_malformed)

theorem malformed_retention_keeps_forever_witness:
  "cfg_DBRetentionDays (load_fields
     (\<lambda>k. if k = ''KW_DB_RETENTION_DAYS'' then ''30d'' else [])) = 0"
  by (rule malformed_retention_keeps_forever) (simp, code_simp)

text \<open>
  The blacklist wins over the whitelist; a container no list names is monitored exactly when
  the whitelist is empty.
\<close>

theorem IsMonitored_iff:
  "IsMonitored c n \<longleftrightarrow>
     \<not> (\<exists>b \<in> set (cfg_ContainerBlacklist c). b \<noteq> [] \<and> equal_fold b n) \<and>
     (cfg_ContainerWhitelist c = [] \<or>
      (\<exists>w \<in> set (cfg_ContainerWhitelist c). w \<noteq> [] \<and> equal_fold w n))"
  by (auto simp: IsMonitored_def list_ex_iff)

end
