(* ===== verification/Classifier.thy ===== *)
theory Classifier
  imports Config RuleTypes
begin

text \<open>
  Process-lineage classification: the value lists and the classifier of
  \<open>internal/detector/lists.go\<close> and \<open>lists_host.go\<close>, and the adapter of
  \<open>internal/detector/detector.go\<close> that offers it to the rule engine. A \<open>map[string]bool\<close> whose
  values are all true is the list of its keys, and \<open>m[x]\<close> is membership.
\<close>

section \<open>Value lists\<close>

definition shells :: "string list" where
  "shells = [''sh'', ''bash'', ''zsh'', ''fish'', ''dash'', ''ash'', ''ksh'', ''tcsh'']"

definition netTools :: "string list" where
  "netTools = [''nmap'', ''masscan'', ''netcat'', ''nc'', ''ncat'', ''socat'', ''tcpdump'',
     ''wireshark'', ''tshark'', ''curl'', ''wget'']"

definition pkgManagers :: "string list" where
  "pkgManagers = [''apt'', ''apt-get'', ''dpkg'', ''yum'', ''dnf'', ''rpm'', ''apk'', ''pip'',
     ''pip3'', ''npm'', ''yarn'', ''gem'']"

definition privTools :: "string list" where
  "privTools = [''sudo'', ''su'', ''nsenter'', ''unshare'', ''chroot'', ''capsh'', ''setuid'',
     ''newgrp'']"

definition highNetTools :: "string list" where
  "highNetTools = [''nmap'', ''masscan'']"

definition sensitiveFiles :: "string list" where
  "sensitiveFiles = [''/etc/shadow'', ''/etc/passwd'', ''/etc/sudoers'', ''/root/.ssh'',
     ''/var/run/docker.sock'', ''/.dockerenv'', ''/proc/sysrq-trigger'', ''/proc/kcore'']"

definition credFiles :: "string list" where
  "credFiles = [''/.env'', ''/.aws/credentials'', ''/.gcloud/credentials'', ''/run/secrets'',
     ''/.kube/config'']"

definition writableExecDirs :: "string list" where
  "writableExecDirs = [''/tmp/'', ''/dev/shm/'', ''/var/tmp/'', ''/run/'']"

definition persistenceFiles :: "string list" where
  "persistenceFiles = [''/etc/cron'', ''/var/spool/cron'', ''/etc/systemd/'',
     ''/lib/systemd/system/'', ''/usr/lib/systemd/system/'', ''/etc/init.d/'', ''/etc/rc.local'',
     ''/etc/update-motd.d/'', ''/etc/profile.d/'', ''/etc/ld.so.preload'', ''/etc/ld.so.conf'',
     ''/root/.ssh/authorized_keys'', ''/etc/sudoers.d/'', ''/etc/passwd'', ''/etc/shadow'']"

definition oWRONLY :: "64 word" where "oWRONLY = 0x1"
definition oRDWR :: "64 word" where "oRDWR = 0x2"
definition oCREAT :: "64 word" where "oCREAT = 0x40"
definition oTRUNC :: "64 word" where "oTRUNC = 0x200"
definition oAPPEND :: "64 word" where "oAPPEND = 0x400"

definition writeFlagMask :: "64 word" where
  "writeFlagMask = oWRONLY OR oRDWR OR oCREAT OR oTRUNC OR oAPPEND"

definition defaultTrustedParents :: "string list" where
  "defaultTrustedParents = [''init'', ''systemd'', ''cron'', ''crond'', ''anacron'', ''atd'',
     ''containerd-shim'', ''containerd-shim-runc-v2'', ''runc'', ''docker-init'',
     ''tini'', ''dumb-init'', ''s6-supervise'', ''s6-svscan'', ''supervisord'', ''runsv'']"

definition defaultNetworkParents :: "string list" where
  "defaultNetworkParents = [''nginx'', ''apache2'', ''httpd'', ''caddy'', ''haproxy'', ''lighttpd'',
     ''php-fpm'', ''node'', ''java'', ''puma'', ''unicorn'', ''gunicorn'', ''uwsgi'', ''mongrel'',
     ''mysqld'', ''postgres'', ''redis-server'', ''memcached'', ''tomcat'', ''catalina.sh'']"

definition defaultInteractiveParents :: "string list" where
  "defaultInteractiveParents = [''sshd'', ''login'', ''getty'', ''agetty'', ''mgetty'',
     ''tmux'', ''tmux: server'', ''screen'', ''systemd-logind'']"

definition defaultHostTrustedWriters :: "string list" where
  "defaultHostTrustedWriters = [''dpkg'', ''apt'', ''apt-get'', ''aptitude'', ''unattended-upgr'',
     ''unattended-upgrade'', ''rpm'', ''yum'', ''dnf'', ''zypper'', ''apk'', ''snapd'', ''snap'',
     ''systemd'', ''systemd-sysv-generator'', ''systemd-tmpfiles'', ''systemctl'',
     ''cloud-init'', ''logrotate'', ''rsyslogd'', ''journald'', ''systemd-journald'',
     ''dockerd'', ''containerd'', ''containerd-shim'', ''dkms'', ''kmod'', ''udevd'',
     ''systemd-udevd'']"

definition hostPersistencePrefixes :: "string list" where
  "hostPersistencePrefixes = [''/etc/cron'', ''/var/spool/cron'', ''/etc/systemd/'',
     ''/lib/systemd/system/'', ''/usr/lib/systemd/system/'', ''/etc/init.d/'', ''/etc/rc.local'',
     ''/etc/update-motd.d/'', ''/etc/profile.d/'', ''/etc/ld.so.preload'', ''/etc/ld.so.conf'',
     ''/etc/ssh/'', ''/etc/sudoers'', ''/etc/pam.d/'', ''/etc/modules-load.d/'',
     ''/root/.ssh/authorized_keys'']"

definition hostPersistenceSubstrings :: "string list" where
  "hostPersistenceSubstrings = [''/.ssh/authorized_keys'']"

definition userMgmtTools :: "string list" where
  "userMgmtTools = [''useradd'', ''usermod'', ''userdel'', ''groupadd'', ''groupmod'',
     ''groupdel'', ''chpasswd'', ''passwd'', ''adduser'', ''deluser'', ''gpasswd'']"

definition logTamperTools :: "string list" where
  "logTamperTools = [''shred'', ''wipe'', ''srm'']"

definition logHistoryFiles :: "string list" where
  "logHistoryFiles = [''wtmp'', ''btmp'', ''lastlog'', ''utmp'', ''auth.log'', ''secure'',
     ''audit.log'', ''.bash_history'', ''.zsh_history'', ''_history'']"

definition hostTmpExecDirs :: "string list" where
  "hostTmpExecDirs = [''/tmp/'', ''/dev/shm/'', ''/var/tmp/'']"

definition buildLineageComms :: "string list" where
  "buildLineageComms = [''dpkg'', ''apt'', ''apt-get'', ''rpm'', ''yum'', ''dnf'', ''make'',
     ''gcc'', ''cc'', ''go'', ''cargo'', ''npm'', ''yarn'', ''pip'', ''pip3'', ''cloud-init'']"

definition dockerSockClients :: "string list" where
  "dockerSockClients = [''dockerd'', ''docker'', ''containerd'', ''containerd-shim'',
     ''containerd-shim-runc-v2'', ''runc'', ''com.docker.cli'', ''docker-compose'',
     ''docker-proxy'', ''kernelwatch'']"

definition interactiveBenignPriv :: "string list" where
  "interactiveBenignPriv = [''sudo'', ''su'', ''newgrp'']"

section \<open>The classifier\<close>

record classifier =
  cl_trusted :: "string list"
  cl_network :: "string list"
  cl_hostTrusted :: "string list"
  cl_interactive :: "string list"
  cl_trustedWriters :: "string list"
  cl_dockerClients :: "string list"

text \<open>The closure \<open>fill\<close>: trimmed, lower-cased, blank entries skipped.\<close>

definition fill :: "string list \<Rightarrow> string list list \<Rightarrow> string list" where
  "fill m lss = m @ filter (\<lambda>s. s \<noteq> []) (map (\<lambda>p. to_lower (trim_space p)) (concat lss))"

definition newClassifier :: "config option \<Rightarrow> classifier" where
  "newClassifier cfg =
     (let extraTrusted = (case cfg of Some c \<Rightarrow> cfg_TrustedParents c | None \<Rightarrow> []);
          extraNetwork = (case cfg of Some c \<Rightarrow> cfg_NetworkParents c | None \<Rightarrow> []);
          hostParents = (case cfg of Some c \<Rightarrow> cfg_HostTrustedParents c | None \<Rightarrow> []);
          hostWriters = (case cfg of Some c \<Rightarrow> cfg_HostTrustedWriters c | None \<Rightarrow> []);
          dockerClients = (case cfg of Some c \<Rightarrow> cfg_HostDockerClients c | None \<Rightarrow> [])
      in \<lparr>cl_trusted = fill [] [defaultTrustedParents, extraTrusted],
          cl_network = fill [] [defaultNetworkParents, extraNetwork],
          cl_hostTrusted = fill [] [hostParents],
          cl_interactive = fill [] [defaultInteractiveParents],
          cl_trustedWriters = fill [] [defaultHostTrustedWriters, hostWriters],
          cl_dockerClients = fill dockerSockClients [dockerClients]\<rparr>)"

definition isDockerClient :: "classifier \<Rightarrow> string \<Rightarrow> bool" where
  "isDockerClient c comm \<longleftrightarrow> to_lower comm \<in> set (cl_dockerClients c)"

datatype lineage = lineageUnknown | lineageTrusted | lineageInteractive | lineageNetwork

fun classify_loop :: "classifier \<Rightarrow> scope \<Rightarrow> bool \<Rightarrow> bool \<Rightarrow> string list \<Rightarrow> lineage" where
  "classify_loop c scope trusted interactive [] =
     (if interactive then lineageInteractive
      else if trusted then lineageTrusted
      else lineageUnknown)"
| "classify_loop c scope trusted interactive (a # anc) =
     (let la = to_lower a in
      if la \<in> set (cl_network c) then lineageNetwork
      else classify_loop c scope
        (trusted \<or> la \<in> set (cl_trusted c) \<or> (scope = ScopeHost \<and> la \<in> set (cl_hostTrusted c)))
        (interactive \<or> la \<in> set (cl_interactive c)) anc)"

definition classify :: "classifier \<Rightarrow> string list \<Rightarrow> scope \<Rightarrow> lineage" where
  "classify c ancestry scope = classify_loop c scope False False ancestry"

definition trustedWriter :: "classifier \<Rightarrow> string list \<Rightarrow> bool" where
  "trustedWriter c ancestry \<longleftrightarrow> list_ex (\<lambda>a. to_lower a \<in> set (cl_trustedWriters c)) ancestry"

fun networkParent :: "classifier \<Rightarrow> string list \<Rightarrow> string" where
  "networkParent c [] = []"
| "networkParent c (a # anc) =
     (if to_lower a \<in> set (cl_network c) then a else networkParent c anc)"

section \<open>The adapter to the rule engine\<close>

definition adapter_Classify :: "classifier \<Rightarrow> string list \<Rightarrow> bool \<Rightarrow> Lineage" where
  "adapter_Classify c ancestry host =
     (let s = (if host then ScopeHost else ScopeContainer) in
      case classify c ancestry s of
        lineageNetwork \<Rightarrow> LineageNetwork
      | lineageInteractive \<Rightarrow> LineageInteractive
      | lineageTrusted \<Rightarrow> LineageTrusted
      | lineageUnknown \<Rightarrow> LineageUnknown)"

definition lineageAdapter :: "classifier \<Rightarrow> provider" where
  "lineageAdapter c = \<lparr>p_Classify = adapter_Classify c, p_TrustedWriter = trustedWriter c,
     p_NetworkParent = networkParent c, p_IsDockerClient = isDockerClient c\<rparr>"

section \<open>Specification: the precedence of the lineages\<close>

definition touches :: "string list \<Rightarrow> string list \<Rightarrow> bool" where
  "touches m ancestry \<longleftrightarrow> (\<exists>a \<in> set ancestry. to_lower a \<in> set m)"

lemma touches_simps [simp]:
  "\<not> touches m []"
  "touches m (a # anc) \<longleftrightarrow> to_lower a \<in> set m \<or> touches m anc"
  by (simp_all add: touches_def)

lemma classify_loop_eq:
  "classify_loop c s t i anc =
     (if touches (cl_network c) anc then lineageNetwork
      else if i \<or> touches (cl_interactive c) anc then lineageInteractive
      else if t \<or> touches (cl_trusted c) anc \<or> (s = ScopeHost \<and> touches (cl_hostTrusted c) anc)
        then lineageTrusted
      else lineageUnknown)"
  by (induction anc arbitrary: t i) (auto simp: Let_def)

lemma classify_eq:
  "classify c anc s =
     (if touches (cl_network c) anc then lineageNetwork
      else if touches (cl_interactive c) anc then lineageInteractive
      else if touches (cl_trusted c) anc \<or> (s = ScopeHost \<and> touches (cl_hostTrusted c) anc)
        then lineageTrusted
      else lineageUnknown)"
  by (simp add: classify_def classify_loop_eq)

lemma classify_network_iff: "classify c anc s = lineageNetwork \<longleftrightarrow> touches (cl_network c) anc"
  by (simp add: classify_eq)

lemma fill_nonempty: "[] \<notin> set m \<Longrightarrow> [] \<notin> set (fill m lss)"
  by (auto simp: fill_def)

lemma fill_lower: "x \<in> set (fill m lss) \<Longrightarrow> (\<And>y. y \<in> set m \<Longrightarrow> to_lower y = y) \<Longrightarrow> to_lower x = x"
  by (auto simp: fill_def)

text \<open>No key of a classifier that \<open>newClassifier\<close> builds is empty.\<close>

definition classifier_ok :: "classifier \<Rightarrow> bool" where
  "classifier_ok c \<longleftrightarrow> [] \<notin> set (cl_network c)"

lemma newClassifier_ok: "classifier_ok (newClassifier cfg)"
  by (simp add: classifier_ok_def newClassifier_def Let_def fill_nonempty)

lemma networkParent_iff:
  "classifier_ok c \<Longrightarrow> networkParent c anc \<noteq> [] \<longleftrightarrow> touches (cl_network c) anc"
  by (induction anc) (auto simp: classifier_ok_def)

lemma networkParent_member: "networkParent c anc \<noteq> [] \<Longrightarrow> networkParent c anc \<in> set anc"
  by (induction anc) auto

lemma adapter_network_iff:
  "adapter_Classify c anc host = LineageNetwork \<longleftrightarrow> touches (cl_network c) anc"
  by (simp add: adapter_Classify_def classify_eq Let_def)

lemma touches_mono: "touches m xs \<Longrightarrow> set xs \<subseteq> set ys \<Longrightarrow> touches m ys"
  by (auto simp: touches_def)

lemma trustedWriter_touches: "trustedWriter c xs \<longleftrightarrow> touches (cl_trustedWriters c) xs"
  by (simp add: trustedWriter_def touches_def list_ex_iff)

interpretation adapter: lineage_provider "lineageAdapter (newClassifier cfg)" for cfg
proof
  fix anc anc' :: "string list" and host xs ys
  note simps = lineageAdapter_def adapter_network_iff trustedWriter_touches
  show "p_NetworkParent (lineageAdapter (newClassifier cfg)) anc \<noteq> [] \<longleftrightarrow>
      p_Classify (lineageAdapter (newClassifier cfg)) anc host = LineageNetwork"
    by (simp add: simps networkParent_iff newClassifier_ok)
  show "p_NetworkParent (lineageAdapter (newClassifier cfg)) anc \<in> set anc"
    if "p_NetworkParent (lineageAdapter (newClassifier cfg)) anc \<noteq> []"
    using that by (simp add: simps networkParent_member)
  show "p_Classify (lineageAdapter (newClassifier cfg)) anc' host = LineageNetwork"
    if "p_Classify (lineageAdapter (newClassifier cfg)) anc host = LineageNetwork"
      and "set anc \<subseteq> set anc'"
    using that by (simp add: simps touches_mono)
  show "p_TrustedWriter (lineageAdapter (newClassifier cfg)) ys"
    if "p_TrustedWriter (lineageAdapter (newClassifier cfg)) xs" and "set xs \<subseteq> set ys"
    using that by (simp add: simps touches_mono)
qed

section \<open>Properties\<close>

text \<open>
  The lineage of an event is decided by precedence, whatever the order of its ancestors: a
  network-facing ancestor wins over an interactive one, that over a trusted one, and the
  host-only trusted parents count in the host scope only.
\<close>

theorem classify_precedence:
  "classify c anc s =
     (if \<exists>a \<in> set anc. to_lower a \<in> set (cl_network c) then lineageNetwork
      else if \<exists>a \<in> set anc. to_lower a \<in> set (cl_interactive c) then lineageInteractive
      else if \<exists>a \<in> set anc. to_lower a \<in> set (cl_trusted c) \<or>
          s = ScopeHost \<and> to_lower a \<in> set (cl_hostTrusted c) then lineageTrusted
      else lineageUnknown)"
  unfolding classify_eq touches_def by (simp add: bex_disj_distrib)

text \<open>
  What the detector hands the rule engine keeps its contract for every configuration: the
  network parent is named exactly when the lineage is network-facing, in either scope, and the name
  is one of the ancestors.
\<close>

theorem adapter_network_contract:
  "((p_NetworkParent (lineageAdapter (newClassifier cfg)) anc \<noteq> []) =
      (p_Classify (lineageAdapter (newClassifier cfg)) anc host = LineageNetwork)) \<and>
   p_NetworkParent (lineageAdapter (newClassifier cfg)) anc \<in> insert [] (set anc)"
  using adapter.network_parent_iff adapter.network_parent_member by blast

end
