(* ===== verification/DefaultRules.thy ===== *)
theory DefaultRules
  imports Loader Classifier
begin

text \<open>
  The embedded ruleset, \<open>internal/ruleengine/default.yaml\<close>, as the document the YAML decoder returns
  for it (folded scalars keep the line breaks around more-indented lines), and its compilation.
\<close>

section \<open>The document\<close>

definition def_lists :: "(string \<times> string list) list" where
  "def_lists =
     [(''shells'', [''sh'', ''bash'', ''zsh'', ''fish'', ''dash'', ''ash'', ''ksh'', ''tcsh'']),
      (''net_tools'', [''nmap'', ''masscan'', ''netcat'', ''nc'', ''ncat'', ''socat'', ''tcpdump'',
       ''wireshark'', ''tshark'', ''curl'', ''wget'']),
      (''high_net_tools'', [''nmap'', ''masscan'']),
      (''pkg_managers'', [''apt'', ''apt-get'', ''dpkg'', ''yum'', ''dnf'', ''rpm'', ''apk'', ''pip'',
       ''pip3'', ''npm'', ''yarn'', ''gem'']),
      (''priv_tools'', [''sudo'', ''su'', ''nsenter'', ''unshare'', ''chroot'', ''capsh'', ''setuid'',
       ''newgrp'']),
      (''interactive_benign_priv'', [''sudo'', ''su'', ''newgrp'']),
      (''user_mgmt_tools'', [''useradd'', ''usermod'', ''userdel'', ''groupadd'', ''groupmod'',
       ''groupdel'', ''chpasswd'', ''passwd'', ''adduser'', ''deluser'', ''gpasswd'']),
      (''log_tamper_tools'', [''shred'', ''wipe'', ''srm'']),
      (''log_history_files'', [''wtmp'', ''btmp'', ''lastlog'', ''utmp'', ''auth.log'', ''secure'',
       ''audit.log'', ''.bash_history'', ''.zsh_history'', ''_history'']),
      (''host_tmp_dirs'', [''/tmp/'', ''/dev/shm/'', ''/var/tmp/'']),
      (''writable_exec_dirs'', [''/tmp/'', ''/dev/shm/'', ''/var/tmp/'', ''/run/'']),
      (''build_lineage'', [''dpkg'', ''apt'', ''apt-get'', ''rpm'', ''yum'', ''dnf'', ''make'', ''gcc'',
       ''cc'', ''go'', ''cargo'', ''npm'', ''yarn'', ''pip'', ''pip3'', ''cloud-init'']),
      (''sensitive_files'', [''/etc/shadow'', ''/etc/passwd'', ''/etc/sudoers'', ''/root/.ssh'',
       ''/var/run/docker.sock'', ''/.dockerenv'', ''/proc/sysrq-trigger'', ''/proc/kcore'']),
      (''cred_files'', [''/.env'', ''/.aws/credentials'', ''/.gcloud/credentials'', ''/run/secrets'',
       ''/.kube/config'']),
      (''persistence_files'', [''/etc/cron'', ''/var/spool/cron'', ''/etc/systemd/'',
       ''/lib/systemd/system/'', ''/usr/lib/systemd/system/'', ''/etc/init.d/'', ''/etc/rc.local'',
       ''/etc/update-motd.d/'', ''/etc/profile.d/'', ''/etc/ld.so.preload'', ''/etc/ld.so.conf'',
       ''/root/.ssh/authorized_keys'', ''/etc/sudoers.d/'', ''/etc/passwd'', ''/etc/shadow'']),
      (''host_persistence_prefixes'', [''/etc/cron'', ''/var/spool/cron'', ''/etc/systemd/'',
       ''/lib/systemd/system/'', ''/usr/lib/systemd/system/'', ''/etc/init.d/'', ''/etc/rc.local'',
       ''/etc/update-motd.d/'', ''/etc/profile.d/'', ''/etc/ld.so.preload'', ''/etc/ld.so.conf'',
       ''/etc/ssh/'', ''/etc/sudoers'', ''/etc/pam.d/'', ''/etc/modules-load.d/'',
       ''/root/.ssh/authorized_keys'']),
      (''host_persistence_substrings'', [''/.ssh/authorized_keys''])]"

definition def_macros :: "(string \<times> string) list" where
  "def_macros = [(''is_execve'', ''evt.type = execve''), (''spawns_shell'',
       ''is_execve and in_list(proc.exe_base, $shells)'')]"

definition spec_kernel_module_load :: rule_spec where
  "spec_kernel_module_load = \<lparr>
     rs_ID = ''kernel_module_load'', rs_Desc = ''Kernel module loaded'', rs_Scope = ''all'',
     rs_Tactic = ''Persistence'', rs_Technique = ''T1547.006'', rs_Tags = [''rootkit'', ''kernel''],
       rs_Enabled = None,
     rs_Condition = ''evt.type = init_module'',
     rs_Severity = [], rs_Reason = [], rs_Details = [],
     rs_Lineage = [\<lparr>as_When = [''any''],
       as_And = ''scope = host and (is_trusted_writer or lineage = trusted)'', as_Action = ''suppress'',
       as_Severity = [],
         as_Reason = [],
         as_Details = []\<rparr>,
       \<lparr>as_When = [''any''], as_And = ''scope = host'', as_Action = [], as_Severity = ''high'',
         as_Reason = ''kernel module loaded on host from untrusted lineage (possible rootkit)'',
         as_Details = []\<rparr>,
       \<lparr>as_When = [''any''], as_And = [], as_Action = [], as_Severity = ''critical'',
         as_Reason = ''kernel module loaded from container (possible rootkit)'',
         as_Details = []\<rparr>],
     rs_Exceptions = [], rs_Append = False, rs_Override = False\<rparr>"

definition spec_bpf_prog_load :: rule_spec where
  "spec_bpf_prog_load = \<lparr>
     rs_ID = ''bpf_prog_load'', rs_Desc = ''eBPF program loaded'', rs_Scope = ''all'',
     rs_Tactic = ''Defense Evasion'', rs_Technique = ''T1562.001'', rs_Tags = [''ebpf'', ''evasion''],
       rs_Enabled = None,
     rs_Condition = ''evt.type = bpf and bpf.cmd = 5'',
     rs_Severity = [], rs_Reason = [], rs_Details = [],
     rs_Lineage = [\<lparr>as_When = [''any''], as_And = ''scope = host and is_trusted_writer'',
       as_Action = ''suppress'', as_Severity = [],
         as_Reason = [],
         as_Details = []\<rparr>,
       \<lparr>as_When = [''any''], as_And = [], as_Action = [], as_Severity = ''high'',
         as_Reason = ''eBPF program loaded (possible evasion/rootkit)'',
         as_Details = [(''bpf_cmd'', ''bpf.cmd'')]\<rparr>],
     rs_Exceptions = [], rs_Append = False, rs_Override = False\<rparr>"

definition spec_reverse_shell :: rule_spec where
  "spec_reverse_shell = \<lparr>
     rs_ID = ''reverse_shell'', rs_Desc = ''Reverse-shell / remote-exec pattern in command line'',
       rs_Scope = ''all'',
     rs_Tactic = ''Execution'', rs_Technique = ''T1059'', rs_Tags = [''reverse-shell'', ''c2''],
       rs_Enabled = None,
     rs_Condition = ''is_execve and proc.cmdline != \"\" and reverse_shell(proc.cmdline)'',
     rs_Severity = ''critical'', rs_Reason = ''reverse-shell pattern detected in command line'',
       rs_Details = [(''cmdline'', ''proc.cmdline'')],
     rs_Lineage = [],
     rs_Exceptions = [], rs_Append = False, rs_Override = False\<rparr>"

definition spec_process_injection :: rule_spec where
  "spec_process_injection = \<lparr>
     rs_ID = ''process_injection'', rs_Desc = ''ptrace-based process injection/manipulation'',
       rs_Scope = ''all'',
     rs_Tactic = ''Privilege Escalation'', rs_Technique = ''T1055.008'', rs_Tags = [''injection''],
       rs_Enabled = None,
     rs_Condition = ''evt.type = ptrace and ptrace.request in [4, 5, 6, 13, 16, 0x4206]'',
     rs_Severity = ''high'', rs_Reason = ''ptrace process injection/manipulation'',
       rs_Details = [(''request'', ''ptrace.request''), (''target_pid'', ''ptrace.target'')],
     rs_Lineage = [],
     rs_Exceptions = [], rs_Append = False, rs_Override = False\<rparr>"

definition spec_persistence :: rule_spec where
  "spec_persistence = \<lparr>
     rs_ID = ''persistence'', rs_Desc = ''Write to a persistence-sensitive location'', rs_Scope = ''all'',
     rs_Tactic = ''Persistence'', rs_Technique = ''T1543'', rs_Tags = [''persistence''], rs_Enabled = None,
     rs_Condition = ''evt.type = open and evt.is_open_write and ('' @
       CHR 0x0A # ''  (scope = container and has_prefix(fd.name, $persistence_files)) or'' @
       CHR 0x0A # ''  (scope = host and (has_prefix(fd.name, $host_persistence_prefixes) or'' @
       CHR 0x0A # ''                     contains_any(fd.name, $host_persistence_substrings)))'' @
       CHR 0x0A # '')'',
     rs_Severity = [], rs_Reason = [], rs_Details = [],
     rs_Lineage = [\<lparr>as_When = [''any''], as_And = ''scope = host and is_trusted_writer'',
       as_Action = ''suppress'', as_Severity = [],
         as_Reason = [],
         as_Details = []\<rparr>,
       \<lparr>as_When = [''any''], as_And = ''fd.name startswith \"/etc/ld.so.preload\"'', as_Action = [],
       as_Severity = ''critical'',
         as_Reason = ''write to persistence-sensitive location'',
         as_Details = [(''file'', ''fd.name'')]\<rparr>,
       \<lparr>as_When = [''any''], as_And = [], as_Action = [], as_Severity = ''high'',
         as_Reason = ''write to persistence-sensitive location'',
         as_Details = [(''file'', ''fd.name'')]\<rparr>],
     rs_Exceptions = [], rs_Append = False, rs_Override = False\<rparr>"

definition spec_shell_in_container :: rule_spec where
  "spec_shell_in_container = \<lparr>
     rs_ID = ''shell_in_container'', rs_Desc = ''Shell executed inside a container'',
       rs_Scope = ''container'',
     rs_Tactic = ''Execution'', rs_Technique = ''T1059'', rs_Tags = [''container'', ''shell''],
       rs_Enabled = None,
     rs_Condition = ''spawns_shell'',
     rs_Severity = [], rs_Reason = [], rs_Details = [],
     rs_Lineage = [\<lparr>as_When = [''network''], as_And = [], as_Action = [], as_Severity = ''critical'',
         as_Reason = ''interactive shell spawned by network-facing service (possible RCE/web-shell)'',
         as_Details = [(''shell'', ''proc.exe_base''), (''spawned_by'', ''lineage.network_parent'')]\<rparr>,
       \<lparr>as_When = [''trusted''], as_And = [], as_Action = ''suppress'', as_Severity = [],
         as_Reason = [],
         as_Details = []\<rparr>,
       \<lparr>as_When = [''unknown'', ''interactive''], as_And = [], as_Action = [], as_Severity = ''high'',
         as_Reason = ''shell execution inside container'',
         as_Details = [(''shell'', ''proc.exe_base'')]\<rparr>],
     rs_Exceptions = [], rs_Append = False, rs_Override = False\<rparr>"

definition spec_privilege_escalation :: rule_spec where
  "spec_privilege_escalation = \<lparr>
     rs_ID = ''privilege_escalation'', rs_Desc = ''Privilege-escalation tool executed'', rs_Scope = ''all'',
     rs_Tactic = ''Privilege Escalation'', rs_Technique = ''T1548'', rs_Tags = [''privesc''],
       rs_Enabled = None,
     rs_Condition = ''is_execve and in_list(proc.exe_base, $priv_tools)'',
     rs_Severity = [], rs_Reason = [], rs_Details = [],
     rs_Lineage = [\<lparr>as_When = [''network''], as_And = [], as_Action = [], as_Severity = ''critical'',
         as_Reason = ''privilege escalation tool spawned by network-facing service'',
         as_Details = [(''tool'', ''proc.exe_base''), (''spawned_by'', ''lineage.network_parent'')]\<rparr>,
       \<lparr>as_When = [''trusted''], as_And = [], as_Action = ''suppress'', as_Severity = [],
         as_Reason = [],
         as_Details = []\<rparr>,
       \<lparr>as_When = [''interactive''], as_And = ''in_list(proc.exe_base, $interactive_benign_priv)'',
       as_Action = ''suppress'', as_Severity = [],
         as_Reason = [],
         as_Details = []\<rparr>,
       \<lparr>as_When = [''interactive''], as_And = [], as_Action = [], as_Severity = ''high'',
         as_Reason = ''privilege/namespace tool executed in interactive session'',
         as_Details = [(''tool'', ''proc.exe_base'')]\<rparr>,
       \<lparr>as_When = [''unknown''], as_And = [], as_Action = [], as_Severity = ''high'',
         as_Reason = ''privilege escalation tool executed'',
         as_Details = [(''tool'', ''proc.exe_base'')]\<rparr>],
     rs_Exceptions = [], rs_Append = False, rs_Override = False\<rparr>"

definition spec_network_tool :: rule_spec where
  "spec_network_tool = \<lparr>
     rs_ID = ''network_tool'', rs_Desc = ''Network/recon tool executed'', rs_Scope = ''all'',
     rs_Tactic = ''Discovery'', rs_Technique = ''T1046'', rs_Tags = [''network''], rs_Enabled = None,
     rs_Condition = ''is_execve and in_list(proc.exe_base, $net_tools)'',
     rs_Severity = [], rs_Reason = [], rs_Details = [],
     rs_Lineage = [\<lparr>as_When = [''network''], as_And = [], as_Action = [], as_Severity = ''high'',
         as_Reason = ''network tool spawned by network-facing service (possible post-exploitation)'',
         as_Details = [(''tool'', ''proc.exe_base''), (''spawned_by'', ''lineage.network_parent'')]\<rparr>,
       \<lparr>as_When = [''trusted''], as_And = [], as_Action = ''suppress'', as_Severity = [],
         as_Reason = [],
         as_Details = []\<rparr>,
       \<lparr>as_When = [''interactive''], as_And = ''in_list(proc.exe_base, $high_net_tools)'',
       as_Action = [], as_Severity = ''high'',
         as_Reason = ''recon scanner executed in interactive session'',
         as_Details = [(''tool'', ''proc.exe_base'')]\<rparr>,
       \<lparr>as_When = [''interactive''], as_And = [], as_Action = ''suppress'', as_Severity = [],
         as_Reason = [],
         as_Details = []\<rparr>,
       \<lparr>as_When = [''unknown''], as_And = ''in_list(proc.exe_base, $high_net_tools)'',
       as_Action = [], as_Severity = ''high'',
         as_Reason = ''network tool executed'',
         as_Details = [(''tool'', ''proc.exe_base'')]\<rparr>,
       \<lparr>as_When = [''unknown''], as_And = [], as_Action = [], as_Severity = ''medium'',
         as_Reason = ''network tool executed'',
         as_Details = [(''tool'', ''proc.exe_base'')]\<rparr>],
     rs_Exceptions = [], rs_Append = False, rs_Override = False\<rparr>"

definition spec_container_drift :: rule_spec where
  "spec_container_drift = \<lparr>
     rs_ID = ''container_drift'', rs_Desc = ''Execution of a binary from a writable/ephemeral path'',
       rs_Scope = ''container'',
     rs_Tactic = ''Defense Evasion'', rs_Technique = ''T1036'', rs_Tags = [''container'', ''drift''],
       rs_Enabled = None,
     rs_Condition = ''is_execve and proc.exe_path != \"\" and has_prefix(proc.exe_path, $writable_exec_dirs)'',
     rs_Severity = ''high'', rs_Reason = ''binary executed from writable/ephemeral path'',
       rs_Details = [(''path'', ''proc.exe_path'')],
     rs_Lineage = [],
     rs_Exceptions = [], rs_Append = False, rs_Override = False\<rparr>"

definition spec_package_manager :: rule_spec where
  "spec_package_manager = \<lparr>
     rs_ID = ''package_manager'', rs_Desc = ''Package manager executed in a running environment'',
       rs_Scope = ''all'',
     rs_Tactic = ''Execution'', rs_Technique = ''T1072'', rs_Tags = [''package-manager''], rs_Enabled = None,
     rs_Condition = ''is_execve and in_list(proc.exe_base, $pkg_managers)'',
     rs_Severity = [], rs_Reason = [], rs_Details = [],
     rs_Lineage = [\<lparr>as_When = [''network''], as_And = ''scope = host'', as_Action = [],
       as_Severity = ''critical'',
         as_Reason = ''package manager spawned by network-facing service (attacker installing tools)'',
         as_Details = [(''package_manager'', ''proc.exe_base''), (''spawned_by'',
       ''lineage.network_parent'')]\<rparr>,
       \<lparr>as_When = [''network''], as_And = [], as_Action = [], as_Severity = ''high'',
         as_Reason = ''package manager spawned by network-facing service (attacker installing tools)'',
         as_Details = [(''package_manager'', ''proc.exe_base''), (''spawned_by'',
       ''lineage.network_parent'')]\<rparr>,
       \<lparr>as_When = [''any''], as_And = ''scope = host'', as_Action = ''suppress'', as_Severity = [],
         as_Reason = [],
         as_Details = []\<rparr>,
       \<lparr>as_When = [''trusted''], as_And = [], as_Action = ''suppress'', as_Severity = [],
         as_Reason = [],
         as_Details = []\<rparr>,
       \<lparr>as_When = [''unknown'', ''interactive''], as_And = [], as_Action = [],
       as_Severity = ''medium'',
         as_Reason = ''package manager executed inside running container'',
         as_Details = [(''package_manager'', ''proc.exe_base'')]\<rparr>],
     rs_Exceptions = [], rs_Append = False, rs_Override = False\<rparr>"

definition spec_sensitive_file :: rule_spec where
  "spec_sensitive_file = \<lparr>
     rs_ID = ''sensitive_file'', rs_Desc = ''Sensitive file accessed'', rs_Scope = ''all'',
     rs_Tactic = ''Collection'', rs_Technique = ''T1005'', rs_Tags = [''file''], rs_Enabled = None,
     rs_Condition = ''evt.type = open and has_prefix(fd.name, $sensitive_files) and ('' @
       CHR 0x0A # ''  scope = container or'' @
       CHR 0x0A # ''  (evt.is_open_write and not fd.name = \"/var/run/docker.sock\"'' @
       CHR 0x0A # ''   and not fd.name startswith \"/root/.ssh\")'' @ CHR 0x0A # '')'',
     rs_Severity = [], rs_Reason = [], rs_Details = [],
     rs_Lineage = [\<lparr>as_When = [''any''], as_And = ''fd.name = \"/var/run/docker.sock\"'',
       as_Action = [], as_Severity = ''critical'',
         as_Reason = ''docker socket accessed by container (container-escape vector)'',
         as_Details = [(''file'', ''fd.name'')]\<rparr>,
       \<lparr>as_When = [''any''], as_And = [], as_Action = [], as_Severity = ''medium'',
         as_Reason = ''sensitive file accessed'',
         as_Details = [(''file'', ''fd.name'')]\<rparr>],
     rs_Exceptions = [], rs_Append = False, rs_Override = False\<rparr>"

definition spec_credential_file :: rule_spec where
  "spec_credential_file = \<lparr>
     rs_ID = ''credential_file'', rs_Desc = ''Credential file accessed'', rs_Scope = ''all'',
     rs_Tactic = ''Credential Access'', rs_Technique = ''T1552'', rs_Tags = [''credentials''],
       rs_Enabled = None,
     rs_Condition = ''evt.type = open and contains_any(fd.name, $cred_files)'',
     rs_Severity = ''high'', rs_Reason = ''credential file accessed'', rs_Details = [(''file'', ''fd.name'')],
     rs_Lineage = [],
     rs_Exceptions = [], rs_Append = False, rs_Override = False\<rparr>"

definition spec_host_user_manipulation :: rule_spec where
  "spec_host_user_manipulation = \<lparr>
     rs_ID = ''host_user_manipulation'', rs_Desc = ''User/group account manipulation on host'',
       rs_Scope = ''host'',
     rs_Tactic = ''Persistence'', rs_Technique = ''T1136.001'', rs_Tags = [''host'', ''accounts''],
       rs_Enabled = None,
     rs_Condition = ''is_execve and in_list(proc.exe_base, $user_mgmt_tools)'',
     rs_Severity = [], rs_Reason = [], rs_Details = [],
     rs_Lineage = [\<lparr>as_When = [''network''], as_And = [], as_Action = [], as_Severity = ''critical'',
         as_Reason = ''account manipulation by network-facing service (backdoor account)'',
         as_Details = [(''tool'', ''proc.exe_base''), (''spawned_by'', ''lineage.network_parent'')]\<rparr>,
       \<lparr>as_When = [''interactive''], as_And = [], as_Action = [], as_Severity = ''low'',
         as_Reason = ''account management in interactive admin session'',
         as_Details = [(''tool'', ''proc.exe_base'')]\<rparr>,
       \<lparr>as_When = [''unknown'', ''trusted''], as_And = [], as_Action = [], as_Severity = ''medium'',
         as_Reason = ''account manipulation on host'',
         as_Details = [(''tool'', ''proc.exe_base'')]\<rparr>],
     rs_Exceptions = [], rs_Append = False, rs_Override = False\<rparr>"

definition spec_host_log_tampering :: rule_spec where
  "spec_host_log_tampering = \<lparr>
     rs_ID = ''host_log_tampering'', rs_Desc = ''Log / forensic artifact tampering on host'',
       rs_Scope = ''host'',
     rs_Tactic = ''Defense Evasion'', rs_Technique = ''T1070'', rs_Tags = [''host'', ''anti-forensics''],
       rs_Enabled = None,
     rs_Condition = ''(is_execve and in_list(proc.exe_base, $log_tamper_tools)) or (evt.type = open and evt.is_open_write and'' @ CHR 0x0A # '' (fd.name startswith \"/var/log\" or contains_any(fd.name, $log_history_files)))'',
     rs_Severity = [], rs_Reason = [], rs_Details = [],
     rs_Lineage = [\<lparr>as_When = [''any''],
       as_And = ''is_execve and contains_any(proc.cmdline_lc, $log_history_files)'', as_Action = [],
       as_Severity = ''high'',
         as_Reason = ''forensic artifact wiped with shred/wipe'',
         as_Details = [(''tool'', ''proc.exe_base''), (''cmdline'', ''proc.cmdline'')]\<rparr>,
       \<lparr>as_When = [''any''], as_And = ''is_execve'', as_Action = [], as_Severity = ''medium'',
         as_Reason = ''file-wiping tool executed on host'',
         as_Details = [(''tool'', ''proc.exe_base'')]\<rparr>,
       \<lparr>as_When = [''any''], as_And = ''is_trusted_writer'', as_Action = ''suppress'',
       as_Severity = [],
         as_Reason = [],
         as_Details = []\<rparr>,
       \<lparr>as_When = [''any''],
       as_And = ''evt.is_open_trunc or contains_any(fd.name, $log_history_files)'', as_Action = [],
       as_Severity = ''high'',
         as_Reason = ''log/forensic file truncated or modified on host'',
         as_Details = [(''file'', ''fd.name'')]\<rparr>,
       \<lparr>as_When = [''any''], as_And = [], as_Action = [], as_Severity = ''medium'',
         as_Reason = ''unexpected write to /var/log on host'',
         as_Details = [(''file'', ''fd.name'')]\<rparr>],
     rs_Exceptions = [], rs_Append = False, rs_Override = False\<rparr>"

definition spec_host_docker_sock :: rule_spec where
  "spec_host_docker_sock = \<lparr>
     rs_ID = ''host_docker_sock'', rs_Desc = ''Docker control socket opened by non-Docker process'',
       rs_Scope = ''host'',
     rs_Tactic = ''Privilege Escalation'', rs_Technique = ''T1610'', rs_Tags = [''host'', ''docker'',
       ''escape''], rs_Enabled = None,
     rs_Condition = ''evt.type = open and (fd.name = \"/var/run/docker.sock\" or fd.name = \"/run/docker.sock\")'',
     rs_Severity = [], rs_Reason = [], rs_Details = [],
     rs_Lineage = [\<lparr>as_When = [''any''], as_And = ''is_docker_client(proc.name)'',
       as_Action = ''suppress'', as_Severity = [],
         as_Reason = [],
         as_Details = []\<rparr>,
       \<lparr>as_When = [''any''], as_And = [], as_Action = [], as_Severity = ''high'',
         as_Reason = ''Docker control socket opened by non-Docker process on host (escape / lateral movement)'',
         as_Details = [(''process'', ''proc.name''), (''file'', ''fd.name'')]\<rparr>],
     rs_Exceptions = [], rs_Append = False, rs_Override = False\<rparr>"

definition spec_host_tmp_exec :: rule_spec where
  "spec_host_tmp_exec = \<lparr>
     rs_ID = ''host_tmp_exec'', rs_Desc = ''Execution from a world-writable temp dir on host'',
       rs_Scope = ''host'',
     rs_Tactic = ''Execution'', rs_Technique = ''T1204.002'', rs_Tags = [''host'', ''drift''],
       rs_Enabled = None,
     rs_Condition = ''is_execve and proc.exe_path != \"\" and has_prefix(proc.exe_path, $host_tmp_dirs) and not chain_in_list($build_lineage) and not is_trusted_writer'',
     rs_Severity = ''high'', rs_Reason = ''binary executed from world-writable temp dir on host'',
       rs_Details = [(''path'', ''proc.exe_path'')],
     rs_Lineage = [],
     rs_Exceptions = [], rs_Append = False, rs_Override = False\<rparr>"

definition spec_host_shell_from_service :: rule_spec where
  "spec_host_shell_from_service = \<lparr>
     rs_ID = ''host_shell_from_service'', rs_Desc = ''Shell spawned by a network-facing service on host'',
       rs_Scope = ''host'',
     rs_Tactic = ''Execution'', rs_Technique = ''T1059'', rs_Tags = [''host'', ''shell'', ''rce''],
       rs_Enabled = None,
     rs_Condition = ''spawns_shell'',
     rs_Severity = [], rs_Reason = [], rs_Details = [],
     rs_Lineage = [\<lparr>as_When = [''network''], as_And = [], as_Action = [], as_Severity = ''critical'',
         as_Reason = ''shell spawned by network-facing service on host (possible RCE)'',
         as_Details = [(''shell'', ''proc.exe_base''), (''spawned_by'', ''lineage.network_parent'')]\<rparr>],
     rs_Exceptions = [], rs_Append = False, rs_Override = False\<rparr>"

definition default_file :: rule_file where
  "default_file = \<lparr>f_Lists = def_lists, f_AppendLists = [], f_Macros = def_macros,
     f_Rules = [spec_kernel_module_load, spec_bpf_prog_load, spec_reverse_shell, spec_process_injection,
       spec_persistence, spec_shell_in_container, spec_privilege_escalation, spec_network_tool,
       spec_container_drift, spec_package_manager, spec_sensitive_file, spec_credential_file,
       spec_host_user_manipulation, spec_host_log_tampering, spec_host_docker_sock, spec_host_tmp_exec,
       spec_host_shell_from_service]\<rparr>"

section \<open>The compiled ruleset\<close>

text \<open>
  What compilation makes of the document, with the lists of the detector (\<open>lists.go\<close>,
  \<open>lists_host.go\<close>) for those of the document: that they agree is part of what the lemmas check.
\<close>

definition rule_kernel_module_load :: compiled_rule where
  "rule_kernel_module_load = \<lparr>cr_ID = ''kernel_module_load'', cr_Scope = ScopeAll,
     cr_Tactic = ''Persistence'', cr_Technique = ''T1547.006'', cr_Tags = [''rootkit'', ''kernel''],
     cr_gate = PStrEq EvtType ''init_module'',
     cr_hasArms = True, cr_severity = [],
     cr_reason = [],
     cr_details = [],
     cr_arms = [
       \<lparr>ca_whenAny = True, ca_when = [], ca_guard = Some (PAnd (PStrEq FScope ''host'') (POr
         PTrustedWriter (PStrEq FLineage ''trusted''))), ca_suppress = True, ca_severity = [],
         ca_reason = [], ca_details = []\<rparr>,
       \<lparr>ca_whenAny = True, ca_when = [], ca_guard = Some (PStrEq FScope ''host''), ca_suppress =
         False, ca_severity = ''high'',
         ca_reason = ''kernel module loaded on host from untrusted lineage (possible rootkit)'',
           ca_details = []\<rparr>,
       \<lparr>ca_whenAny = True, ca_when = [], ca_guard = None, ca_suppress = False, ca_severity =
         ''critical'',
         ca_reason = ''kernel module loaded from container (possible rootkit)'', ca_details =
           []\<rparr>],
     cr_exceptions = []\<rparr>"

definition rule_bpf_prog_load :: compiled_rule where
  "rule_bpf_prog_load = \<lparr>cr_ID = ''bpf_prog_load'', cr_Scope = ScopeAll,
     cr_Tactic = ''Defense Evasion'', cr_Technique = ''T1562.001'', cr_Tags = [''ebpf'', ''evasion''],
     cr_gate = PAnd (PStrEq EvtType ''bpf'') (PIntEq BpfCmd 5),
     cr_hasArms = True, cr_severity = [],
     cr_reason = [],
     cr_details = [],
     cr_arms = [
       \<lparr>ca_whenAny = True, ca_when = [], ca_guard = Some (PAnd (PStrEq FScope ''host'')
         PTrustedWriter), ca_suppress = True, ca_severity = [],
         ca_reason = [], ca_details = []\<rparr>,
       \<lparr>ca_whenAny = True, ca_when = [], ca_guard = None, ca_suppress = False, ca_severity =
         ''high'',
         ca_reason = ''eBPF program loaded (possible evasion/rootkit)'', ca_details = [(''bpf_cmd'',
           ''bpf.cmd'')]\<rparr>],
     cr_exceptions = []\<rparr>"

definition rule_reverse_shell :: compiled_rule where
  "rule_reverse_shell = \<lparr>cr_ID = ''reverse_shell'', cr_Scope = ScopeAll,
     cr_Tactic = ''Execution'', cr_Technique = ''T1059'', cr_Tags = [''reverse-shell'', ''c2''],
     cr_gate = PAnd (PAnd (PStrEq EvtType ''execve'') (PStrNeq ProcCmdline [])) (PReverseShell
       ProcCmdline),
     cr_hasArms = False, cr_severity = ''critical'',
     cr_reason = ''reverse-shell pattern detected in command line'',
     cr_details = [(''cmdline'', ''proc.cmdline'')], cr_arms = [],
     cr_exceptions = []\<rparr>"

definition rule_process_injection :: compiled_rule where
  "rule_process_injection = \<lparr>cr_ID = ''process_injection'', cr_Scope = ScopeAll,
     cr_Tactic = ''Privilege Escalation'', cr_Technique = ''T1055.008'', cr_Tags = [''injection''],
     cr_gate = PAnd (PStrEq EvtType ''ptrace'') (PInInts PtraceRequest [4, 5, 6, 13, 16, 16902]),
     cr_hasArms = False, cr_severity = ''high'',
     cr_reason = ''ptrace process injection/manipulation'',
     cr_details = [(''request'', ''ptrace.request''), (''target_pid'', ''ptrace.target'')], cr_arms = [],
     cr_exceptions = []\<rparr>"

definition rule_persistence :: compiled_rule where
  "rule_persistence = \<lparr>cr_ID = ''persistence'', cr_Scope = ScopeAll,
     cr_Tactic = ''Persistence'', cr_Technique = ''T1543'', cr_Tags = [''persistence''],
     cr_gate = PAnd (PAnd (PStrEq EvtType ''open'') (PBool IsOpenWrite)) (POr (PAnd (PStrEq FScope
       ''container'') (PHasPrefix FdName persistenceFiles)) (PAnd (PStrEq FScope ''host'') (POr
       (PHasPrefix FdName hostPersistencePrefixes) (PContainsAny FdName hostPersistenceSubstrings)))),
     cr_hasArms = True, cr_severity = [],
     cr_reason = [],
     cr_details = [],
     cr_arms = [
       \<lparr>ca_whenAny = True, ca_when = [], ca_guard = Some (PAnd (PStrEq FScope ''host'')
         PTrustedWriter), ca_suppress = True, ca_severity = [],
         ca_reason = [], ca_details = []\<rparr>,
       \<lparr>ca_whenAny = True, ca_when = [], ca_guard = Some (PStartswith FdName
         ''/etc/ld.so.preload''), ca_suppress = False, ca_severity = ''critical'',
         ca_reason = ''write to persistence-sensitive location'', ca_details = [(''file'',
           ''fd.name'')]\<rparr>,
       \<lparr>ca_whenAny = True, ca_when = [], ca_guard = None, ca_suppress = False, ca_severity =
         ''high'',
         ca_reason = ''write to persistence-sensitive location'', ca_details = [(''file'',
           ''fd.name'')]\<rparr>],
     cr_exceptions = []\<rparr>"

definition rule_shell_in_container :: compiled_rule where
  "rule_shell_in_container = \<lparr>cr_ID = ''shell_in_container'', cr_Scope = ScopeContainer,
     cr_Tactic = ''Execution'', cr_Technique = ''T1059'', cr_Tags = [''container'', ''shell''],
     cr_gate = PAnd (PStrEq EvtType ''execve'') (PInSet ProcExeBase shells),
     cr_hasArms = True, cr_severity = [],
     cr_reason = [],
     cr_details = [],
     cr_arms = [
       \<lparr>ca_whenAny = False, ca_when = [LineageNetwork], ca_guard = None, ca_suppress = False,
         ca_severity = ''critical'',
         ca_reason = ''interactive shell spawned by network-facing service (possible RCE/web-shell)'',
           ca_details = [(''shell'', ''proc.exe_base''), (''spawned_by'',
           ''lineage.network_parent'')]\<rparr>,
       \<lparr>ca_whenAny = False, ca_when = [LineageTrusted], ca_guard = None, ca_suppress = True,
         ca_severity = [],
         ca_reason = [], ca_details = []\<rparr>,
       \<lparr>ca_whenAny = False, ca_when = [LineageInteractive, LineageUnknown], ca_guard = None,
         ca_suppress = False, ca_severity = ''high'',
         ca_reason = ''shell execution inside container'', ca_details = [(''shell'',
           ''proc.exe_base'')]\<rparr>],
     cr_exceptions = []\<rparr>"

definition rule_privilege_escalation :: compiled_rule where
  "rule_privilege_escalation = \<lparr>cr_ID = ''privilege_escalation'', cr_Scope = ScopeAll,
     cr_Tactic = ''Privilege Escalation'', cr_Technique = ''T1548'', cr_Tags = [''privesc''],
     cr_gate = PAnd (PStrEq EvtType ''execve'') (PInSet ProcExeBase privTools),
     cr_hasArms = True, cr_severity = [],
     cr_reason = [],
     cr_details = [],
     cr_arms = [
       \<lparr>ca_whenAny = False, ca_when = [LineageNetwork], ca_guard = None, ca_suppress = False,
         ca_severity = ''critical'',
         ca_reason = ''privilege escalation tool spawned by network-facing service'', ca_details =
           [(''spawned_by'', ''lineage.network_parent''), (''tool'', ''proc.exe_base'')]\<rparr>,
       \<lparr>ca_whenAny = False, ca_when = [LineageTrusted], ca_guard = None, ca_suppress = True,
         ca_severity = [],
         ca_reason = [], ca_details = []\<rparr>,
       \<lparr>ca_whenAny = False, ca_when = [LineageInteractive], ca_guard = Some (PInSet ProcExeBase
         interactiveBenignPriv), ca_suppress = True, ca_severity = [],
         ca_reason = [], ca_details = []\<rparr>,
       \<lparr>ca_whenAny = False, ca_when = [LineageInteractive], ca_guard = None, ca_suppress = False,
         ca_severity = ''high'',
         ca_reason = ''privilege/namespace tool executed in interactive session'', ca_details =
           [(''tool'', ''proc.exe_base'')]\<rparr>,
       \<lparr>ca_whenAny = False, ca_when = [LineageUnknown], ca_guard = None, ca_suppress = False,
         ca_severity = ''high'',
         ca_reason = ''privilege escalation tool executed'', ca_details = [(''tool'',
           ''proc.exe_base'')]\<rparr>],
     cr_exceptions = []\<rparr>"

definition rule_network_tool :: compiled_rule where
  "rule_network_tool = \<lparr>cr_ID = ''network_tool'', cr_Scope = ScopeAll,
     cr_Tactic = ''Discovery'', cr_Technique = ''T1046'', cr_Tags = [''network''],
     cr_gate = PAnd (PStrEq EvtType ''execve'') (PInSet ProcExeBase netTools),
     cr_hasArms = True, cr_severity = [],
     cr_reason = [],
     cr_details = [],
     cr_arms = [
       \<lparr>ca_whenAny = False, ca_when = [LineageNetwork], ca_guard = None, ca_suppress = False,
         ca_severity = ''high'',
         ca_reason = ''network tool spawned by network-facing service (possible post-exploitation)'',
           ca_details = [(''spawned_by'', ''lineage.network_parent''), (''tool'',
           ''proc.exe_base'')]\<rparr>,
       \<lparr>ca_whenAny = False, ca_when = [LineageTrusted], ca_guard = None, ca_suppress = True,
         ca_severity = [],
         ca_reason = [], ca_details = []\<rparr>,
       \<lparr>ca_whenAny = False, ca_when = [LineageInteractive], ca_guard = Some (PInSet ProcExeBase
         highNetTools), ca_suppress = False, ca_severity = ''high'',
         ca_reason = ''recon scanner executed in interactive session'', ca_details = [(''tool'',
           ''proc.exe_base'')]\<rparr>,
       \<lparr>ca_whenAny = False, ca_when = [LineageInteractive], ca_guard = None, ca_suppress = True,
         ca_severity = [],
         ca_reason = [], ca_details = []\<rparr>,
       \<lparr>ca_whenAny = False, ca_when = [LineageUnknown], ca_guard = Some (PInSet ProcExeBase
         highNetTools), ca_suppress = False, ca_severity = ''high'',
         ca_reason = ''network tool executed'', ca_details = [(''tool'', ''proc.exe_base'')]\<rparr>,
       \<lparr>ca_whenAny = False, ca_when = [LineageUnknown], ca_guard = None, ca_suppress = False,
         ca_severity = ''medium'',
         ca_reason = ''network tool executed'', ca_details = [(''tool'', ''proc.exe_base'')]\<rparr>],
     cr_exceptions = []\<rparr>"

definition rule_container_drift :: compiled_rule where
  "rule_container_drift = \<lparr>cr_ID = ''container_drift'', cr_Scope = ScopeContainer,
     cr_Tactic = ''Defense Evasion'', cr_Technique = ''T1036'', cr_Tags = [''container'', ''drift''],
     cr_gate = PAnd (PAnd (PStrEq EvtType ''execve'') (PStrNeq ProcExePath [])) (PHasPrefix ProcExePath
       writableExecDirs),
     cr_hasArms = False, cr_severity = ''high'',
     cr_reason = ''binary executed from writable/ephemeral path'',
     cr_details = [(''path'', ''proc.exe_path'')], cr_arms = [],
     cr_exceptions = []\<rparr>"

definition rule_package_manager :: compiled_rule where
  "rule_package_manager = \<lparr>cr_ID = ''package_manager'', cr_Scope = ScopeAll,
     cr_Tactic = ''Execution'', cr_Technique = ''T1072'', cr_Tags = [''package-manager''],
     cr_gate = PAnd (PStrEq EvtType ''execve'') (PInSet ProcExeBase pkgManagers),
     cr_hasArms = True, cr_severity = [],
     cr_reason = [],
     cr_details = [],
     cr_arms = [
       \<lparr>ca_whenAny = False, ca_when = [LineageNetwork], ca_guard = Some (PStrEq FScope ''host''),
         ca_suppress = False, ca_severity = ''critical'',
         ca_reason = ''package manager spawned by network-facing service (attacker installing tools)'',
           ca_details = [(''package_manager'', ''proc.exe_base''), (''spawned_by'',
           ''lineage.network_parent'')]\<rparr>,
       \<lparr>ca_whenAny = False, ca_when = [LineageNetwork], ca_guard = None, ca_suppress = False,
         ca_severity = ''high'',
         ca_reason = ''package manager spawned by network-facing service (attacker installing tools)'',
           ca_details = [(''package_manager'', ''proc.exe_base''), (''spawned_by'',
           ''lineage.network_parent'')]\<rparr>,
       \<lparr>ca_whenAny = True, ca_when = [], ca_guard = Some (PStrEq FScope ''host''), ca_suppress =
         True, ca_severity = [],
         ca_reason = [], ca_details = []\<rparr>,
       \<lparr>ca_whenAny = False, ca_when = [LineageTrusted], ca_guard = None, ca_suppress = True,
         ca_severity = [],
         ca_reason = [], ca_details = []\<rparr>,
       \<lparr>ca_whenAny = False, ca_when = [LineageInteractive, LineageUnknown], ca_guard = None,
         ca_suppress = False, ca_severity = ''medium'',
         ca_reason = ''package manager executed inside running container'', ca_details =
           [(''package_manager'', ''proc.exe_base'')]\<rparr>],
     cr_exceptions = []\<rparr>"

definition rule_sensitive_file :: compiled_rule where
  "rule_sensitive_file = \<lparr>cr_ID = ''sensitive_file'', cr_Scope = ScopeAll,
     cr_Tactic = ''Collection'', cr_Technique = ''T1005'', cr_Tags = [''file''],
     cr_gate = PAnd (PAnd (PStrEq EvtType ''open'') (PHasPrefix FdName sensitiveFiles)) (POr (PStrEq
       FScope ''container'') (PAnd (PAnd (PBool IsOpenWrite) (PNot (PStrEq FdName
       ''/var/run/docker.sock''))) (PNot (PStartswith FdName ''/root/.ssh'')))),
     cr_hasArms = True, cr_severity = [],
     cr_reason = [],
     cr_details = [],
     cr_arms = [
       \<lparr>ca_whenAny = True, ca_when = [], ca_guard = Some (PStrEq FdName
         ''/var/run/docker.sock''), ca_suppress = False, ca_severity = ''critical'',
         ca_reason = ''docker socket accessed by container (container-escape vector)'', ca_details =
           [(''file'', ''fd.name'')]\<rparr>,
       \<lparr>ca_whenAny = True, ca_when = [], ca_guard = None, ca_suppress = False, ca_severity =
         ''medium'',
         ca_reason = ''sensitive file accessed'', ca_details = [(''file'', ''fd.name'')]\<rparr>],
     cr_exceptions = []\<rparr>"

definition rule_credential_file :: compiled_rule where
  "rule_credential_file = \<lparr>cr_ID = ''credential_file'', cr_Scope = ScopeAll,
     cr_Tactic = ''Credential Access'', cr_Technique = ''T1552'', cr_Tags = [''credentials''],
     cr_gate = PAnd (PStrEq EvtType ''open'') (PContainsAny FdName credFiles),
     cr_hasArms = False, cr_severity = ''high'',
     cr_reason = ''credential file accessed'',
     cr_details = [(''file'', ''fd.name'')], cr_arms = [],
     cr_exceptions = []\<rparr>"

definition rule_host_user_manipulation :: compiled_rule where
  "rule_host_user_manipulation = \<lparr>cr_ID = ''host_user_manipulation'', cr_Scope = ScopeHost,
     cr_Tactic = ''Persistence'', cr_Technique = ''T1136.001'', cr_Tags = [''host'', ''accounts''],
     cr_gate = PAnd (PStrEq EvtType ''execve'') (PInSet ProcExeBase userMgmtTools),
     cr_hasArms = True, cr_severity = [],
     cr_reason = [],
     cr_details = [],
     cr_arms = [
       \<lparr>ca_whenAny = False, ca_when = [LineageNetwork], ca_guard = None, ca_suppress = False,
         ca_severity = ''critical'',
         ca_reason = ''account manipulation by network-facing service (backdoor account)'', ca_details =
           [(''spawned_by'', ''lineage.network_parent''), (''tool'', ''proc.exe_base'')]\<rparr>,
       \<lparr>ca_whenAny = False, ca_when = [LineageInteractive], ca_guard = None, ca_suppress = False,
         ca_severity = ''low'',
         ca_reason = ''account management in interactive admin session'', ca_details = [(''tool'',
           ''proc.exe_base'')]\<rparr>,
       \<lparr>ca_whenAny = False, ca_when = [LineageTrusted, LineageUnknown], ca_guard = None,
         ca_suppress = False, ca_severity = ''medium'',
         ca_reason = ''account manipulation on host'', ca_details = [(''tool'',
           ''proc.exe_base'')]\<rparr>],
     cr_exceptions = []\<rparr>"

definition rule_host_log_tampering :: compiled_rule where
  "rule_host_log_tampering = \<lparr>cr_ID = ''host_log_tampering'', cr_Scope = ScopeHost,
     cr_Tactic = ''Defense Evasion'', cr_Technique = ''T1070'', cr_Tags = [''host'', ''anti-forensics''],
     cr_gate = POr (PAnd (PStrEq EvtType ''execve'') (PInSet ProcExeBase logTamperTools)) (PAnd (PAnd
       (PStrEq EvtType ''open'') (PBool IsOpenWrite)) (POr (PStartswith FdName ''/var/log'')
       (PContainsAny FdName logHistoryFiles))),
     cr_hasArms = True, cr_severity = [],
     cr_reason = [],
     cr_details = [],
     cr_arms = [
       \<lparr>ca_whenAny = True, ca_when = [], ca_guard = Some (PAnd (PStrEq EvtType ''execve'')
         (PContainsAny ProcCmdlineLc logHistoryFiles)), ca_suppress = False, ca_severity = ''high'',
         ca_reason = ''forensic artifact wiped with shred/wipe'', ca_details = [(''cmdline'',
           ''proc.cmdline''), (''tool'', ''proc.exe_base'')]\<rparr>,
       \<lparr>ca_whenAny = True, ca_when = [], ca_guard = Some (PStrEq EvtType ''execve''), ca_suppress
         = False, ca_severity = ''medium'',
         ca_reason = ''file-wiping tool executed on host'', ca_details = [(''tool'',
           ''proc.exe_base'')]\<rparr>,
       \<lparr>ca_whenAny = True, ca_when = [], ca_guard = Some PTrustedWriter, ca_suppress = True,
         ca_severity = [],
         ca_reason = [], ca_details = []\<rparr>,
       \<lparr>ca_whenAny = True, ca_when = [], ca_guard = Some (POr (PBool IsOpenTrunc) (PContainsAny
         FdName logHistoryFiles)), ca_suppress = False, ca_severity = ''high'',
         ca_reason = ''log/forensic file truncated or modified on host'', ca_details = [(''file'',
           ''fd.name'')]\<rparr>,
       \<lparr>ca_whenAny = True, ca_when = [], ca_guard = None, ca_suppress = False, ca_severity =
         ''medium'',
         ca_reason = ''unexpected write to /var/log on host'', ca_details = [(''file'',
           ''fd.name'')]\<rparr>],
     cr_exceptions = []\<rparr>"

definition rule_host_docker_sock :: compiled_rule where
  "rule_host_docker_sock = \<lparr>cr_ID = ''host_docker_sock'', cr_Scope = ScopeHost,
     cr_Tactic = ''Privilege Escalation'', cr_Technique = ''T1610'', cr_Tags = [''host'', ''docker'',
       ''escape''],
     cr_gate = PAnd (PStrEq EvtType ''open'') (POr (PStrEq FdName ''/var/run/docker.sock'') (PStrEq
       FdName ''/run/docker.sock'')),
     cr_hasArms = True, cr_severity = [],
     cr_reason = [],
     cr_details = [],
     cr_arms = [
       \<lparr>ca_whenAny = True, ca_when = [], ca_guard = Some (PDockerClient ProcName), ca_suppress =
         True, ca_severity = [],
         ca_reason = [], ca_details = []\<rparr>,
       \<lparr>ca_whenAny = True, ca_when = [], ca_guard = None, ca_suppress = False, ca_severity =
         ''high'',
         ca_reason =
           ''Docker control socket opened by non-Docker process on host (escape / lateral movement)'',
           ca_details = [(''file'', ''fd.name''), (''process'', ''proc.name'')]\<rparr>],
     cr_exceptions = []\<rparr>"

definition rule_host_tmp_exec :: compiled_rule where
  "rule_host_tmp_exec = \<lparr>cr_ID = ''host_tmp_exec'', cr_Scope = ScopeHost,
     cr_Tactic = ''Execution'', cr_Technique = ''T1204.002'', cr_Tags = [''host'', ''drift''],
     cr_gate = PAnd (PAnd (PAnd (PAnd (PStrEq EvtType ''execve'') (PStrNeq ProcExePath [])) (PHasPrefix
       ProcExePath hostTmpExecDirs)) (PNot (PChainIn buildLineageComms))) (PNot PTrustedWriter),
     cr_hasArms = False, cr_severity = ''high'',
     cr_reason = ''binary executed from world-writable temp dir on host'',
     cr_details = [(''path'', ''proc.exe_path'')], cr_arms = [],
     cr_exceptions = []\<rparr>"

definition rule_host_shell_from_service :: compiled_rule where
  "rule_host_shell_from_service = \<lparr>cr_ID = ''host_shell_from_service'', cr_Scope = ScopeHost,
     cr_Tactic = ''Execution'', cr_Technique = ''T1059'', cr_Tags = [''host'', ''shell'', ''rce''],
     cr_gate = PAnd (PStrEq EvtType ''execve'') (PInSet ProcExeBase shells),
     cr_hasArms = True, cr_severity = [],
     cr_reason = [],
     cr_details = [],
     cr_arms = [
       \<lparr>ca_whenAny = False, ca_when = [LineageNetwork], ca_guard = None, ca_suppress = False,
         ca_severity = ''critical'',
         ca_reason = ''shell spawned by network-facing service on host (possible RCE)'', ca_details =
           [(''shell'', ''proc.exe_base''), (''spawned_by'', ''lineage.network_parent'')]\<rparr>],
     cr_exceptions = []\<rparr>"

definition default_rules :: "compiled_rule list" where
  "default_rules =
     [rule_kernel_module_load, rule_bpf_prog_load, rule_reverse_shell, rule_process_injection, rule_persistence, rule_shell_in_container, rule_privilege_escalation, rule_network_tool, rule_container_drift, rule_package_manager, rule_sensitive_file, rule_credential_file, rule_host_user_manipulation, rule_host_log_tampering, rule_host_docker_sock, rule_host_tmp_exec, rule_host_shell_from_service]"

definition def_resolved :: "(string \<times> string) list" where
  "def_resolved = [(''is_execve'', ''evt.type = execve''),
     (''spawns_shell'', ''(evt.type = execve) and in_list(proc.exe_base, $shells)'')]"

lemma def_macros_resolve: "resolveMacros def_macros = Inr def_resolved"
  by code_simp

lemma compile_default_rules:
  "compileRule spec_kernel_module_load def_lists def_resolved = Inr rule_kernel_module_load"
  "compileRule spec_bpf_prog_load def_lists def_resolved = Inr rule_bpf_prog_load"
  "compileRule spec_reverse_shell def_lists def_resolved = Inr rule_reverse_shell"
  "compileRule spec_process_injection def_lists def_resolved = Inr rule_process_injection"
  "compileRule spec_persistence def_lists def_resolved = Inr rule_persistence"
  "compileRule spec_shell_in_container def_lists def_resolved = Inr rule_shell_in_container"
  "compileRule spec_privilege_escalation def_lists def_resolved = Inr rule_privilege_escalation"
  "compileRule spec_network_tool def_lists def_resolved = Inr rule_network_tool"
  "compileRule spec_container_drift def_lists def_resolved = Inr rule_container_drift"
  "compileRule spec_package_manager def_lists def_resolved = Inr rule_package_manager"
  "compileRule spec_sensitive_file def_lists def_resolved = Inr rule_sensitive_file"
  "compileRule spec_credential_file def_lists def_resolved = Inr rule_credential_file"
  "compileRule spec_host_user_manipulation def_lists def_resolved = Inr rule_host_user_manipulation"
  "compileRule spec_host_log_tampering def_lists def_resolved = Inr rule_host_log_tampering"
  "compileRule spec_host_docker_sock def_lists def_resolved = Inr rule_host_docker_sock"
  "compileRule spec_host_tmp_exec def_lists def_resolved = Inr rule_host_tmp_exec"
  "compileRule spec_host_shell_from_service def_lists def_resolved = Inr rule_host_shell_from_service"
  by code_simp+

lemma all_enabled: "list_all rule_enabled (f_Rules default_file)"
  by code_simp

lemma default_file_compiles: "compileRuleset default_file = Inr default_rules"
  using all_enabled
  by (simp add: compileRuleset_def default_file_def def_macros_resolve compile_default_rules default_rules_def)

lemma default_ids_unique: "checkUniqueIDs default_file = None"
  by code_simp

lemma default_loads: "load_ruleset default_file readDir readFile decode [] [] = Inr default_rules"
  by (simp add: load_ruleset_def overlays_def default_ids_unique default_file_compiles)

end
