(* ===== verification/Overlays.thy ===== *)
theory Overlays
  imports DefaultRules
begin

text \<open>
  What operators can rely on when they overlay the embedded ruleset, and what an event's findings are:
  the properties of \<open>Pred\<close>, \<open>Engine\<close>, \<open>Compile\<close> and \<open>Loader\<close> taken together.
\<close>

section \<open>Appending to a rule\<close>

lemma compile_exceptions_append:
  "compile_exceptions (xs @ ys) = Inr zs \<longleftrightarrow>
   (\<exists>as bs. compile_exceptions xs = Inr as \<and> compile_exceptions ys = Inr bs \<and> zs = as @ bs)"
  by (induction xs arbitrary: zs) (auto simp: rbind_Inr_iff split: sum.splits)

lemma compileRule_append:
  assumes "compileRule (append_rule old r) ls ms = Inr cr'"
  shows "\<exists>cr excs. compileRule old ls ms = Inr cr \<and> compile_exceptions (rs_Exceptions r) = Inr excs \<and>
    cr' = cr\<lparr>cr_Tags := cr_Tags cr @ rs_Tags r, cr_exceptions := cr_exceptions cr @ excs\<rparr>"
proof -
  have "\<exists>es. compile_exceptions (rs_Exceptions old @ rs_Exceptions r) = Inr es"
    using assms by (auto simp: compileRule_def append_rule_def rbind_Inr_iff split: if_splits sum.splits option.splits)
  then obtain as bs where es: "compile_exceptions (rs_Exceptions old) = Inr as"
    "compile_exceptions (rs_Exceptions r) = Inr bs" by (auto simp: compile_exceptions_append)
  have all: "compile_exceptions (rs_Exceptions old @ rs_Exceptions r) = Inr (as @ bs)"
    using es by (auto simp: compile_exceptions_append)
  let ?cr = "cr'\<lparr>cr_Tags := rs_Tags old, cr_exceptions := as\<rparr>"
  have "compileRule old ls ms = Inr ?cr \<and> cr' = ?cr\<lparr>cr_Tags := rs_Tags old @ rs_Tags r, cr_exceptions := as @ bs\<rparr>"
    using assms es(1) all unfolding compileRule_def
    by (auto simp: append_rule_def rbind_Inr_iff rbind_def split: if_splits sum.splits option.splits)
  with es(2) show ?thesis by (intro exI [of _ ?cr] exI [of _ bs]) simp
qed

definition add_tags :: "string list \<Rightarrow> result \<Rightarrow> result" where
  "add_tags ts x = x\<lparr>r_Tags := r_Tags x @ ts\<rparr>"

lemma rule_outcome_append:
  "rule_outcome v (cr\<lparr>cr_Tags := cr_Tags cr @ ts, cr_exceptions := es\<rparr>) =
   map_option (add_tags ts) (rule_outcome v cr)"
  by (auto simp: rule_outcome_def arm_choice_def mk_result_def add_tags_def split: option.splits)

lemma finding_append:
  "finding v (cr\<lparr>cr_Tags := cr_Tags cr @ ts, cr_exceptions := cr_exceptions cr @ excs\<rparr>) =
   (if \<exists>e \<in> set excs. exception_holds v e then None else map_option (add_tags ts) (finding v cr))"
  by (auto simp: finding_def rule_outcome_append)

text \<open>What an appended rule makes of a finding of the ruleset.\<close>

definition tuned :: "rule_spec \<Rightarrow> compiled_exception list \<Rightarrow> view \<Rightarrow> result \<Rightarrow> result option" where
  "tuned r excs v x =
     (if r_RuleID x \<noteq> rs_ID r then Some x
      else if rs_Enabled r = Some False \<or> (\<exists>e \<in> set excs. exception_holds v e) then None
      else Some (add_tags (rs_Tags r) x))"

lemma compile_rules_append:
  "compile_rules (xs @ ys) ls ms = Inr zs \<longleftrightarrow>
   (\<exists>as bs. compile_rules xs ls ms = Inr as \<and> compile_rules ys ls ms = Inr bs \<and> zs = as @ bs)"
  by (induction xs arbitrary: zs) (auto simp: rbind_Inr_iff split: sum.splits)

lemma tuned_others:
  assumes "compile_rules xs ls ms = Inr as" and "rs_ID r \<notin> set (ids xs)"
  shows "List.map_filter (tuned r excs v) (findings v as) = findings v as"
proof -
  have "r_RuleID x \<noteq> rs_ID r" if x: "x \<in> set (findings v as)" for x
  proof -
    from x obtain cr where "cr \<in> set as" "finding v cr = Some x"
      by (auto simp: findings_def map_filter_def)
    moreover from this(2) have "r_RuleID x = cr_ID cr" by (rule finding_RuleID)
    moreover have "set (map cr_ID as) \<subseteq> set (ids xs)" using compile_rules_ids [OF assms(1)] by auto
    ultimately have "r_RuleID x \<in> set (ids xs)" by (metis imageI list.set_map subsetD)
    with assms(2) show ?thesis by metis
  qed
  then have "\<forall>x \<in> set (findings v as). tuned r excs v x = Some x" by (simp add: tuned_def)
  then show ?thesis by (simp add: map_filter_def filter_id_conv [THEN iffD2] map_idI)
qed

lemma tuned_rule:
  assumes "compile_rules [old] ls ms = Inr as" and "compile_rules [append_rule old r] ls ms = Inr bs"
    and "rs_ID old = rs_ID r" and "rs_Enabled old = Some False \<Longrightarrow> rs_Enabled r \<noteq> Some True"
  shows "\<exists>excs. (bs \<noteq> [] \<longrightarrow> compile_exceptions (rs_Exceptions r) = Inr excs) \<and>
    (\<forall>v. findings v bs = List.map_filter (tuned r excs v) (findings v as))"
proof (cases "rule_enabled (append_rule old r)")
  case False
  then have bs: "bs = []" using assms(2) by simp
  have "rs_Enabled r = Some False \<or> \<not> rule_enabled old"
    using False by (auto simp: rule_enabled_def append_rule_def split: if_splits)
  moreover have "List.map_filter (tuned r [] v) (findings v as) = []" if off: "rs_Enabled r = Some False" for v
  proof -
    have "tuned r [] v x = None" if "x \<in> set (findings v as)" for x
    proof -
      from that obtain cr where "cr \<in> set as" "finding v cr = Some x" by (auto simp: findings_def map_filter_def)
      moreover from this(2) have "r_RuleID x = cr_ID cr" by (rule finding_RuleID)
      moreover have "set (map cr_ID as) \<subseteq> {rs_ID r}" using compile_rules_ids [OF assms(1)] assms(3) by auto
      ultimately show ?thesis using off by (auto simp: tuned_def)
    qed
    then show ?thesis by (simp add: map_filter_def filter_empty_conv)
  qed
  moreover have "findings v as = []" if "\<not> rule_enabled old" for v
    using that assms(1) by (auto simp: findings_def map_filter_def)
  ultimately show ?thesis by (intro exI [of _ "[]"]) (auto simp: bs findings_def map_filter_def)
next
  case True
  then obtain cr' where cr': "compileRule (append_rule old r) ls ms = Inr cr'" "bs = [cr']"
    using assms(2) by (auto simp: rbind_Inr_iff split: sum.splits)
  obtain cr excs where cr: "compileRule old ls ms = Inr cr" "compile_exceptions (rs_Exceptions r) = Inr excs"
    "cr' = cr\<lparr>cr_Tags := cr_Tags cr @ rs_Tags r, cr_exceptions := cr_exceptions cr @ excs\<rparr>"
    using compileRule_append [OF cr'(1)] by blast
  have on: "rule_enabled old" "rs_Enabled r \<noteq> Some False"
    using True assms(4) by (auto simp: rule_enabled_def append_rule_def split: if_splits)
  have as: "as = [cr]" using assms(1) cr(1) on by simp
  have "findings v [cr'] = List.map_filter (tuned r excs v) (findings v [cr])" for v
    using finding_RuleID [of v cr] compileRule_ok [OF cr(1)] assms(3) on(2)
    by (cases "finding v cr") (auto simp: findings_def map_filter_def cr(3) finding_append tuned_def)
  with cr(2) show ?thesis by (auto simp: as cr'(2))
qed

section \<open>Properties\<close>

text \<open>
  C23. Evaluating a compiled condition with the context's caches, in the code's order and with its short
  circuits, gives the plain truth value of the condition on the event.
\<close>

theorem run_pred_value: "fst (run_pred p (newEvalCtx ev c scope)) = eval_pred p (ev, c, scope)"
  using run_pred_agrees [OF ctx_ok_new(1) [of ev c scope], of p]
  by (simp add: agrees_def newEvalCtx_def view_of_def)

text \<open>
  C5. \<open>Match\<close> returns, in rule order, one result per rule that fires: the scope includes the event, the
  gate holds, no exception holds, and the rule's flat outcome or its first applicable lineage arm is not a
  suppression. Sharing one context between the rules of an event changes nothing.
\<close>

theorem Match_is_findings:
  "engine_Match rules ev c scope = List.map_filter (\<lambda>r. finding (ev, c, scope) r) rules"
  by (simp add: Match_findings findings_def)

text \<open>
  C24. Whatever the overlay files contain, a ruleset that loads is well-formed: rule ids are distinct and
  not empty, every severity an alert can carry is one of the four, lineage rules have an arm, detail keys
  are sorted, and every exception row has a value for each of its fields, so evaluation cannot run out of
  a row.
\<close>

theorem load_wellformed:
  assumes "load_ruleset base readDir readFile decode rulesFile rulesDir = Inr rs"
  shows "list_all rule_ok rs \<and> distinct (map cr_ID rs)"
  using assms by (rule load_ruleset_ok)

theorem load_wellformed_witness: "list_all rule_ok default_rules \<and> distinct (map cr_ID default_rules)"
  by (rule load_wellformed [where base = default_file and readDir = "\<lambda>_. None" and readFile = "\<lambda>_. None" and
        decode = "\<lambda>_. Inl MissingID" and rulesFile = "[]" and rulesDir = "[]"])
     (simp add: load_ruleset_def overlays_def default_ids_unique default_file_compiles)

text \<open>
  C25. Merging overlays never drops, reorders or duplicates a rule: the ids of the base ruleset stay in
  place and new rules come after them.
\<close>

theorem overlays_keep_base:
  assumes "merge_overlays readFile decode base paths = Inr f" and "distinct (map rs_ID (f_Rules base))"
  shows "distinct (map rs_ID (f_Rules f)) \<and> prefix (map rs_ID (f_Rules base)) (map rs_ID (f_Rules f))"
  using merge_overlays_ids [OF assms] by auto

definition overlay_example :: rule_file where
  "overlay_example = default_file\<lparr>f_Rules :=
     [spec_bpf_prog_load\<lparr>rs_Append := True, rs_Tags := [''site'']\<rparr>, spec_bpf_prog_load\<lparr>rs_ID := ''mine''\<rparr>]\<rparr>"

theorem overlays_keep_base_witness:
  "\<exists>f. merge_overlays (\<lambda>_. Some []) (\<lambda>_. Inr overlay_example) default_file [''site.yaml''] = Inr f \<and>
     distinct (map rs_ID (f_Rules f)) \<and> prefix (map rs_ID (f_Rules default_file)) (map rs_ID (f_Rules f)) \<and>
     length (f_Rules f) = 18"
proof -
  have d: "distinct (map rs_ID (f_Rules default_file))"
    using default_ids_unique by (simp add: checkUniqueIDs_None)
  have "\<not> isl (merge_overlays (\<lambda>_. Some []) (\<lambda>_. Inr overlay_example) default_file [''site.yaml''])"
    by code_simp
  then obtain f where f: "merge_overlays (\<lambda>_. Some []) (\<lambda>_. Inr overlay_example) default_file [''site.yaml''] = Inr f"
    by (metis sum.collapse(2))
  have "length (f_Rules (projr (merge_overlays (\<lambda>_. Some []) (\<lambda>_. Inr overlay_example) default_file [''site.yaml'']))) = 18"
    by code_simp
  with f overlays_keep_base [OF f d] show ?thesis by simp
qed


definition bpf_tuning :: rule_spec where
  "bpf_tuning = spec_bpf_prog_load\<lparr>rs_Append := True, rs_Tags := [''site''],
     rs_Exceptions := [\<lparr>es_Name = ''agents'', es_Fields = [''proc.name''], es_Comps = [],
       es_Values = [[''falco''], [''cilium-agent'']]\<rparr>]\<rparr>"

definition bpf_base :: rule_file where
  "bpf_base = default_file\<lparr>f_Lists := [], f_AppendLists := [], f_Macros := [],
     f_Rules := [spec_bpf_prog_load, spec_bpf_prog_load\<lparr>rs_ID := ''mine''\<rparr>]\<rparr>"

definition bpf_overlay :: rule_file where
  "bpf_overlay = bpf_base\<lparr>f_Rules := [bpf_tuning]\<rparr>"


end
