(* ===== verification/LegacyRules.thy ===== *)
theory LegacyRules
  imports Classifier EvalEnv
begin

text \<open>
  The hard-coded detections the YAML ruleset was translated from, \<open>internal/detector/rules.go\<close> and
  \<open>rules_host.go\<close>: one \<open>legacy_rule\<close> per Go variable, its \<open>Match\<close> function as a HOL function that
  returns the hit or nothing, and the helpers of the file.
\<close>

record hit =
  h_Severity :: severity
  h_Reason :: string
  h_Details :: "(string \<times> gval) list"

record legacy_rule =
  lr_ID :: string
  lr_Desc :: string
  lr_Severity :: severity
  lr_Scope :: scope
  lr_Tactic :: string
  lr_Technique :: string
  lr_Tags :: "string list"
  lr_Match :: "event \<Rightarrow> classifier \<Rightarrow> scope \<Rightarrow> hit option"

abbreviation a_hit :: "severity \<Rightarrow> string \<Rightarrow> (string \<times> gval) list \<Rightarrow> hit option" where
  "a_hit sev reason details \<equiv> Some \<lparr>h_Severity = sev, h_Reason = reason, h_Details = details\<rparr>"

section \<open>Helpers\<close>

definition execBinary :: "event \<Rightarrow> string" where
  "execBinary e =
     (let name = (if e_Filename e = [] then e_ProcessName e else e_Filename e)
      in to_lower (base_name name))"

definition det_processName :: "event \<Rightarrow> string" where
  "det_processName e =
     (if e_Type e = EventExecve \<and> e_Filename e \<noteq> [] then base_name (e_Filename e) else e_ProcessName e)"

definition writerChain :: "event \<Rightarrow> string list" where
  "writerChain e = e_ProcessName e # e_Ancestry e"

definition hasAnyPrefix :: "string \<Rightarrow> string list \<Rightarrow> bool" where
  "hasAnyPrefix s ps = list_ex (\<lambda>p. has_prefix s p) ps"

definition containsAny :: "string \<Rightarrow> string list \<Rightarrow> bool" where
  "containsAny s subs = list_ex (\<lambda>sub. sub \<noteq> [] \<and> contains s sub) subs"

section \<open>execve rules\<close>

definition ruleShellInContainer :: legacy_rule where
  "ruleShellInContainer = \<lparr>
     lr_ID = ''shell_in_container'', lr_Desc = ''Shell executed inside a container'',
     lr_Severity = SeverityHigh, lr_Scope = ScopeContainer, lr_Tactic = ''Execution'',
     lr_Technique = ''T1059'', lr_Tags = [''container'', ''shell''],
     lr_Match = (\<lambda>e c scope.
       let bin = execBinary e in
       if e_Type e \<noteq> EventExecve \<or> bin \<notin> set shells then None
       else (case classify c (e_Ancestry e) scope of
           lineageNetwork \<Rightarrow> a_hit SeverityCritical
             ''interactive shell spawned by network-facing service (possible RCE/web-shell)''
             [(''shell'', GStr bin), (''spawned_by'', GStr (networkParent c (e_Ancestry e)))]
         | lineageTrusted \<Rightarrow> None
         | _ \<Rightarrow> a_hit [] ''shell execution inside container'' [(''shell'', GStr bin)]))\<rparr>"

definition ruleNetworkTool :: legacy_rule where
  "ruleNetworkTool = \<lparr>
     lr_ID = ''network_tool'', lr_Desc = ''Network/recon tool executed'',
     lr_Severity = SeverityMedium, lr_Scope = ScopeAll, lr_Tactic = ''Discovery'',
     lr_Technique = ''T1046'', lr_Tags = [''network''],
     lr_Match = (\<lambda>e c scope.
       let bin = execBinary e in
       if e_Type e \<noteq> EventExecve \<or> bin \<notin> set netTools then None
       else (case classify c (e_Ancestry e) scope of
           lineageNetwork \<Rightarrow> a_hit SeverityHigh
             ''network tool spawned by network-facing service (possible post-exploitation)''
             [(''tool'', GStr bin), (''spawned_by'', GStr (networkParent c (e_Ancestry e)))]
         | lineageTrusted \<Rightarrow> None
         | lineageInteractive \<Rightarrow>
             (if bin \<in> set highNetTools then
                a_hit SeverityHigh ''recon scanner executed in interactive session'' [(''tool'', GStr bin)]
              else None)
         | lineageUnknown \<Rightarrow>
             (let sev = (if bin \<in> set highNetTools then SeverityHigh else SeverityMedium)
              in a_hit sev ''network tool executed'' [(''tool'', GStr bin)])))\<rparr>"

definition rulePackageManager :: legacy_rule where
  "rulePackageManager = \<lparr>
     lr_ID = ''package_manager'', lr_Desc = ''Package manager executed in a running environment'',
     lr_Severity = SeverityMedium, lr_Scope = ScopeAll, lr_Tactic = ''Execution'',
     lr_Technique = ''T1072'', lr_Tags = [''package-manager''],
     lr_Match = (\<lambda>e c scope.
       let bin = execBinary e in
       if e_Type e \<noteq> EventExecve \<or> bin \<notin> set pkgManagers then None
       else (case classify c (e_Ancestry e) scope of
           lineageNetwork \<Rightarrow>
             (let sev = (if scope = ScopeHost then SeverityCritical else SeverityHigh)
              in a_hit sev
                ''package manager spawned by network-facing service (attacker installing tools)''
                [(''package_manager'', GStr bin), (''spawned_by'', GStr (networkParent c (e_Ancestry e)))])
         | _ \<Rightarrow>
             (if scope = ScopeHost then None
              else if classify c (e_Ancestry e) scope = lineageTrusted then None
              else a_hit [] ''package manager executed inside running container''
                [(''package_manager'', GStr bin)])))\<rparr>"

definition rulePrivilegedProcess :: legacy_rule where
  "rulePrivilegedProcess = \<lparr>
     lr_ID = ''privilege_escalation'', lr_Desc = ''Privilege-escalation tool executed'',
     lr_Severity = SeverityHigh, lr_Scope = ScopeAll, lr_Tactic = ''Privilege Escalation'',
     lr_Technique = ''T1548'', lr_Tags = [''privesc''],
     lr_Match = (\<lambda>e c scope.
       let bin = execBinary e in
       if e_Type e \<noteq> EventExecve \<or> bin \<notin> set privTools then None
       else (case classify c (e_Ancestry e) scope of
           lineageNetwork \<Rightarrow> a_hit SeverityCritical
             ''privilege escalation tool spawned by network-facing service''
             [(''tool'', GStr bin), (''spawned_by'', GStr (networkParent c (e_Ancestry e)))]
         | lineageTrusted \<Rightarrow> None
         | lineageInteractive \<Rightarrow>
             (if bin \<in> set interactiveBenignPriv then None
              else a_hit [] ''privilege/namespace tool executed in interactive session''
                [(''tool'', GStr bin)])
         | lineageUnknown \<Rightarrow> a_hit [] ''privilege escalation tool executed'' [(''tool'', GStr bin)]))\<rparr>"

definition legacySigs :: "string list" where
  "legacySigs = [''/dev/tcp/'', ''/dev/udp/'', ''nc -e'', ''ncat -e'', ''nc -c'', ''pty.spawn'',
     ''socket.socket'']"

definition ruleReverseShell :: legacy_rule where
  "ruleReverseShell = \<lparr>
     lr_ID = ''reverse_shell'', lr_Desc = ''Reverse-shell / remote-exec pattern in command line'',
     lr_Severity = SeverityCritical, lr_Scope = ScopeAll, lr_Tactic = ''Execution'',
     lr_Technique = ''T1059'', lr_Tags = [''reverse-shell'', ''c2''],
     lr_Match = (\<lambda>e c scope.
       if e_Type e \<noteq> EventExecve \<or> e_CmdLine e = [] then None
       else (let cl = to_lower (e_CmdLine e) in
         case find (\<lambda>sig. contains cl sig) legacySigs of
           Some sig \<Rightarrow> a_hit [] ''reverse-shell pattern detected in command line''
             [(''cmdline'', GStr (e_CmdLine e)), (''signature'', GStr sig)]
         | None \<Rightarrow>
             (if contains cl ''curl '' \<or> contains cl ''wget '' then
                (if list_ex (\<lambda>p. contains cl p) [''|sh'', ''| sh'', ''|bash'', ''| bash''] then
                   a_hit [] ''remote payload piped to shell (download-and-execute)''
                     [(''cmdline'', GStr (e_CmdLine e))]
                 else None)
              else None)))\<rparr>"

definition ruleContainerDrift :: legacy_rule where
  "ruleContainerDrift = \<lparr>
     lr_ID = ''container_drift'', lr_Desc = ''Execution of a binary from a writable/ephemeral path'',
     lr_Severity = SeverityHigh, lr_Scope = ScopeContainer, lr_Tactic = ''Defense Evasion'',
     lr_Technique = ''T1036'', lr_Tags = [''container'', ''drift''],
     lr_Match = (\<lambda>e c scope.
       if e_Type e \<noteq> EventExecve \<or> e_Filename e = [] then None
       else if list_ex (\<lambda>dir. has_prefix (e_Filename e) dir) writableExecDirs then
         a_hit [] ''binary executed from writable/ephemeral path'' [(''path'', GStr (e_Filename e))]
       else None)\<rparr>"

section \<open>Persistence and kernel tampering\<close>

definition rulePersistence :: legacy_rule where
  "rulePersistence = \<lparr>
     lr_ID = ''persistence'', lr_Desc = ''Write to a persistence-sensitive location'',
     lr_Severity = SeverityHigh, lr_Scope = ScopeAll, lr_Tactic = ''Persistence'',
     lr_Technique = ''T1543'', lr_Tags = [''persistence''],
     lr_Match = (\<lambda>e c scope.
       if e_Type e \<noteq> EventOpen \<or> e_Arg1 e AND writeFlagMask = 0 then None
       else
         (let matched = (if scope = ScopeHost then
                hasAnyPrefix (e_Filename e) hostPersistencePrefixes \<or>
                containsAny (e_Filename e) hostPersistenceSubstrings
              else hasAnyPrefix (e_Filename e) persistenceFiles)
          in if \<not> matched then None
             else if scope = ScopeHost \<and> trustedWriter c (writerChain e) then None
             else
               (let sev = (if has_prefix (e_Filename e) ''/etc/ld.so.preload'' then SeverityCritical
                           else SeverityHigh)
                in a_hit sev ''write to persistence-sensitive location''
                     [(''file'', GStr (e_Filename e))])))\<rparr>"

definition ruleProcessInjection :: legacy_rule where
  "ruleProcessInjection = \<lparr>
     lr_ID = ''process_injection'', lr_Desc = ''ptrace-based process injection/manipulation'',
     lr_Severity = SeverityHigh, lr_Scope = ScopeAll, lr_Tactic = ''Privilege Escalation'',
     lr_Technique = ''T1055.008'', lr_Tags = [''injection''],
     lr_Match = (\<lambda>e c scope.
       if e_Type e \<noteq> EventPtrace then None
       else if e_Arg1 e \<in> {4, 5, 6, 13, 16, 0x4206} then
         a_hit [] ''ptrace process injection/manipulation''
           [(''request'', GInt (uint (e_Arg1 e))), (''target_pid'', GInt (uint (e_Arg2 e)))]
       else None)\<rparr>"

definition ruleKernelModuleLoad :: legacy_rule where
  "ruleKernelModuleLoad = \<lparr>
     lr_ID = ''kernel_module_load'', lr_Desc = ''Kernel module loaded'',
     lr_Severity = SeverityCritical, lr_Scope = ScopeAll, lr_Tactic = ''Persistence'',
     lr_Technique = ''T1547.006'', lr_Tags = [''rootkit'', ''kernel''],
     lr_Match = (\<lambda>e c scope.
       if e_Type e \<noteq> EventModule then None
       else if scope = ScopeHost then
         (if trustedWriter c (writerChain e) \<or> classify c (e_Ancestry e) scope = lineageTrusted then None
          else a_hit SeverityHigh
            ''kernel module loaded on host from untrusted lineage (possible rootkit)'' [])
       else a_hit [] ''kernel module loaded from container (possible rootkit)'' [])\<rparr>"

definition ruleBPFProgLoad :: legacy_rule where
  "ruleBPFProgLoad = \<lparr>
     lr_ID = ''bpf_prog_load'', lr_Desc = ''eBPF program loaded'',
     lr_Severity = SeverityHigh, lr_Scope = ScopeAll, lr_Tactic = ''Defense Evasion'',
     lr_Technique = ''T1562.001'', lr_Tags = [''ebpf'', ''evasion''],
     lr_Match = (\<lambda>e c scope.
       if e_Type e \<noteq> EventBPF \<or> e_Arg1 e \<noteq> 5 then None
       else if scope = ScopeHost \<and> trustedWriter c (writerChain e) then None
       else a_hit [] ''eBPF program loaded (possible evasion/rootkit)''
         [(''bpf_cmd'', GInt (uint (e_Arg1 e)))])\<rparr>"

section \<open>open rules\<close>

definition ruleSensitiveFileAccess :: legacy_rule where
  "ruleSensitiveFileAccess = \<lparr>
     lr_ID = ''sensitive_file'', lr_Desc = ''Sensitive file accessed'',
     lr_Severity = SeverityMedium, lr_Scope = ScopeAll, lr_Tactic = ''Collection'',
     lr_Technique = ''T1005'', lr_Tags = [''file''],
     lr_Match = (\<lambda>e c scope.
       if e_Type e \<noteq> EventOpen then None
       else if scope = ScopeHost \<and> e_Arg1 e AND writeFlagMask = 0 then None
       else if scope = ScopeHost \<and>
           (e_Filename e = ''/var/run/docker.sock'' \<or> has_prefix (e_Filename e) ''/root/.ssh'') then None
       else if list_ex (\<lambda>p. has_prefix (e_Filename e) p) sensitiveFiles then
         (if e_Filename e = ''/var/run/docker.sock'' then
            a_hit SeverityCritical ''docker socket accessed by container (container-escape vector)''
              [(''file'', GStr (e_Filename e))]
          else a_hit [] ''sensitive file accessed'' [(''file'', GStr (e_Filename e))])
       else None)\<rparr>"

definition ruleCredentialFileAccess :: legacy_rule where
  "ruleCredentialFileAccess = \<lparr>
     lr_ID = ''credential_file'', lr_Desc = ''Credential file accessed'',
     lr_Severity = SeverityHigh, lr_Scope = ScopeAll, lr_Tactic = ''Credential Access'',
     lr_Technique = ''T1552'', lr_Tags = [''credentials''],
     lr_Match = (\<lambda>e c scope.
       if e_Type e \<noteq> EventOpen then None
       else if containsAny (e_Filename e) credFiles then
         a_hit [] ''credential file accessed'' [(''file'', GStr (e_Filename e))]
       else None)\<rparr>"

section \<open>Host rules\<close>

definition ruleHostUserManipulation :: legacy_rule where
  "ruleHostUserManipulation = \<lparr>
     lr_ID = ''host_user_manipulation'', lr_Desc = ''User/group account manipulation on host'',
     lr_Severity = SeverityMedium, lr_Scope = ScopeHost, lr_Tactic = ''Persistence'',
     lr_Technique = ''T1136.001'', lr_Tags = [''host'', ''accounts''],
     lr_Match = (\<lambda>e c scope.
       let bin = execBinary e in
       if e_Type e \<noteq> EventExecve \<or> bin \<notin> set userMgmtTools then None
       else (case classify c (e_Ancestry e) scope of
           lineageNetwork \<Rightarrow> a_hit SeverityCritical
             ''account manipulation by network-facing service (backdoor account)''
             [(''tool'', GStr bin), (''spawned_by'', GStr (networkParent c (e_Ancestry e)))]
         | lineageInteractive \<Rightarrow> a_hit SeverityLow
             ''account management in interactive admin session'' [(''tool'', GStr bin)]
         | _ \<Rightarrow> a_hit [] ''account manipulation on host'' [(''tool'', GStr bin)]))\<rparr>"

definition ruleHostLogTampering :: legacy_rule where
  "ruleHostLogTampering = \<lparr>
     lr_ID = ''host_log_tampering'', lr_Desc = ''Log / forensic artifact tampering on host'',
     lr_Severity = SeverityMedium, lr_Scope = ScopeHost, lr_Tactic = ''Defense Evasion'',
     lr_Technique = ''T1070'', lr_Tags = [''host'', ''anti-forensics''],
     lr_Match = (\<lambda>e c scope.
       if e_Type e = EventExecve then
         (let bin = execBinary e in
          if bin \<notin> set logTamperTools then None
          else if containsAny (to_lower (e_CmdLine e)) logHistoryFiles then
            a_hit SeverityHigh ''forensic artifact wiped with shred/wipe''
              [(''tool'', GStr bin), (''cmdline'', GStr (e_CmdLine e))]
          else a_hit [] ''file-wiping tool executed on host'' [(''tool'', GStr bin)])
       else if e_Type e = EventOpen \<and> e_Arg1 e AND writeFlagMask \<noteq> 0 then
         (let isLog = has_prefix (e_Filename e) ''/var/log'';
              isHist = containsAny (e_Filename e) logHistoryFiles
          in if \<not> isLog \<and> \<not> isHist then None
             else if trustedWriter c (writerChain e) then None
             else if e_Arg1 e AND oTRUNC \<noteq> 0 \<or> isHist then
               a_hit SeverityHigh ''log/forensic file truncated or modified on host''
                 [(''file'', GStr (e_Filename e))]
             else a_hit [] ''unexpected write to /var/log on host'' [(''file'', GStr (e_Filename e))])
       else None)\<rparr>"

definition ruleHostDockerSock :: legacy_rule where
  "ruleHostDockerSock = \<lparr>
     lr_ID = ''host_docker_sock'', lr_Desc = ''Docker control socket opened by non-Docker process'',
     lr_Severity = SeverityHigh, lr_Scope = ScopeHost, lr_Tactic = ''Privilege Escalation'',
     lr_Technique = ''T1610'', lr_Tags = [''host'', ''docker'', ''escape''],
     lr_Match = (\<lambda>e c scope.
       if e_Type e \<noteq> EventOpen then None
       else if e_Filename e \<noteq> ''/var/run/docker.sock'' \<and> e_Filename e \<noteq> ''/run/docker.sock'' then None
       else
         (let comm = det_processName e in
          if isDockerClient c comm then None
          else a_hit []
            ''Docker control socket opened by non-Docker process on host (escape / lateral movement)''
            [(''process'', GStr comm), (''file'', GStr (e_Filename e))]))\<rparr>"

definition ruleHostTmpExec :: legacy_rule where
  "ruleHostTmpExec = \<lparr>
     lr_ID = ''host_tmp_exec'', lr_Desc = ''Execution from a world-writable temp dir on host'',
     lr_Severity = SeverityHigh, lr_Scope = ScopeHost, lr_Tactic = ''Execution'',
     lr_Technique = ''T1204.002'', lr_Tags = [''host'', ''drift''],
     lr_Match = (\<lambda>e c scope.
       if e_Type e \<noteq> EventExecve \<or> e_Filename e = [] then None
       else if \<not> hasAnyPrefix (e_Filename e) hostTmpExecDirs then None
       else if list_ex (\<lambda>a. to_lower a \<in> set buildLineageComms) (writerChain e) then None
       else if trustedWriter c (writerChain e) then None
       else a_hit [] ''binary executed from world-writable temp dir on host''
         [(''path'', GStr (e_Filename e))])\<rparr>"

definition ruleHostShellFromService :: legacy_rule where
  "ruleHostShellFromService = \<lparr>
     lr_ID = ''host_shell_from_service'', lr_Desc = ''Shell spawned by a network-facing service on host'',
     lr_Severity = SeverityCritical, lr_Scope = ScopeHost, lr_Tactic = ''Execution'',
     lr_Technique = ''T1059'', lr_Tags = [''host'', ''shell'', ''rce''],
     lr_Match = (\<lambda>e c scope.
       let bin = execBinary e in
       if e_Type e \<noteq> EventExecve \<or> bin \<notin> set shells then None
       else if classify c (e_Ancestry e) scope = lineageNetwork then
         a_hit [] ''shell spawned by network-facing service on host (possible RCE)''
           [(''shell'', GStr bin), (''spawned_by'', GStr (networkParent c (e_Ancestry e)))]
       else None)\<rparr>"

definition defaultRules :: "legacy_rule list" where
  "defaultRules =
     [ruleKernelModuleLoad, ruleBPFProgLoad, ruleReverseShell, ruleProcessInjection,
      rulePersistence, ruleShellInContainer, rulePrivilegedProcess, ruleNetworkTool,
      ruleContainerDrift, rulePackageManager, ruleSensitiveFileAccess, ruleCredentialFileAccess,
      ruleHostUserManipulation, ruleHostLogTampering, ruleHostDockerSock, ruleHostTmpExec,
      ruleHostShellFromService]"

section \<open>Findings\<close>

text \<open>
  The evaluation loop of the parity test, which keeps the hit's severity over the rule's default
  when it is set; here with the reason as well, in the order of the rules.
\<close>

definition legacy_finding :: "event \<Rightarrow> classifier \<Rightarrow> scope \<Rightarrow> legacy_rule \<Rightarrow> (legacy_rule \<times> severity \<times> string) option" where
  "legacy_finding e c scope r =
     (if lr_Scope r AND scope = 0 then None
      else (case lr_Match r e c scope of
          None \<Rightarrow> None
        | Some h \<Rightarrow> Some (r, (if h_Severity h \<noteq> [] then h_Severity h else lr_Severity r), h_Reason h)))"

definition legacyFindings :: "legacy_rule list \<Rightarrow> event \<Rightarrow> classifier \<Rightarrow> scope \<Rightarrow>
    (legacy_rule \<times> severity \<times> string) list" where
  "legacyFindings rules e c scope = List.map_filter (legacy_finding e c scope) rules"

end
