(* ===== verification/Suppress.thy ===== *)
theory Suppress
  imports Prelude
begin

text \<open>
  Operator-defined false-positive suppression, \<open>internal/suppress/suppress.go\<close>: the
  records \<open>Rule\<close> and \<open>Target\<close> and the functions \<open>Empty\<close>, \<open>Match\<close> and
  \<open>Suppresses\<close>. \<open>criteria\<close> is the conjunction of the criteria a rule sets. What a set of rules
  silences, in terms of the alerts that are raised, is stated and proved in \<open>Detection\<close>.
\<close>

record supp_rule =
  s_ID :: string
  s_RuleID :: string
  s_Scope :: string
  s_Hostname :: string
  s_ContainerName :: string
  s_ProcessName :: string
  s_Substr :: string
  s_Reason :: string
  s_CreatedBy :: string
  s_CreatedAt :: time

record target =
  t_RuleID :: string
  t_Scope :: string
  t_Hostname :: string
  t_ContainerName :: string
  t_ProcessName :: string
  t_Haystack :: string

type_synonym supp_set = "supp_rule list"

definition Empty :: "supp_rule \<Rightarrow> bool" where
  "Empty r \<longleftrightarrow> trim_space (s_RuleID r) = [] \<and> trim_space (s_ContainerName r) = [] \<and>
     trim_space (s_ProcessName r) = [] \<and> trim_space (s_Substr r) = []"

definition Match :: "supp_rule \<Rightarrow> target \<Rightarrow> bool" where
  "Match r t =
     (if Empty r then False
      else if (let s = trim_space (s_RuleID r) in s \<noteq> [] \<and> \<not> equal_fold s (t_RuleID t)) then False
      else if (let s = trim_space (s_Scope r) in s \<noteq> [] \<and> \<not> equal_fold s (t_Scope t)) then False
      else if (let s = trim_space (s_Hostname r) in s \<noteq> [] \<and> \<not> equal_fold s (t_Hostname t)) then False
      else if (let s = trim_space (s_ContainerName r) in
                 s \<noteq> [] \<and> \<not> equal_fold s (t_ContainerName t)) then False
      else if (let s = trim_space (s_ProcessName r) in
                 s \<noteq> [] \<and> \<not> equal_fold s (t_ProcessName t)) then False
      else if (let s = trim_space (s_Substr r) in
                 s \<noteq> [] \<and> \<not> contains (to_lower (t_Haystack t)) (to_lower s)) then False
      else True)"

fun Suppresses :: "supp_set \<Rightarrow> target \<Rightarrow> bool" where
  "Suppresses [] t = False"
| "Suppresses (r # rs) t = (if Match r t then True else Suppresses rs t)"

section \<open>Specification\<close>

text \<open>One criterion: unset (blank) or satisfied.\<close>

definition criterion :: "string \<Rightarrow> string \<Rightarrow> bool" where
  "criterion want got \<longleftrightarrow> trim_space want = [] \<or> equal_fold (trim_space want) got"

definition substr_criterion :: "string \<Rightarrow> string \<Rightarrow> bool" where
  "substr_criterion want hay \<longleftrightarrow>
     trim_space want = [] \<or> contains (to_lower hay) (to_lower (trim_space want))"

definition criteria :: "supp_rule \<Rightarrow> target \<Rightarrow> bool" where
  "criteria r t \<longleftrightarrow>
     criterion (s_RuleID r) (t_RuleID t) \<and> criterion (s_Scope r) (t_Scope t) \<and>
     criterion (s_Hostname r) (t_Hostname t) \<and> criterion (s_ContainerName r) (t_ContainerName t) \<and>
     criterion (s_ProcessName r) (t_ProcessName t) \<and> substr_criterion (s_Substr r) (t_Haystack t)"

lemma Match_iff: "Match r t \<longleftrightarrow> \<not> Empty r \<and> criteria r t"
  by (auto simp: Match_def criteria_def criterion_def substr_criterion_def Let_def)

lemma Suppresses_iff: "Suppresses rs t \<longleftrightarrow> (\<exists>r \<in> set rs. Match r t)"
  by (induction rs) auto

lemma Suppresses_append: "Suppresses (rs @ qs) t \<longleftrightarrow> Suppresses rs t \<or> Suppresses qs t"
  by (auto simp: Suppresses_iff)

text \<open>Narrowing: replacing a blank criterion by any other silences no further alert.\<close>

definition narrows :: "supp_rule \<Rightarrow> supp_rule \<Rightarrow> bool" where
  "narrows r' r \<longleftrightarrow>
     (let le = (\<lambda>x' x. trim_space x = [] \<or> trim_space x = trim_space x') in
      le (s_RuleID r') (s_RuleID r) \<and> le (s_Scope r') (s_Scope r) \<and>
      le (s_Hostname r') (s_Hostname r) \<and> le (s_ContainerName r') (s_ContainerName r) \<and>
      le (s_ProcessName r') (s_ProcessName r) \<and> le (s_Substr r') (s_Substr r))"

lemma narrows_criteria: "narrows r' r \<Longrightarrow> criteria r' t \<Longrightarrow> criteria r t"
  unfolding narrows_def criteria_def criterion_def substr_criterion_def Let_def by metis

section \<open>Properties\<close>

text \<open>
  Narrowing is safe: a suppression rule obtained from another by filling in blank criteria
  silences nothing that the original does not, as long as the original is not inert.
\<close>

theorem narrowing_suppresses_less:
  assumes "narrows r' r" and "\<not> Empty r" and "Suppresses (rs @ r' # qs) t"
  shows "Suppresses (rs @ r # qs) t"
  using assms narrows_criteria [of r' r t] by (auto simp: Suppresses_iff Match_iff)

theorem narrowing_suppresses_less_witness:
  "Suppresses ([] @ \<lparr>s_ID = [], s_RuleID = ''reverse_shell'', s_Scope = [], s_Hostname = [],
       s_ContainerName = [], s_ProcessName = [], s_Substr = [], s_Reason = [], s_CreatedBy = [],
       s_CreatedAt = 0\<rparr> # [])
     \<lparr>t_RuleID = ''Reverse_Shell'', t_Scope = ''host'', t_Hostname = ''h'',
       t_ContainerName = [], t_ProcessName = ''bash'', t_Haystack = ''nc -e''\<rparr>"
  by (rule narrowing_suppresses_less [where r' = "\<lparr>s_ID = [], s_RuleID = ''reverse_shell'',
        s_Scope = '' host '', s_Hostname = [], s_ContainerName = [], s_ProcessName = [], s_Substr = [],
        s_Reason = [], s_CreatedBy = [], s_CreatedAt = 0\<rparr>"]) code_simp+

end
