(* ===== verification/Detector.thy ===== *)
theory Detector
  imports Suppress RulesParity
begin

text \<open>
  The detector, \<open>internal/detector/detector.go\<close>: exceptions, evaluation of the ruleset, operator
  suppressions, deduplication and the alerts built. \<open>Check\<close> and \<open>duplicate\<close> return the detector with
  its \<open>seen\<close> map updated. \<open>duplicate\<close> reads the clock once per call: \<open>Check\<close> takes the clock as the
  readings in order. The locks are not modelled: each operation holds them for its whole duration.
\<close>

record detector =
  d_class :: classifier
  d_lp :: provider
  d_exceptions :: "string list"
  d_serverName :: string
  d_eng :: "compiled_rule list option"
  d_seen :: "(string \<times> time) list"
  d_dedupTTL :: duration
  d_supp :: supp_set

definition SetSuppressions :: "supp_set \<Rightarrow> detector \<Rightarrow> detector" where
  "SetSuppressions s d = d\<lparr>d_supp := s\<rparr>"

definition SetRuleset :: "compiled_rule list option \<Rightarrow> detector \<Rightarrow> detector" where
  "SetRuleset e d = (if e = None then d else d\<lparr>d_eng := e\<rparr>)"

definition New_exceptions :: "string list \<Rightarrow> string list" where
  "New_exceptions es = filter (\<lambda>s. s \<noteq> []) (map (\<lambda>e. to_lower (trim_space e)) es)"

definition det_New :: "(string \<Rightarrow> (string \<times> bool) list option) \<Rightarrow> (string \<Rightarrow> string option) \<Rightarrow>
    (string \<Rightarrow> (rule_err, rule_file) res) \<Rightarrow> config \<Rightarrow> detector" where
  "det_New readDir readFile decode cfg =
     (let load = load_ruleset default_file readDir readFile decode;
          eng = (case load (cfg_RulesFile cfg) (cfg_RulesDir cfg) of
              Inr rs \<Rightarrow> Some rs
            | Inl _ \<Rightarrow> (case load [] [] of Inr rs \<Rightarrow> Some rs | Inl _ \<Rightarrow> None));
          class = newClassifier (Some cfg)
      in \<lparr>d_class = class, d_lp = lineageAdapter class,
          d_exceptions = New_exceptions (cfg_DetectionExceptions cfg),
          d_serverName = cfg_ServerName cfg, d_eng = eng, d_seen = [],
          d_dedupTTL = 30 * 1000000000, d_supp = []\<rparr>)"

section \<open>Exceptions\<close>

definition eventHaystack :: "event \<Rightarrow> string" where
  "eventHaystack e =
     (let (name, image) = (case e_Container e of None \<Rightarrow> ([], []) | Some i \<Rightarrow> (c_Name i, c_ImageName i))
      in to_lower (join '' '' [name, image, e_CmdLine e, join '' '' (e_Ancestry e)]))"

definition excepted :: "detector \<Rightarrow> event \<Rightarrow> bool" where
  "excepted d e =
     (if d_exceptions d = [] then False
      else list_ex (\<lambda>ex. contains (eventHaystack e) ex) (d_exceptions d))"

section \<open>Deduplication\<close>

definition dedup_key :: "string \<Rightarrow> event \<Rightarrow> string" where
  "dedup_key ruleID e =
     ruleID @ ''|'' @ (case e_Container e of Some i \<Rightarrow> c_ID i | None \<Rightarrow> ''host'') @ ''|'' @
     show_nat (unat (e_PID e))"

text \<open>\<open>duplicate\<close> for a key at the clock reading \<open>now\<close>, on the \<open>seen\<close> map.\<close>

definition seen_step :: "duration \<Rightarrow> string \<Rightarrow> time \<Rightarrow> (string \<times> time) list \<Rightarrow> bool \<times> (string \<times> time) list" where
  "seen_step ttl key now seen =
     (let seen1 = filter (\<lambda>(k, t). \<not> ttl < time_sub now t) seen in
      case map_of seen1 key of
        Some t \<Rightarrow> if time_sub now t \<le> ttl then (True, seen1) else (False, AList.update key now seen1)
      | None \<Rightarrow> (False, AList.update key now seen1))"

definition duplicate :: "detector \<Rightarrow> string \<Rightarrow> event \<Rightarrow> time \<Rightarrow> bool \<times> detector" where
  "duplicate d ruleID e now =
     (let (dup, seen) = seen_step (d_dedupTTL d) (dedup_key ruleID e) now (d_seen d)
      in (dup, d\<lparr>d_seen := seen\<rparr>))"

section \<open>Check\<close>

definition buildAlert :: "result \<Rightarrow> event \<Rightarrow> alert" where
  "buildAlert res e =
     (let parent = (case e_Ancestry e of [] \<Rightarrow> [] | p # _ \<Rightarrow> p);
          a = empty_alert\<lparr>a_RuleID := r_RuleID res, a_Severity := r_Severity res, a_Reason := r_Reason res,
            a_Scope := ScopeContainerName, a_MITRETTP := r_Technique res, a_MITRETactic := r_Tactic res,
            a_KillChainPhase := r_Tactic res, a_Tags := r_Tags res, a_PID := e_PID e,
            a_ProcessName := det_processName e, a_ParentName := parent, a_Ancestry := e_Ancestry e,
            a_CmdLine := e_CmdLine e, a_Syscall := TypeName e, a_Timestamp := e_Timestamp e,
            a_Details := r_Details res\<rparr>
      in (case e_Container e of
            Some i \<Rightarrow> a\<lparr>a_ContainerID := c_ID i, a_ContainerName := c_Name i, a_ImageName := c_ImageName i\<rparr>
          | None \<Rightarrow> a\<lparr>a_Scope := ScopeHostName\<rparr>))"

definition check_target :: "detector \<Rightarrow> event \<Rightarrow> result \<Rightarrow> target" where
  "check_target d e res =
     \<lparr>t_RuleID = r_RuleID res,
      t_Scope = (if IsHost e then ScopeHostName else ScopeContainerName),
      t_Hostname = (if e_Container e = None then d_serverName d else []),
      t_ContainerName = (case e_Container e of Some i \<Rightarrow> c_Name i | None \<Rightarrow> []),
      t_ProcessName = det_processName e, t_Haystack = eventHaystack e\<rparr>"

fun check_loop :: "supp_set \<Rightarrow> event \<Rightarrow> (nat \<Rightarrow> time) \<Rightarrow> nat \<Rightarrow> result list \<Rightarrow> detector \<Rightarrow> alert list \<times> detector" where
  "check_loop supp e clock n [] d = ([], d)"
| "check_loop supp e clock n (res # rest) d =
     (if supp \<noteq> [] \<and> Suppresses supp (check_target d e res) then check_loop supp e clock n rest d
      else
        (let (dup, d') = duplicate d (r_RuleID res) e (clock n) in
         if dup then check_loop supp e clock (Suc n) rest d'
         else (let (alerts, d'') = check_loop supp e clock (Suc n) rest d'
               in (buildAlert res e # alerts, d''))))"

definition Check :: "detector \<Rightarrow> event \<Rightarrow> (nat \<Rightarrow> time) \<Rightarrow> alert list \<times> detector" where
  "Check d e clock =
     (if excepted d e then ([], d)
      else (case d_eng d of
          None \<Rightarrow> ([], d)
        | Some rules \<Rightarrow>
            (let scope = (if IsHost e then ScopeHost else ScopeContainer)
             in check_loop (d_supp d) e clock 0 (engine_Match rules e (d_lp d) scope) d)))"

section \<open>Deduplication against its specification\<close>

text \<open>
  The specification keeps every emission for ever: a call is a duplicate when its key was emitted
  within the time to live.
\<close>

fun dedup_spec :: "duration \<Rightarrow> (string \<times> time) list \<Rightarrow> (string \<times> time) list \<Rightarrow> bool list" where
  "dedup_spec ttl emitted [] = []"
| "dedup_spec ttl emitted ((k, now) # calls) =
     (let dup = (\<exists>t. (k, t) \<in> set emitted \<and> now - t \<le> ttl)
      in dup # dedup_spec ttl (if dup then emitted else (k, now) # emitted) calls)"

fun dedup_run :: "duration \<Rightarrow> (string \<times> time) list \<Rightarrow> (string \<times> time) list \<Rightarrow> bool list" where
  "dedup_run ttl seen [] = []"
| "dedup_run ttl seen ((k, now) # calls) =
     (let (dup, seen') = seen_step ttl k now seen in dup # dedup_run ttl seen' calls)"

text \<open>The map holds the emissions that can still make a call at or after \<open>now\<close> a duplicate.\<close>

definition seen_ok :: "duration \<Rightarrow> time \<Rightarrow> (string \<times> time) list \<Rightarrow> (string \<times> time) list \<Rightarrow> bool" where
  "seen_ok ttl now emitted seen \<longleftrightarrow> distinct (map fst seen) \<and> set seen \<subseteq> set emitted \<and>
     (\<forall>(k, t) \<in> set emitted. now - t \<le> ttl \<longrightarrow> (k, t) \<in> set seen)"

lemma seen_ok_mono: "seen_ok ttl now em seen \<Longrightarrow> now \<le> now' \<Longrightarrow> seen_ok ttl now' em seen"
  by (fastforce simp: seen_ok_def)

lemma seen_step_spec:
  assumes "seen_ok ttl now em seen" and "0 \<le> ttl" and "ttl < max_duration"
  shows "fst (seen_step ttl k now seen) = (\<exists>t. (k, t) \<in> set em \<and> now - t \<le> ttl) \<and>
    seen_ok ttl now (if fst (seen_step ttl k now seen) then em else (k, now) # em) (snd (seen_step ttl k now seen))"
proof -
  have ttl: "min_duration \<le> ttl" using assms(2) by (simp add: min_duration_def)
  note le = time_sub_le_iff [OF assms(3) ttl] and gt = time_sub_greater_iff [OF assms(3) ttl]
  define seen1 where "seen1 = filter (\<lambda>(k, t). \<not> ttl < time_sub now t) seen"
  have d1: "distinct (map fst seen1)"
    using assms(1) by (simp add: seen1_def seen_ok_def distinct_map_filter)
  have s1: "set seen1 = {(k, t) \<in> set em. now - t \<le> ttl}"
    using assms(1) by (auto simp: seen1_def seen_ok_def gt)
  show ?thesis
  proof (cases "map_of seen1 k")
    case None
    then have fresh: "k \<notin> fst ` set seen1" by (simp add: map_of_eq_None_iff)
    have "\<nexists>t. (k, t) \<in> set em \<and> now - t \<le> ttl"
    proof
      assume "\<exists>t. (k, t) \<in> set em \<and> now - t \<le> ttl"
      then obtain t where "(k, t) \<in> set seen1" unfolding s1 by blast
      with fresh show False by force
    qed
    moreover from fresh have u: "AList.update k now seen1 = seen1 @ [(k, now)]"
      by (rule update_fresh)
    have "seen_ok ttl now ((k, now) # em) (AList.update k now seen1)"
      using d1 fresh s1 unfolding u seen_ok_def by auto
    ultimately show ?thesis using None by (simp add: seen_step_def Let_def flip: seen1_def)
  next
    case (Some t)
    then have "(k, t) \<in> set seen1" by (rule map_of_SomeD)
    then have t: "(k, t) \<in> set em" "now - t \<le> ttl" unfolding s1 by auto
    moreover have "seen_ok ttl now em seen1"
      using d1 unfolding seen_ok_def s1 by auto
    ultimately show ?thesis using Some by (auto simp: seen_step_def Let_def le simp flip: seen1_def)
  qed
qed

lemma dedup_run_spec:
  assumes "seen_ok ttl now em seen" and "sorted (now # map snd calls)"
    and "0 \<le> ttl" and "ttl < max_duration"
  shows "dedup_run ttl seen calls = dedup_spec ttl em calls"
  using assms(1,2)
proof (induction calls arbitrary: now em seen)
  case (Cons c calls)
  obtain k t where c: "c = (k, t)" by fastforce
  obtain dup seen' where s: "seen_step ttl k t seen = (dup, seen')" by fastforce
  have "seen_ok ttl t em seen" using Cons.prems c by (auto intro: seen_ok_mono)
  note spec = seen_step_spec [OF this assms(3,4), of k, unfolded s fst_conv snd_conv]
  from spec have dup: "dup = (\<exists>u. (k, u) \<in> set em \<and> t - u \<le> ttl)" by (rule conjunct1)
  from spec have ok: "seen_ok ttl t (if dup then em else (k, t) # em) seen'" by (rule conjunct2)
  have "dedup_run ttl seen' calls = dedup_spec ttl (if dup then em else (k, t) # em) calls"
    by (rule Cons.IH [OF ok]) (use Cons.prems(2) c in simp)
  then show ?case by (simp add: c s Let_def dup [symmetric])
qed simp

text \<open>On the specification: two emissions of one key are more than the time to live apart.\<close>

lemma dedup_spec_length: "length (dedup_spec ttl em calls) = length calls"
  by (induction ttl em calls rule: dedup_spec.induct) (simp_all add: Let_def)

lemma dedup_spec_emitted:
  "j < length calls \<Longrightarrow> \<not> dedup_spec ttl em calls ! j \<Longrightarrow> (fst (calls ! j), t) \<in> set em \<Longrightarrow>
   ttl < snd (calls ! j) - t"
proof (induction ttl em calls arbitrary: j rule: dedup_spec.induct)
  case (2 ttl em k now calls)
  show ?case
  proof (cases j)
    case 0
    with "2.prems" show ?thesis by (auto simp: Let_def)
  next
    case (Suc i)
    with "2.prems" "2.IH" [OF refl, of i] show ?thesis by (auto simp: Let_def)
  qed
qed simp

lemma dedup_spec_spacing:
  "i < j \<Longrightarrow> j < length calls \<Longrightarrow> \<not> dedup_spec ttl em calls ! i \<Longrightarrow> \<not> dedup_spec ttl em calls ! j \<Longrightarrow>
   fst (calls ! i) = fst (calls ! j) \<Longrightarrow> ttl < snd (calls ! j) - snd (calls ! i)"
proof (induction ttl em calls arbitrary: i j rule: dedup_spec.induct)
  case (2 ttl em k now calls)
  obtain j' where j: "j = Suc j'" using "2.prems"(1) by (cases j) auto
  show ?case
  proof (cases i)
    case 0
    with "2.prems" j have "\<not> (\<exists>t. (k, t) \<in> set em \<and> now - t \<le> ttl)" and
      "\<not> dedup_spec ttl ((k, now) # em) calls ! j'" by (auto simp: Let_def split: if_splits)
    with dedup_spec_emitted [of j' calls ttl "(k, now) # em" now] "2.prems" 0 j show ?thesis by auto
  next
    case (Suc i')
    with "2.prems" "2.IH" [OF refl, of i' j'] j show ?thesis by (auto simp: Let_def)
  qed
qed simp

section \<open>Suppression before deduplication\<close>

definition unsuppressed :: "supp_set \<Rightarrow> detector \<Rightarrow> event \<Rightarrow> result list \<Rightarrow> result list" where
  "unsuppressed supp d e rs = filter (\<lambda>r. \<not> Suppresses supp (check_target d e r)) rs"

lemma check_target_seen [simp]: "check_target (d\<lparr>d_seen := s\<rparr>) e r = check_target d e r"
  by (simp add: check_target_def)

lemma duplicate_seen: "duplicate d r e now = (dup, d') \<Longrightarrow> \<exists>s. d' = d\<lparr>d_seen := s\<rparr>"
  by (auto simp: duplicate_def split: prod.splits)

lemma unsuppressed_seen [simp]: "unsuppressed supp (d\<lparr>d_seen := s\<rparr>) e rs = unsuppressed supp d e rs"
  by (simp add: unsuppressed_def)

lemma Suppresses_nonempty: "Suppresses supp t \<Longrightarrow> supp \<noteq> []"
  by auto

lemma check_loop_unsuppressed:
  "check_loop supp e clock n rs d = check_loop [] e clock n (unsuppressed supp d e rs) d"
proof (induction supp e clock n rs d rule: check_loop.induct)
  case (1 supp e clock n d)
  then show ?case by (simp add: unsuppressed_def)
next
  case (2 supp e clock n res rest d)
  show ?case
  proof (cases "Suppresses supp (check_target d e res)")
    case True
    with "2.IH"(1) show ?thesis by (auto simp: unsuppressed_def)
  next
    case False
    obtain dup d' where u: "duplicate d (r_RuleID res) e (clock n) = (dup, d')" by fastforce
    then obtain s where d': "d' = d\<lparr>d_seen := s\<rparr>" using duplicate_seen by blast
    have un: "unsuppressed supp d e (res # rest) = res # unsuppressed supp d e rest"
      using False by (simp add: unsuppressed_def)
    have IH: "check_loop supp e clock (Suc n) rest d' =
        check_loop [] e clock (Suc n) (unsuppressed supp d e rest) d'"
      using "2.IH"(2,3) False u d' by (cases dup) auto
    show ?thesis using False u IH unfolding un by simp
  qed
qed


lemma check_loop_subseq:
  "\<exists>xs. fst (check_loop [] e clock n rs d) = map (\<lambda>r. buildAlert r e) xs \<and> subseq xs rs"
proof (induction rs arbitrary: n d)
  case (Cons res rest)
  obtain dup d' where u: "duplicate d (r_RuleID res) e (clock n) = (dup, d')" by fastforce
  from Cons.IH [of "Suc n" d'] obtain ys where
    ys: "fst (check_loop [] e clock (Suc n) rest d') = map (\<lambda>r. buildAlert r e) ys" "subseq ys rest"
    by blast
  show ?case
  proof (cases dup)
    case True
    with u ys show ?thesis by (intro exI [of _ ys]) auto
  next
    case False
    with u ys show ?thesis by (intro exI [of _ "res # ys"]) (auto split: prod.splits)
  qed
qed simp

section \<open>Traces of deduplication calls\<close>

text \<open>The answers of \<open>duplicate\<close> to a sequence of calls: rule, event, clock reading.\<close>

fun dup_run :: "detector \<Rightarrow> (string \<times> event \<times> time) list \<Rightarrow> bool list" where
  "dup_run d [] = []"
| "dup_run d ((r, e, now) # calls) =
     (let (dup, d') = duplicate d r e now in dup # dup_run d' calls)"

definition call_key :: "string \<times> event \<times> time \<Rightarrow> string \<times> time" where
  "call_key c = (case c of (r, e, now) \<Rightarrow> (dedup_key r e, now))"

lemma dup_run_dedup: "dup_run d calls = dedup_run (d_dedupTTL d) (d_seen d) (map call_key calls)"
  by (induction d calls rule: dup_run.induct)
     (auto simp: duplicate_def call_key_def split: prod.splits)

lemma dup_run_spec:
  assumes "sorted (map (snd \<circ> snd) calls)" and "d_seen d = []" and "0 \<le> d_dedupTTL d"
    and "d_dedupTTL d < max_duration"
  shows "dup_run d calls = dedup_spec (d_dedupTTL d) [] (map call_key calls)"
proof (cases calls)
  case (Cons c cs)
  have snds: "map snd (map call_key calls) = map (snd \<circ> snd) calls"
    by (auto simp: call_key_def split: prod.splits)
  have "sorted (snd (call_key c) # map snd (map call_key calls))"
    unfolding snds using assms(1) Cons by (auto simp: call_key_def split: prod.splits)
  with assms show ?thesis
    unfolding dup_run_dedup assms(2)
    by (intro dedup_run_spec [where now = "snd (call_key c)"]) (simp_all add: seen_ok_def)
qed simp

section \<open>A detector as New builds it\<close>

lemma New_armed: "\<exists>rs. d_eng (det_New readDir readFile decode cfg) = Some rs"
  by (auto simp: det_New_def Let_def default_loads split: sum.splits)

lemma New_rules_ok:
  "d_eng (det_New readDir readFile decode cfg) = Some rs \<Longrightarrow> list_all rule_ok rs \<and> distinct (map cr_ID rs)"
  by (auto simp: det_New_def Let_def split: sum.splits dest: load_ruleset_ok)

lemma New_simps [simp]:
  "d_seen (det_New rd rf dec cfg) = []" "d_dedupTTL (det_New rd rf dec cfg) = 30000000000"
  "d_lp (det_New rd rf dec cfg) = lineageAdapter (newClassifier (Some cfg))"
  by (simp_all add: det_New_def Let_def)

lemma ttl_in_range: "(30000000000 :: duration) < max_duration"
  by (simp add: max_duration_def)

section \<open>The alerts of a check\<close>

lemma Check_eq:
  "d_eng d = Some rules \<Longrightarrow> \<not> excepted d e \<Longrightarrow>
   Check d e clock =
     check_loop [] e clock 0 (unsuppressed (d_supp d) d e (findings (e, d_lp d, event_scope e) rules)) d"
  using check_loop_unsuppressed [of "d_supp d" e clock 0 "findings (e, d_lp d, event_scope e) rules" d]
  by (simp add: Check_def Match_findings event_scope_def)

lemma findings_iff: "x \<in> set (findings v rs) \<longleftrightarrow> (\<exists>r \<in> set rs. finding v r = Some x)"
  by (force simp: findings_def List.map_filter_def)

lemma findings_ids_distinct: "distinct (map cr_ID rs) \<Longrightarrow> distinct (map r_RuleID (findings v rs))"
proof (induction rs)
  case (Cons r rs)
  have "r_RuleID x \<noteq> cr_ID r" if "x \<in> set (findings v rs)" for x
  proof -
    from that obtain r' where "r' \<in> set rs" "r_RuleID x = cr_ID r'"
      by (auto simp: findings_iff dest: finding_RuleID)
    with Cons.prems show ?thesis by force
  qed
  then have "cr_ID r \<notin> set (map r_RuleID (findings v rs))"
    unfolding set_map image_iff by metis
  with Cons show ?case
    by (cases "finding v r") (simp_all add: findings_def List.map_filter_simps finding_RuleID)
qed (simp add: findings_def List.map_filter_simps)

lemma seen_step_fresh:
  assumes "key \<notin> fst ` set seen"
  shows "\<exists>seen'. seen_step ttl key now seen = (False, seen' @ [(key, now)]) \<and> set seen' \<subseteq> set seen"
proof -
  define seen1 where "seen1 = filter (\<lambda>(k, t). \<not> ttl < time_sub now t) seen"
  have sub: "set seen1 \<subseteq> set seen" by (auto simp: seen1_def)
  with assms have "key \<notin> fst ` set seen1" by blast
  then have "map_of seen1 key = None" "AList.update key now seen1 = seen1 @ [(key, now)]"
    by (simp_all add: map_of_eq_None_iff update_fresh)
  with sub show ?thesis by (simp add: seen_step_def Let_def flip: seen1_def)
qed

lemma check_loop_fresh:
  "distinct (map r_RuleID rs) \<Longrightarrow> (\<And>r. r \<in> set rs \<Longrightarrow> dedup_key (r_RuleID r) e \<notin> fst ` set (d_seen d)) \<Longrightarrow>
   fst (check_loop [] e clock n rs d) = map (\<lambda>r. buildAlert r e) rs"
proof (induction rs arbitrary: n d)
  case (Cons r rs)
  let ?k = "dedup_key (r_RuleID r) e"
  have k: "?k \<notin> fst ` set (d_seen d)" using Cons.prems(2) by simp
  then obtain seen1 where s: "seen_step (d_dedupTTL d) ?k (clock n) (d_seen d) = (False, seen1 @ [(?k, clock n)])"
    and sub1: "set seen1 \<subseteq> set (d_seen d)"
    using seen_step_fresh by blast
  define seen' where "seen' = seen1 @ [(?k, clock n)]"
  have sub: "fst ` set seen' \<subseteq> insert ?k (fst ` set (d_seen d))" using sub1 by (auto simp: seen'_def)
  have "fst (check_loop [] e clock (Suc n) rs (d\<lparr>d_seen := seen'\<rparr>)) = map (\<lambda>r. buildAlert r e) rs"
  proof (rule Cons.IH)
    fix r' assume r': "r' \<in> set rs"
    then have "r_RuleID r' \<in> set (map r_RuleID rs)" by simp
    with Cons.prems(1) have "r_RuleID r' \<noteq> r_RuleID r" by (metis distinct.simps(2) list.simps(9))
    then have "dedup_key (r_RuleID r') e \<noteq> ?k" by (simp add: dedup_key_def)
    with Cons.prems(2) [of r'] r' sub show "dedup_key (r_RuleID r') e \<notin> fst ` set (d_seen (d\<lparr>d_seen := seen'\<rparr>))"
      by auto
  qed (use Cons.prems in simp)
  with s show ?case by (auto simp: duplicate_def seen'_def split: prod.splits)
qed simp

lemma excepted_SetSuppressions [simp]: "excepted (SetSuppressions supp d) e = excepted d e"
  by (simp add: SetSuppressions_def excepted_def)

text \<open>Every alert of a check comes from a finding that nothing silences.\<close>

lemma Check_alert:
  assumes "a \<in> set (fst (Check d e clock))" and "d_eng d = Some rules" and "list_all rule_ok rules"
  shows "\<not> excepted d e \<and> severity_ok (a_Severity a) \<and>
    (\<exists>r x. r \<in> set rules \<and> finding (e, d_lp d, event_scope e) r = Some x \<and>
       \<not> Suppresses (d_supp d) (check_target d e x) \<and> a = buildAlert x e)"
proof -
  have ne: "\<not> excepted d e" using assms(1) by (auto simp: Check_def)
  let ?fs = "unsuppressed (d_supp d) d e (findings (e, d_lp d, event_scope e) rules)"
  obtain xs where "fst (Check d e clock) = map (\<lambda>r. buildAlert r e) xs" "subseq xs ?fs"
    using check_loop_subseq [of e clock 0 ?fs d] Check_eq [OF assms(2) ne] by auto
  with assms(1) obtain x where x: "a = buildAlert x e" "subseq [x] ?fs"
    by (auto simp flip: subseq_singleton_left dest: subseq_order.trans)
  then obtain r where r: "r \<in> set rules" "finding (e, d_lp d, event_scope e) r = Some x"
    "\<not> Suppresses (d_supp d) (check_target d e x)"
    by (auto simp: unsuppressed_def findings_iff subseq_singleton_left)
  have "severity_ok (r_Severity x)"
    using rule_ok_severity [OF _ r(2)] assms(3) r(1) by (simp add: list_all_iff)
  moreover have "a_Severity a = r_Severity x"
    by (simp add: x(1) buildAlert_def Let_def split: option.splits)
  ultimately show ?thesis using ne r x by auto
qed

section \<open>Properties\<close>

text \<open>
  Deduplication by a pruned map behaves as if every emission were kept for ever: with a clock
  that does not go back, \<open>duplicate\<close> answers yes exactly when the same rule fired for the same
  container (or the host) and process within the last 30 seconds.
\<close>

theorem dedup_refines_history:
  assumes "sorted (map (snd \<circ> snd) calls)"
  shows "dup_run (det_New rd rf dec cfg) calls = dedup_spec 30000000000 [] (map call_key calls)"
  using dup_run_spec [OF assms, of "det_New rd rf dec cfg"] ttl_in_range by simp

theorem dedup_refines_history_witness:
  "dup_run (det_New (\<lambda>_. None) (\<lambda>_. None) (\<lambda>_. Inl MissingID) (load_fields (\<lambda>_. []))) [(''r'', empty_event, 5), (''r'', empty_event, 30000000005),
     (''r'', empty_event, 30000000006)] =
   dedup_spec 30000000000 [] (map call_key [(''r'', empty_event, 5), (''r'', empty_event, 30000000005),
     (''r'', empty_event, 30000000006)])"
  by (rule dedup_refines_history) simp

text \<open>
  No alert storm: two findings of one rule for one container and process that \<open>duplicate\<close> both
  lets through are more than 30 seconds apart.
\<close>

theorem emissions_spaced:
  assumes "sorted (map (snd \<circ> snd) calls)" and "i < j" and "j < length calls"
    and "\<not> dup_run (det_New rd rf dec cfg) calls ! i" and "\<not> dup_run (det_New rd rf dec cfg) calls ! j"
    and "fst (call_key (calls ! i)) = fst (call_key (calls ! j))"
  shows "30000000000 < snd (call_key (calls ! j)) - snd (call_key (calls ! i))"
  using dup_run_spec [OF assms(1), of "det_New rd rf dec cfg"] ttl_in_range assms
    dedup_spec_spacing [of i j "map call_key calls" 30000000000 "[]"] by simp

theorem emissions_spaced_witness:
  "(30000000000 :: int) < snd (call_key (''r'', empty_event, 30000000006)) - snd (call_key (''r'', empty_event, 5))"
proof -
  let ?d = "det_New (\<lambda>_. None) (\<lambda>_. None) (\<lambda>_. Inl MissingID) (load_fields (\<lambda>_. []))"
  let ?calls = "[(''r'', empty_event, 5), (''r'', empty_event, 30000000006)] :: (string \<times> event \<times> time) list"
  have run: "dup_run ?d ?calls = dedup_spec (d_dedupTTL ?d) [] (map call_key ?calls)"
    by (rule dup_run_spec) (simp_all add: ttl_in_range)
  then have "dup_run ?d ?calls = [False, False]" by (simp add: call_key_def)
  then show ?thesis using emissions_spaced [where calls = ?calls and i = 0 and j = 1 and
      rd = "\<lambda>_. None" and rf = "\<lambda>_. None" and dec = "\<lambda>_. Inl MissingID" and cfg = "load_fields (\<lambda>_. [])"]
    by (simp add: call_key_def)
qed

text \<open>
  A detector always has a ruleset: \<open>New\<close> falls back to the embedded rules when the operator's
  files cannot be loaded, and a failed reload (a nil ruleset) leaves the active one in place.
\<close>

theorem detector_stays_armed:
  "(\<exists>rs. d_eng (det_New readDir readFile decode cfg) = Some rs) \<and>
   SetRuleset None d = d \<and> d_eng (SetRuleset (Some rs) d) = Some rs"
  using New_armed by (simp add: SetRuleset_def)

text \<open>
  The first check of a new detector is complete and sound: unless a configured exception applies, the
  alerts are exactly those built from the findings of the ruleset, in order, that no suppression rule
  silences. In particular every rule that fires and is not suppressed raises its alert.
\<close>

theorem first_check_exact:
  assumes "d_eng (det_New rd rf dec cfg) = Some rules" and "\<not> excepted (det_New rd rf dec cfg) e"
  shows "fst (Check (SetSuppressions supp (det_New rd rf dec cfg)) e clock) =
    map (\<lambda>x. buildAlert x e)
      (filter (\<lambda>x. \<not> Suppresses supp (check_target (det_New rd rf dec cfg) e x))
        (findings (e, lineageAdapter (newClassifier (Some cfg)), event_scope e) rules))"
proof -
  let ?d = "SetSuppressions supp (det_New rd rf dec cfg)"
  let ?fs = "findings (e, lineageAdapter (newClassifier (Some cfg)), event_scope e) rules"
  have "d_eng ?d = Some rules" "\<not> excepted ?d e" "d_supp ?d = supp" "d_lp ?d = d_lp (det_New rd rf dec cfg)"
    "d_seen ?d = []" "\<And>x. check_target ?d e x = check_target (det_New rd rf dec cfg) e x"
    using assms by (simp_all, simp_all add: SetSuppressions_def check_target_def)
  moreover have "distinct (map r_RuleID (unsuppressed supp ?d e ?fs))"
    using findings_ids_distinct New_rules_ok [OF assms(1)]
    by (auto simp: unsuppressed_def intro: distinct_map_filter)
  ultimately show ?thesis
    by (simp add: Check_eq check_loop_fresh) (simp add: unsuppressed_def)
qed

theorem first_check_exact_witness:
  "fst (Check (SetSuppressions [] (det_New (\<lambda>_. None) (\<lambda>_. None) (\<lambda>_. Inl MissingID) (load_fields (\<lambda>_. []))))
       (empty_event\<lparr>e_Type := EventModule\<rparr>) (\<lambda>_. 7)) =
    map (\<lambda>x. buildAlert x (empty_event\<lparr>e_Type := EventModule\<rparr>))
      (filter (\<lambda>x. \<not> Suppresses [] (check_target (det_New (\<lambda>_. None) (\<lambda>_. None) (\<lambda>_. Inl MissingID)
          (load_fields (\<lambda>_. []))) (empty_event\<lparr>e_Type := EventModule\<rparr>) x))
        (findings (empty_event\<lparr>e_Type := EventModule\<rparr>,
          lineageAdapter (newClassifier (Some (load_fields (\<lambda>_. [])))),
          event_scope (empty_event\<lparr>e_Type := EventModule\<rparr>)) default_rules))"
  by (rule first_check_exact)
     (simp_all add: det_New_def Let_def default_loads load_fields_def excepted_def splitCSV_def New_exceptions_def)

text \<open>
  Every alert of a check, in any state of the detector, comes from a rule of the active ruleset
  that matches the event and that no suppression silences, and it carries that finding's severity, which
  is one of the four, when the ruleset was loaded by \<open>New\<close> or a reload.
\<close>

theorem Check_sound:
  assumes "a \<in> set (fst (Check d e clock))" and "d_eng d = Some rules" and "list_all rule_ok rules"
  shows "\<not> excepted d e \<and> severity_ok (a_Severity a) \<and>
    (\<exists>r x. r \<in> set rules \<and> finding (e, d_lp d, event_scope e) r = Some x \<and>
       \<not> Suppresses (d_supp d) (check_target d e x) \<and> a = buildAlert x e)"
  using assms by (rule Check_alert)

definition module_rule :: compiled_rule where
  "module_rule = \<lparr>cr_ID = ''m'', cr_Scope = ScopeAll, cr_Tactic = [], cr_Technique = [], cr_Tags = [],
     cr_gate = PStrEq EvtType ''init_module'', cr_hasArms = False, cr_severity = ''high'', cr_reason = ''loaded'',
     cr_details = [], cr_arms = [], cr_exceptions = []\<rparr>"

theorem Check_sound_witness:
  "let d = SetRuleset (Some [module_rule]) (det_New (\<lambda>_. None) (\<lambda>_. None) (\<lambda>_. Inl MissingID) (load_fields (\<lambda>_. [])));
       e = empty_event\<lparr>e_Type := EventModule\<rparr>
   in \<exists>a. a \<in> set (fst (Check d e (\<lambda>_. 7))) \<and> severity_ok (a_Severity a)"
proof -
  let ?n = "det_New (\<lambda>_. None) (\<lambda>_. None) (\<lambda>_. Inl MissingID) (load_fields (\<lambda>_. []))"
  let ?d = "SetRuleset (Some [module_rule]) ?n"
  let ?e = "empty_event\<lparr>e_Type := EventModule\<rparr>"
  let ?x = "mk_result module_rule ''high'' ''loaded'' []"
  have eng: "d_eng ?d = Some [module_rule]" by (simp add: SetRuleset_def)
  have ok: "list_all rule_ok [module_rule]" by code_simp
  have seen: "d_seen ?d = []" and supp: "d_supp ?d = []"
    by (simp_all add: SetRuleset_def det_New_def Let_def)
  have ne: "\<not> excepted ?d ?e"
    by (simp add: SetRuleset_def det_New_def Let_def default_loads load_fields_def excepted_def splitCSV_def New_exceptions_def)
  have "finding (?e, d_lp ?d, event_scope ?e) module_rule = Some ?x"
    by (simp add: finding_def str_val_def module_rule_def rule_outcome_def details_val_def event_scope_def IsHost_def
        empty_event_def TypeName_def type_name_def event_type_defs ScopeAll_def ScopeHost_def)
  then have f: "findings (?e, d_lp ?d, event_scope ?e) [module_rule] = [?x]"
    by (simp add: findings_def List.map_filter_simps)
  have u: "unsuppressed (d_supp ?d) ?d ?e [?x] = [?x]" by (simp add: unsuppressed_def supp)
  have "fst (Check ?d ?e (\<lambda>_. 7)) = [buildAlert ?x ?e]"
    unfolding Check_eq [OF eng ne] f u by (subst check_loop_fresh) (simp_all add: seen)
  then have "buildAlert ?x ?e \<in> set (fst (Check ?d ?e (\<lambda>_. 7)))" by simp
  with Check_sound [OF this eng ok] show ?thesis unfolding Let_def by blast
qed

end
