(* ===== verification/Streams.thy ===== *)
theory Streams
  imports Prelude
begin

text \<open>
  Components that answer a stream of calls, and their refinement of a specification: \<open>run_stream\<close> runs a step
  function over the calls, and the locale \<open>stream_refinement\<close> carries a simulation of single steps to whole runs.
  The detector (\<open>detection\<close>) and the rate limiter (\<open>limiter\<close>) interpret it, each against a specification that keeps
  its whole history.
\<close>

fun run_stream :: "('i \<Rightarrow> 's \<Rightarrow> 'o \<times> 's) \<Rightarrow> 'i list \<Rightarrow> 's \<Rightarrow> 'o list \<times> 's" where
  "run_stream step [] s = ([], s)"
| "run_stream step (i # is) s =
     (let (out, s1) = step i s; (outs, s2) = run_stream step is s1 in (out # outs, s2))"

text \<open>Calls each of which is admissible in the state it meets.\<close>

fun admissible :: "('i \<Rightarrow> 's \<Rightarrow> bool) \<Rightarrow> ('i \<Rightarrow> 's \<Rightarrow> 'o \<times> 's) \<Rightarrow> 'i list \<Rightarrow> 's \<Rightarrow> bool" where
  "admissible ok step [] s = True"
| "admissible ok step (i # is) s = (ok i s \<and> admissible ok step is (snd (step i s)))"

locale stream_refinement =
  fixes ok :: "'i \<Rightarrow> 'a \<Rightarrow> bool"
    and spec :: "'i \<Rightarrow> 'a \<Rightarrow> 'o \<times> 'a"
    and impl :: "'i \<Rightarrow> 'c \<Rightarrow> 'o \<times> 'c"
    and rel :: "'a \<Rightarrow> 'c \<Rightarrow> bool"
  assumes simulates: "rel a c \<Longrightarrow> ok i a \<Longrightarrow>
      fst (impl i c) = fst (spec i a) \<and> rel (snd (spec i a)) (snd (impl i c))"
begin

lemma runs_agree:
  "rel a c \<Longrightarrow> admissible ok spec is a \<Longrightarrow>
   fst (run_stream impl is c) = fst (run_stream spec is a) \<and>
   rel (snd (run_stream spec is a)) (snd (run_stream impl is c))"
proof (induction "is" arbitrary: a c)
  case (Cons i "is")
  from Cons.prems have "fst (impl i c) = fst (spec i a)" "rel (snd (spec i a)) (snd (impl i c))"
    using simulates [of a c i] by simp_all
  with Cons.IH [of "snd (spec i a)" "snd (impl i c)"] Cons.prems(2) show ?case
    by (simp add: case_prod_beta Let_def)
qed simp

end

end
