(* ===== verification/Detection.thy ===== *)
theory Detection
  imports Detector Streams
begin

text \<open>
  The detector over its whole life: a sequence of checks, reloads of the suppressions and reloads of the rules.
  The specification has no deduplication map: it keeps every emission for ever and raises the alerts of the
  findings that nothing silences and whose key was not emitted within the time to live. The interpretation
  \<open>detection\<close> shows that \<open>Check\<close> with its pruned map answers as the specification does. The last section
  says which alerts the suppressions take away, in terms of the alerts alone.
\<close>

section \<open>The operations\<close>

datatype det_input =
    DoCheck event "nat \<Rightarrow> time"
  | DoSuppressions supp_set
  | DoRuleset "compiled_rule list option"

fun det_step :: "det_input \<Rightarrow> detector \<Rightarrow> alert list \<times> detector" where
  "det_step (DoCheck e clock) d = Check d e clock"
| "det_step (DoSuppressions s) d = ([], SetSuppressions s d)"
| "det_step (DoRuleset r) d = ([], SetRuleset r d)"

section \<open>The specification\<close>

record det_spec =
  sp_set :: detector
  sp_emitted :: "(string \<times> time) list"
  sp_now :: time

text \<open>The findings of an event in the settings in force.\<close>

definition wanted_findings :: "detector \<Rightarrow> event \<Rightarrow> result list" where
  "wanted_findings d e =
     (if excepted d e then []
      else (case d_eng d of
          None \<Rightarrow> []
        | Some rules \<Rightarrow>
            filter (\<lambda>x. \<not> Suppresses (d_supp d) (check_target d e x)) (findings (e, d_lp d, event_scope e) rules)))"

definition repeated :: "duration \<Rightarrow> string \<Rightarrow> time \<Rightarrow> (string \<times> time) list \<Rightarrow> bool" where
  "repeated ttl k now emitted = list_ex (\<lambda>(k', t). k' = k \<and> now - t \<le> ttl) emitted"

fun emit_all :: "duration \<Rightarrow> event \<Rightarrow> (nat \<Rightarrow> time) \<Rightarrow> nat \<Rightarrow> result list \<Rightarrow> (string \<times> time) list \<Rightarrow>
    alert list \<times> (string \<times> time) list" where
  "emit_all ttl e clock n [] em = ([], em)"
| "emit_all ttl e clock n (x # xs) em =
     (let k = dedup_key (r_RuleID x) e in
      if repeated ttl k (clock n) em then emit_all ttl e clock (Suc n) xs em
      else (let (as, em') = emit_all ttl e clock (Suc n) xs ((k, clock n) # em) in (buildAlert x e # as, em')))"

fun spec_step :: "det_input \<Rightarrow> det_spec \<Rightarrow> alert list \<times> det_spec" where
  "spec_step (DoCheck e clock) a =
     (let d = sp_set a; xs = wanted_findings d e;
          (as, em) = emit_all (d_dedupTTL d) e clock 0 xs (sp_emitted a)
      in (as, a\<lparr>sp_emitted := em, sp_now := (if xs = [] then sp_now a else clock (length xs))\<rparr>))"
| "spec_step (DoSuppressions s) a = ([], a\<lparr>sp_set := SetSuppressions s (sp_set a)\<rparr>)"
| "spec_step (DoRuleset r) a = ([], a\<lparr>sp_set := SetRuleset r (sp_set a)\<rparr>)"

text \<open>The clock does not go back, within a check and from one check to the next.\<close>

fun det_ok :: "det_input \<Rightarrow> det_spec \<Rightarrow> bool" where
  "det_ok (DoCheck e clock) a \<longleftrightarrow> mono clock \<and> sp_now a \<le> clock 0"
| "det_ok (DoSuppressions s) a = True"
| "det_ok (DoRuleset r) a = True"

definition det_rel :: "det_spec \<Rightarrow> detector \<Rightarrow> bool" where
  "det_rel a d \<longleftrightarrow> 0 \<le> d_dedupTTL (sp_set a) \<and> d_dedupTTL (sp_set a) < max_duration \<and>
     (\<exists>s. d = (sp_set a)\<lparr>d_seen := s\<rparr> \<and> seen_ok (d_dedupTTL (sp_set a)) (sp_now a) (sp_emitted a) s)"

section \<open>The simulation\<close>

lemma repeated_iff: "repeated ttl k now em \<longleftrightarrow> (\<exists>t. (k, t) \<in> set em \<and> now - t \<le> ttl)"
  by (force simp: repeated_def list_ex_iff)

lemma check_loop_emits:
  assumes "mono clock" and "0 \<le> d_dedupTTL d" and "d_dedupTTL d < max_duration"
  shows "seen_ok (d_dedupTTL d) now em (d_seen d) \<Longrightarrow> now \<le> clock n \<Longrightarrow>
    \<exists>s em'. emit_all (d_dedupTTL d) e clock n xs em = (fst (check_loop [] e clock n xs d), em') \<and>
      snd (check_loop [] e clock n xs d) = d\<lparr>d_seen := s\<rparr> \<and>
      seen_ok (d_dedupTTL d) (if xs = [] then now else clock (n + length xs)) em' s"
  using assms
proof (induction xs arbitrary: n now em d)
  case Nil
  then show ?case by (intro exI [of _ "d_seen d"] exI [of _ em]) simp
next
  case (Cons x xs)
  let ?ttl = "d_dedupTTL d" and ?k = "dedup_key (r_RuleID x) e"
  obtain dup seen' where st: "seen_step ?ttl ?k (clock n) (d_seen d) = (dup, seen')" by fastforce
  have "seen_ok ?ttl (clock n) em (d_seen d)" using Cons.prems(1,2) by (rule seen_ok_mono)
  note spec = seen_step_spec [OF this Cons.prems(4,5), of ?k, unfolded st fst_conv snd_conv, folded repeated_iff]
  from spec have dup: "dup = repeated ?ttl ?k (clock n) em" by (rule conjunct1)
  from spec have ok: "seen_ok ?ttl (clock n) (if dup then em else (?k, clock n) # em) seen'" by (rule conjunct2)
  let ?d = "d\<lparr>d_seen := seen'\<rparr>"
  have le: "clock n \<le> clock (Suc n)" using Cons.prems(3) by (simp add: monoD)
  obtain s em' where IH: "emit_all ?ttl e clock (Suc n) xs (if dup then em else (?k, clock n) # em) =
      (fst (check_loop [] e clock (Suc n) xs ?d), em')" "snd (check_loop [] e clock (Suc n) xs ?d) = ?d\<lparr>d_seen := s\<rparr>"
    "seen_ok ?ttl (if xs = [] then clock n else clock (Suc n + length xs)) em' s"
    using Cons.IH [of ?d "clock n" "if dup then em else (?k, clock n) # em" "Suc n"] ok le Cons.prems(3-5) by auto
  have "seen_ok ?ttl (clock (n + length (x # xs))) em' s"
    using IH(3) le by (cases "xs = []") (auto intro: seen_ok_mono)
  with IH(1,2) st dup show ?case
    by (intro exI [of _ s] exI [of _ em']) (cases dup; auto simp: duplicate_def Let_def case_prod_beta)
qed

lemma Check_wanted: "Check d e clock = check_loop [] e clock 0 (wanted_findings d e) d"
proof (cases "excepted d e")
  case False
  then show ?thesis
    by (cases "d_eng d") (simp_all add: wanted_findings_def Check_eq unsuppressed_def, simp add: Check_def)
qed (simp add: Check_def wanted_findings_def)

lemma wanted_findings_seen [simp]: "wanted_findings (d\<lparr>d_seen := s\<rparr>) e = wanted_findings d e"
  by (cases "d_eng d") (simp_all add: wanted_findings_def excepted_def)

lemma settings_seen [simp]:
  "SetSuppressions supp (d\<lparr>d_seen := s\<rparr>) = (SetSuppressions supp d)\<lparr>d_seen := s\<rparr>"
  "SetRuleset r (d\<lparr>d_seen := s\<rparr>) = (SetRuleset r d)\<lparr>d_seen := s\<rparr>"
  "d_dedupTTL (SetSuppressions supp d) = d_dedupTTL d" "d_dedupTTL (SetRuleset r d) = d_dedupTTL d"
  "d_seen (SetSuppressions supp d) = d_seen d" "d_seen (SetRuleset r d) = d_seen d"
  by (simp_all add: SetSuppressions_def SetRuleset_def)

lemma det_simulates:
  assumes "det_rel a d" and "det_ok i a"
  shows "fst (det_step i d) = fst (spec_step i a) \<and> det_rel (snd (spec_step i a)) (snd (det_step i d))"
proof -
  let ?d = "sp_set a"
  obtain s where d: "d = ?d\<lparr>d_seen := s\<rparr>" and ok: "seen_ok (d_dedupTTL ?d) (sp_now a) (sp_emitted a) s"
    and ttl: "0 \<le> d_dedupTTL ?d" "d_dedupTTL ?d < max_duration"
    using assms(1) by (auto simp: det_rel_def)
  show ?thesis
  proof (cases i)
    case (DoCheck e clock)
    then have clock: "mono clock" "sp_now a \<le> clock 0" using assms(2) by simp_all
    let ?xs = "wanted_findings ?d e"
    have check: "check_loop [] e clock 0 ?xs d = Check d e clock" by (simp add: Check_wanted d)
    have same: "d_dedupTTL d = d_dedupTTL ?d" "d\<lparr>d_seen := s'\<rparr> = ?d\<lparr>d_seen := s'\<rparr>" for s' by (simp_all add: d)
    have seen: "seen_ok (d_dedupTTL d) (sp_now a) (sp_emitted a) (d_seen d)" using ok by (simp add: d)
    have "0 \<le> d_dedupTTL d" "d_dedupTTL d < max_duration" using ttl by (simp_all add: same)
    from check_loop_emits [OF clock(1) this seen clock(2), of e ?xs, unfolded add_0 check same]
    obtain s' em' where em: "emit_all (d_dedupTTL ?d) e clock 0 ?xs (sp_emitted a) = (fst (Check d e clock), em')"
        "snd (Check d e clock) = ?d\<lparr>d_seen := s'\<rparr>"
        "seen_ok (d_dedupTTL ?d) (if ?xs = [] then sp_now a else clock (length ?xs)) em' s'" by blast
    have "spec_step i a = (fst (Check d e clock),
        a\<lparr>sp_emitted := em', sp_now := (if ?xs = [] then sp_now a else clock (length ?xs))\<rparr>)"
      by (simp add: DoCheck Let_def em(1))
    moreover have "det_step i d = (fst (Check d e clock), ?d\<lparr>d_seen := s'\<rparr>)"
      using em(2) by (simp add: DoCheck prod_eq_iff)
    ultimately show ?thesis
      using em(3) ttl by (auto simp: det_rel_def simp del: if_split)
  next
    case (DoSuppressions supp)
    with ok ttl show ?thesis by (simp add: det_rel_def d) blast
  next
    case (DoRuleset r)
    with ok ttl show ?thesis by (simp add: det_rel_def d) blast
  qed
qed

interpretation detection: stream_refinement det_ok spec_step det_step det_rel
  by unfold_locales (rule det_simulates)

definition spec_New :: "detector \<Rightarrow> det_spec" where
  "spec_New d = \<lparr>sp_set = d, sp_emitted = [], sp_now = 0\<rparr>"

lemma New_related: "det_rel (spec_New (det_New rd rf dec cfg)) (det_New rd rf dec cfg)"
  using ttl_in_range by (auto simp: det_rel_def spec_New_def seen_ok_def intro: exI [of _ "[]"])

section \<open>Property\<close>

text \<open>
  C2. The detector is exact over its whole life. For every sequence of checks and reloads of suppressions and rules
  after \<open>New\<close>, with a clock that does not go back, each check raises exactly the alerts of the specification: one
  for each finding of the ruleset in force, in order, that no exception and no suppression in force silences and
  whose rule was not reported for the same container and process within the last 30 seconds.
\<close>

theorem detector_refines_history:
  assumes "admissible det_ok spec_step calls (spec_New (det_New rd rf dec cfg))"
  shows "fst (run_stream det_step calls (det_New rd rf dec cfg)) =
    fst (run_stream spec_step calls (spec_New (det_New rd rf dec cfg)))"
  using detection.runs_agree [OF New_related assms] by (rule conjunct1)

theorem detector_refines_history_witness:
  "let d = det_New (\<lambda>_. None) (\<lambda>_. None) (\<lambda>_. Inl MissingID) (load_fields (\<lambda>_. []));
       e = empty_event\<lparr>e_Type := EventModule\<rparr>;
       a = buildAlert (mk_result module_rule ''high'' ''loaded'' []) e
   in fst (run_stream det_step [DoRuleset (Some [module_rule]), DoCheck e (\<lambda>_. 9), DoCheck e (\<lambda>_. 10),
        DoCheck e (\<lambda>_. 30000000010)] d) = [[], [a], [], [a]]"
proof -
  let ?d = "det_New (\<lambda>_. None) (\<lambda>_. None) (\<lambda>_. Inl MissingID) (load_fields (\<lambda>_. []))"
  let ?e = "empty_event\<lparr>e_Type := EventModule\<rparr>" and ?x = "mk_result module_rule ''high'' ''loaded'' []"
  let ?calls = "[DoRuleset (Some [module_rule]), DoCheck ?e (\<lambda>_. 9), DoCheck ?e (\<lambda>_. 10), DoCheck ?e (\<lambda>_. 30000000010)]"
  let ?s = "SetRuleset (Some [module_rule]) ?d"
  have "finding (?e, lp, event_scope ?e) module_rule = Some ?x" for lp
    by (simp add: finding_def str_val_def module_rule_def rule_outcome_def details_val_def event_scope_def IsHost_def
        empty_event_def TypeName_def type_name_def event_type_defs ScopeAll_def ScopeHost_def)
  moreover have "\<not> excepted ?s ?e" "d_eng ?s = Some [module_rule]" "d_supp ?s = []" "d_dedupTTL ?s = 30000000000"
    by (simp_all add: SetRuleset_def det_New_def Let_def default_loads load_fields_def excepted_def splitCSV_def
        New_exceptions_def)
  ultimately have found: "wanted_findings ?s ?e = [?x]" and ttl: "d_dedupTTL ?s = 30000000000"
    by (simp_all add: wanted_findings_def findings_def List.map_filter_simps)
  note run = found ttl spec_New_def case_prod_beta Let_def repeated_def monoI
  have "admissible det_ok spec_step ?calls (spec_New ?d)" by (simp add: run)
  moreover have "fst (run_stream spec_step ?calls (spec_New ?d)) = [[], [buildAlert ?x ?e], [], [buildAlert ?x ?e]]"
    by (simp add: run)
  ultimately show ?thesis unfolding Let_def using detector_refines_history by metis
qed

section \<open>What suppressions silence\<close>

text \<open>
  The rule of an operator against an alert as it is shown: it must say which rule, container, process or text it
  means, and everything it says must hold of the alert; blanks say nothing and case does not count. The host of an
  alert of the host is the server, and no alert of a container has one.
\<close>

definition says :: "string \<Rightarrow> bool" where
  "says want \<longleftrightarrow> trim_space want \<noteq> []"

definition alert_text :: "alert \<Rightarrow> string" where
  "alert_text a = join '' '' [a_ContainerName a, a_ImageName a, a_CmdLine a, join '' '' (a_Ancestry a)]"

definition silences :: "string \<Rightarrow> supp_rule \<Rightarrow> alert \<Rightarrow> bool" where
  "silences server r a \<longleftrightarrow>
     list_ex says [s_RuleID r, s_ContainerName r, s_ProcessName r, s_Substr r] \<and>
     list_all (\<lambda>(want, got). says want \<longrightarrow> to_lower (trim_space want) = to_lower got)
       [(s_RuleID r, a_RuleID a), (s_Scope r, a_Scope a), (s_Hostname r, if a_Scope a = ''host'' then server else []),
        (s_ContainerName r, a_ContainerName a), (s_ProcessName r, a_ProcessName a)] \<and>
     (says (s_Substr r) \<longrightarrow> contains (to_lower (alert_text a)) (to_lower (trim_space (s_Substr r))))"

lemma Match_silences: "Match r (check_target d e x) \<longleftrightarrow> silences (d_serverName d) r (buildAlert x e)"
  by (cases "e_Container e")
    (simp_all add: Match_iff Empty_def criteria_def criterion_def substr_criterion_def equal_fold_def silences_def says_def
      check_target_def IsHost_def buildAlert_def alert_text_def eventHaystack_def Let_def empty_alert_def
      ScopeHostName_def ScopeContainerName_def, blast+)

lemma Suppresses_silences:
  "Suppresses supp (check_target d e x) \<longleftrightarrow> list_ex (\<lambda>r. silences (d_serverName d) r (buildAlert x e)) supp"
  by (simp add: Suppresses_iff Match_silences list_ex_iff)

text \<open>
  C39. Suppressions take away exactly the alerts they describe: after \<open>New\<close>, the first check under a set of
  suppressions raises the alerts it raises with none, in their order, without those some rule of the set silences,
  by the fields of the alert itself; and in every state of the detector, whatever it has seen before, no check raises
  an alert that a suppression in force silences.
\<close>

theorem suppressions_exact:
  "fst (Check (SetSuppressions supp (det_New rd rf dec cfg)) e clock) =
     filter (\<lambda>a. \<not> list_ex (\<lambda>r. silences (cfg_ServerName cfg) r a) supp) (fst (Check (det_New rd rf dec cfg) e clock)) \<and>
   list_all (\<lambda>a. \<not> list_ex (\<lambda>r. silences (d_serverName d) r a) (d_supp d)) (fst (Check d e clock))"
proof (rule conjI)
  let ?d = "det_New rd rf dec cfg"
  have new: "d_supp ?d = []" "d_serverName ?d = cfg_ServerName cfg" "SetSuppressions [] ?d = ?d"
    by (simp_all add: det_New_def Let_def SetSuppressions_def)
  show "fst (Check (SetSuppressions supp ?d) e clock) =
      filter (\<lambda>a. \<not> list_ex (\<lambda>r. silences (cfg_ServerName cfg) r a) supp) (fst (Check ?d e clock))"
  proof (cases "excepted ?d e \<or> d_eng ?d = None")
    case True
    then show ?thesis by (auto simp: Check_def SetSuppressions_def excepted_def)
  next
    case False
    then obtain rules where "d_eng ?d = Some rules" "\<not> excepted ?d e" by blast
    note first = first_check_exact [OF this]
    show ?thesis
      unfolding first first [of "[]", unfolded new(3)]
      by (simp add: Suppresses_silences new(2) filter_map comp_def)
  qed
next
  let ?xs = "wanted_findings d e"
  obtain xs where xs: "fst (Check d e clock) = map (\<lambda>x. buildAlert x e) xs" "subseq xs ?xs"
    using check_loop_subseq [of e clock 0 ?xs d] by (auto simp: Check_wanted)
  have "\<not> Suppresses (d_supp d) (check_target d e x)" if "x \<in> set xs" for x
    using that xs(2) by (auto elim!: list_emb_set simp: wanted_findings_def split: if_splits option.splits)
  then show "list_all (\<lambda>a. \<not> list_ex (\<lambda>r. silences (d_serverName d) r a) (d_supp d)) (fst (Check d e clock))"
    by (auto simp: xs(1) list_all_iff Suppresses_silences)
qed

end
