(* ===== verification/Window.thy ===== *)
theory Window
  imports Prelude
begin

text \<open>
  The sliding window that the correlator, the brute-force tracker and the rate limiter each keep: a list
  of stamped entries from which an operation first removes what is not newer than a cutoff. The locale
  states the laws of such a pruning function; its lemmas say what a window pruned again and again holds.
  Each component interprets it on its own loop.
\<close>

locale sliding_window =
  fixes prune :: "time \<Rightarrow> 'a list \<Rightarrow> 'a list"
    and stamp :: "'a \<Rightarrow> time"
    and width :: duration
  assumes prune_Nil: "prune now [] = []"
    and prune_Cons: "prune now (x # xs) =
      (if now - width < stamp x then x # prune now xs else prune now xs)"
begin

lemma prune_filter: "prune now xs = filter (\<lambda>x. now - width < stamp x) xs"
  by (induction xs) (simp_all add: prune_Nil prune_Cons)

lemma prune_append: "prune now (xs @ ys) = prune now xs @ prune now ys"
  by (simp add: prune_filter)

lemma prune_set: "set (prune now xs) = {x \<in> set xs. now - width < stamp x}"
  by (simp add: prune_filter)

lemma prune_later: "now \<le> now' \<Longrightarrow> prune now' (prune now xs) = prune now' xs"
  by (simp add: prune_filter filter_filter) (rule filter_cong, auto)

lemma prune_id: "(\<And>x. x \<in> set xs \<Longrightarrow> now - width < stamp x) \<Longrightarrow> prune now xs = xs"
  by (simp add: prune_filter)

lemma prune_subseq: "subseq (prune now xs) xs"
  by (simp add: prune_filter)

text \<open>One round: an entry is added to a pruned window, and the result is the pruned history.\<close>

lemma prune_add_first:
  "win = prune now h \<Longrightarrow> now \<le> now' \<Longrightarrow> prune now' (win @ [x]) = prune now' (h @ [x])"
  by (simp add: prune_append prune_later)

lemma prune_then_add:
  "win = prune now h \<Longrightarrow> now \<le> now' \<Longrightarrow> now' - width < stamp x \<Longrightarrow>
   prune now' win @ [x] = prune now' (h @ [x])"
  by (simp add: prune_append prune_later prune_Cons prune_Nil)

text \<open>A window holds the end of a history in order of time.\<close>

lemma prune_suffix:
  assumes "sorted (map stamp h)"
  shows "suffix (prune now h) h"
  using assms
proof (induction h)
  case (Cons x h)
  show ?case
  proof (cases "now - width < stamp x")
    case True
    with Cons.prems have "prune now (x # h) = x # h"
      by (intro prune_id) (auto intro: less_le_trans)
    then show ?thesis by simp
  next
    case False
    with Cons show ?thesis by (simp add: prune_Cons suffix_ConsI)
  qed
qed (simp add: prune_Nil)

text \<open>
  A window of fewer than \<open>n\<close> entries means that the entry \<open>n\<close> places back in the history has left it.
\<close>

lemma prune_short_gap:
  assumes "sorted (map stamp h)" and "length (prune now h) < n" and "n \<le> length h"
  shows "stamp (h ! (length h - n)) \<le> now - width"
proof (rule ccontr)
  assume "\<not> ?thesis"
  then have new: "now - width < stamp (h ! (length h - n))" by simp
  have "now - width < stamp x" if "x \<in> set (drop (length h - n) h)" for x
  proof -
    from that obtain i where i: "i < n" "x = h ! (length h - n + i)"
      using assms(3) by (auto simp: in_set_conv_nth)
    have "stamp (h ! (length h - n)) \<le> stamp x"
      using sorted_nth_mono [OF assms(1), of "length h - n" "length h - n + i"] i assms(3) by simp
    with new show ?thesis by linarith
  qed
  then have "prune now (drop (length h - n) h) = drop (length h - n) h" by (rule prune_id)
  then have "prune now h = prune now (take (length h - n) h) @ drop (length h - n) h"
    by (metis append_take_drop_id prune_append)
  with assms(2,3) show False by simp
qed

end

end
