(* ===== verification/GoInt.thy ===== *)
theory GoInt
  imports Prelude
begin

text \<open>
  Go's \<open>int\<close> and \<open>int64\<close> as integers reduced to 64 bits, hexadecimal text, and the parts of the file
  system the program changes: removing, renaming and appending.
\<close>

section \<open>64-bit integers\<close>

definition wrap64 :: "int \<Rightarrow> int" where
  "wrap64 n = (n + 2 ^ 63) mod 2 ^ 64 - 2 ^ 63"

lemma wrap64_id: "- (2 ^ 63) \<le> n \<Longrightarrow> n < 2 ^ 63 \<Longrightarrow> wrap64 n = n"
  by (simp add: wrap64_def)

lemma seconds_wrap64: "seconds n = wrap64 (n * 1000000000)"
  by (simp add: seconds_def wrap64_def)

lemma seconds_range: "min_duration \<le> seconds n \<and> seconds n \<le> max_duration"
  by (simp add: seconds_def min_duration_def max_duration_def)

section \<open>Hexadecimal\<close>

definition hex_digit :: "nat \<Rightarrow> char" where
  "hex_digit n = (if n < 10 then char_of (48 + n) else char_of (87 + n))"

text \<open>\<open>hex.EncodeToString\<close>\<close>

definition hex_encode :: "8 word list \<Rightarrow> string" where
  "hex_encode bs = concat (map (\<lambda>b. [hex_digit (unat b div 16), hex_digit (unat b mod 16)]) bs)"

lemma hex_encode_length: "length (hex_encode bs) = 2 * length bs"
  by (induction bs) (simp_all add: hex_encode_def)

section \<open>Durations as text\<close>

text \<open>
  \<open>Duration.String\<close>: hours, minutes and seconds, or a smaller unit below one second; a fraction is
  printed without trailing zeros.
\<close>

definition pad_zeros :: "nat \<Rightarrow> string \<Rightarrow> string" where
  "pad_zeros n s = replicate (n - length s) CHR ''0'' @ s"

definition frac_only :: "nat \<Rightarrow> nat \<Rightarrow> string" where
  "frac_only prec v =
     (if v mod 10 ^ prec = 0 then []
      else CHR ''.'' # rev (dropWhile (\<lambda>c. c = CHR ''0'') (rev (pad_zeros prec (show_nat (v mod 10 ^ prec))))))"

definition show_frac :: "nat \<Rightarrow> nat \<Rightarrow> string" where
  "show_frac prec v = show_nat (v div 10 ^ prec) @ frac_only prec v"

definition show_duration :: "duration \<Rightarrow> string" where
  "show_duration d =
     (let u = nat \<bar>d\<bar>; s = u div 1000000000;
          body = (if u = 0 then ''0s''
            else if u < 1000 then show_nat u @ ''ns''
            else if u < 1000000 then show_frac 3 u @ [CHR 0xC2, CHR 0xB5] @ ''s''
            else if u < 1000000000 then show_frac 6 u @ ''ms''
            else (if 3600 \<le> s then show_nat (s div 3600) @ ''h'' else []) @
                 (if 60 \<le> s then show_nat (s div 60 mod 60) @ ''m'' else []) @
                 show_nat (s mod 60) @ frac_only 9 u @ ''s'')
      in if d < 0 then CHR ''-'' # body else body)"

section \<open>Files\<close>

type_synonym files = "string \<Rightarrow> string option"

text \<open>\<open>os.Remove\<close> and \<open>os.Rename\<close>, whose errors the program ignores.\<close>

definition remove_file :: "string \<Rightarrow> files \<Rightarrow> files" where
  "remove_file p fs = fs(p := None)"

definition rename_file :: "string \<Rightarrow> string \<Rightarrow> files \<Rightarrow> files" where
  "rename_file p q fs = (case fs p of None \<Rightarrow> fs | Some c \<Rightarrow> fs(p := None, q := Some c))"

text \<open>Opening with \<open>O_CREATE | O_APPEND\<close>, and writing through the handle.\<close>

definition create_file :: "string \<Rightarrow> files \<Rightarrow> files" where
  "create_file p fs = (case fs p of None \<Rightarrow> fs(p \<mapsto> []) | Some _ \<Rightarrow> fs)"

definition append_file :: "string \<Rightarrow> string \<Rightarrow> files \<Rightarrow> files" where
  "append_file p s fs = (case fs p of None \<Rightarrow> fs(p \<mapsto> s) | Some c \<Rightarrow> fs(p \<mapsto> c @ s))"

end
