(* ===== verification/RateLimit.thy ===== *)
theory RateLimit
  imports Config Window GoInt
begin

text \<open>
  The rate limiter of \<open>internal/alerter/alerter.go\<close>: \<open>isRateLimited\<close> keeps the times of the alerts let
  through per container and lets through at most \<open>AlertMaxRate\<close> per \<open>AlertRateWindow\<close> seconds. It reads
  the clock twice, once for the cutoff and once for the time it records.
\<close>

fun rate_fresh :: "time \<Rightarrow> time list \<Rightarrow> time list" where
  "rate_fresh cutoff [] = []"
| "rate_fresh cutoff (t # ts) =
     (if time_after t cutoff then t # rate_fresh cutoff ts else rate_fresh cutoff ts)"

definition isRateLimited :: "config \<Rightarrow> (string \<times> time list) list \<Rightarrow> string \<Rightarrow> time \<Rightarrow> time \<Rightarrow>
    bool \<times> (string \<times> time list) list" where
  "isRateLimited cfg rateMap containerID now1 now2 =
     (let window = seconds (cfg_AlertRateWindow cfg);
          cutoff = now1 + wrap64 (- window);
          fresh = rate_fresh cutoff (case map_of rateMap containerID of Some ts \<Rightarrow> ts | None \<Rightarrow> [])
      in if cfg_AlertMaxRate cfg \<le> int (length fresh)
         then (True, AList.update containerID fresh rateMap)
         else (False, AList.update containerID (fresh @ [now2]) rateMap))"

interpretation rate: sliding_window "\<lambda>now. rate_fresh (now - w)" id w for w
  by unfold_locales (simp_all add: time_after_def)

section \<open>Runs\<close>

text \<open>
  Calls in the order of the clock. The trace holds the container, the second clock reading and the
  answer of each call.
\<close>

definition rate_now :: "(string \<times> time \<times> bool) list \<Rightarrow> time" where
  "rate_now tr = (if tr = [] then 0 else fst (snd (last tr)))"

inductive rate_run :: "config \<Rightarrow> (string \<times> time list) list \<Rightarrow> (string \<times> time \<times> bool) list \<Rightarrow> bool" for cfg where
  start: "rate_run cfg [] []"
| call: "rate_run cfg rm tr \<Longrightarrow> rate_now tr \<le> now1 \<Longrightarrow> now1 \<le> now2 \<Longrightarrow>
    isRateLimited cfg rm containerID now1 now2 = (lim, rm') \<Longrightarrow>
    rate_run cfg rm' (tr @ [(containerID, now2, lim)])"

definition passed :: "string \<Rightarrow> (string \<times> time \<times> bool) list \<Rightarrow> time list" where
  "passed k tr = map (\<lambda>x. fst (snd x)) (filter (\<lambda>x. fst x = k \<and> \<not> snd (snd x)) tr)"

lemma passed_simps [simp]:
  "passed k [] = []"
  "passed k (tr @ [(j, t, lim)]) = passed k tr @ (if j = k \<and> \<not> lim then [t] else [])"
  by (simp_all add: passed_def)

lemma rate_now_simps [simp]: "rate_now [] = 0" "rate_now (tr @ [(j, t, lim)]) = t"
  by (simp_all add: rate_now_def)

text \<open>The times recorded are those of the window before the last call.\<close>

definition rate_entry :: "(string \<times> time list) list \<Rightarrow> string \<Rightarrow> time list" where
  "rate_entry rm k = (case map_of rm k of Some ts \<Rightarrow> ts | None \<Rightarrow> [])"

definition rate_inv :: "duration \<Rightarrow> (string \<times> time list) list \<Rightarrow> (string \<times> time \<times> bool) list \<Rightarrow> bool" where
  "rate_inv w rm tr \<longleftrightarrow>
     (\<forall>k. (\<exists>t \<le> rate_now tr. rate_entry rm k = rate_fresh (t - w) (passed k tr)) \<and>
       sorted (passed k tr) \<and> (\<forall>t \<in> set (passed k tr). t \<le> rate_now tr))"

definition spaced :: "duration \<Rightarrow> nat \<Rightarrow> time list \<Rightarrow> bool" where
  "spaced w n ts \<longleftrightarrow> (\<forall>i. i + n < length ts \<longrightarrow> w \<le> ts ! (i + n) - ts ! i)"

lemma spaced_snoc:
  "spaced w n ts \<Longrightarrow> (n \<le> length ts \<Longrightarrow> w \<le> t - (ts @ [t]) ! (length ts - n)) \<Longrightarrow> spaced w n (ts @ [t])"
proof -
  assume s: "spaced w n ts" and new: "n \<le> length ts \<Longrightarrow> w \<le> t - (ts @ [t]) ! (length ts - n)"
  have "w \<le> (ts @ [t]) ! (i + n) - (ts @ [t]) ! i" if "i + n < length (ts @ [t])" for i
  proof (cases "i + n < length ts")
    case True
    with s show ?thesis by (simp add: spaced_def nth_append)
  next
    case False
    with that have "i + n = length ts" by simp
    then have "length ts - n = i" "n \<le> length ts" by simp_all
    with new \<open>i + n = length ts\<close> show ?thesis by (simp add: nth_append)
  qed
  then show ?thesis by (simp add: spaced_def)
qed

lemma rate_cutoff:
  "0 < seconds n \<Longrightarrow> wrap64 (- seconds n) = - seconds n"
  using seconds_range [of n] by (intro wrap64_id) (auto simp: max_duration_def)

lemma rate_run_inv:
  assumes "rate_run cfg rm tr" and w: "0 < seconds (cfg_AlertRateWindow cfg)"
  shows "rate_inv (seconds (cfg_AlertRateWindow cfg)) rm tr \<and>
    (\<forall>k. spaced (seconds (cfg_AlertRateWindow cfg)) (nat (cfg_AlertMaxRate cfg)) (passed k tr))"
  using assms(1)
proof (induction rule: rate_run.induct)
  case start
  then show ?case by (auto simp: rate_inv_def rate_entry_def spaced_def)
next
  case (call rm tr now1 now2 cid lim rm')
  let ?w = "seconds (cfg_AlertRateWindow cfg)" and ?n = "nat (cfg_AlertMaxRate cfg)"
  let ?ts = "passed cid tr"
  obtain t where t: "t \<le> rate_now tr" "rate_entry rm cid = rate_fresh (t - ?w) ?ts"
    and sorted: "sorted ?ts" and bound: "\<forall>x \<in> set ?ts. x \<le> rate_now tr"
    using call.IH unfolding rate_inv_def by blast
  define fresh where "fresh = rate_fresh (now1 - ?w) ?ts"
  have fr: "rate_fresh (now1 + wrap64 (- ?w)) (rate_entry rm cid) = fresh"
    using rate.prune_later [of t now1 ?w ?ts] t call.hyps(2) by (simp add: fresh_def rate_cutoff [OF w])
  have step: "(lim, rm') = (if cfg_AlertMaxRate cfg \<le> int (length fresh) then (True, AList.update cid fresh rm)
      else (False, AList.update cid (fresh @ [now2]) rm))"
    by (rule call.hyps(4) [unfolded isRateLimited_def Let_def, folded rate_entry_def, unfolded fr, symmetric])
  have entry: "rate_entry (AList.update cid ts rm) k = (if k = cid then ts else rate_entry rm k)" for ts k
    by (simp add: rate_entry_def map_of_update_apply)
  have added: "fresh @ [now2] = rate_fresh (now1 - ?w) (?ts @ [now2])"
    using call.hyps(3) w rate.prune_append [of now1 ?w ?ts "[now2]"] by (simp add: fresh_def time_after_def)
  have gap: "?w \<le> now2 - ?ts ! (length ?ts - ?n)" if "\<not> lim" "?n \<le> length ?ts"
  proof -
    from that(1) step have "int (length fresh) < cfg_AlertMaxRate cfg" by (auto split: if_splits)
    then have len: "length fresh < ?n" by simp
    have "?ts ! (length ?ts - ?n) \<le> now1 - ?w"
      using rate.prune_short_gap [of ?ts now1 ?w ?n] sorted len that(2) by (simp add: fresh_def)
    with call.hyps(3) show ?thesis by simp
  qed
  have "0 < ?n" if "\<not> lim" using that step by (auto split: if_splits)
  then have "spaced ?w ?n (passed k (tr @ [(cid, now2, lim)]))" for k
    using call.IH gap by (auto simp: nth_append intro!: spaced_snoc)
  moreover have "rate_inv ?w rm' (tr @ [(cid, now2, lim)])"
    unfolding rate_inv_def
  proof (intro allI conjI)
    fix k
    have old: "\<exists>t \<le> rate_now tr. rate_entry rm k = rate_fresh (t - ?w) (passed k tr)"
      "sorted (passed k tr)" "\<forall>t \<in> set (passed k tr). t \<le> rate_now tr"
      using call.IH unfolding rate_inv_def by blast+
    show "\<exists>t \<le> rate_now (tr @ [(cid, now2, lim)]).
        rate_entry rm' k = rate_fresh (t - ?w) (passed k (tr @ [(cid, now2, lim)]))"
    proof (cases "k = cid")
      case True
      with step added call.hyps(3) entry show ?thesis
        by (intro exI [of _ now1]) (auto simp: fresh_def split: if_splits)
    next
      case False
      then have "rate_entry rm' k = rate_entry rm k" using step entry by (auto split: if_splits)
      moreover from old(1) obtain t where "t \<le> rate_now tr" "rate_entry rm k = rate_fresh (t - ?w) (passed k tr)" by blast
      ultimately show ?thesis using False call.hyps(2,3) by (intro exI [of _ t]) simp
    qed
    show "sorted (passed k (tr @ [(cid, now2, lim)]))"
      using old call.hyps(2,3) by (fastforce simp: sorted_append)
    show "\<forall>t \<in> set (passed k (tr @ [(cid, now2, lim)])). t \<le> rate_now (tr @ [(cid, now2, lim)])"
      using old call.hyps(2,3) by fastforce
  qed
  ultimately show ?case by blast
qed

section \<open>Property\<close>

text \<open>
  C27. The rate limit holds: of the alerts of one container that the limiter lets through, each is at
  least \<open>AlertRateWindow\<close> seconds after the one \<open>AlertMaxRate\<close> places before it, so no interval
  shorter than the window holds more than \<open>AlertMaxRate\<close> of them.
\<close>

theorem rate_limit_bound:
  assumes "rate_run cfg rm tr" and "0 < seconds (cfg_AlertRateWindow cfg)"
    and "i + nat (cfg_AlertMaxRate cfg) < length (passed k tr)"
  shows "seconds (cfg_AlertRateWindow cfg) \<le> passed k tr ! (i + nat (cfg_AlertMaxRate cfg)) - passed k tr ! i"
  using rate_run_inv [OF assms(1,2)] assms(3) by (auto simp: spaced_def)

definition rate_cfg :: config where
  "rate_cfg = (load_fields (\<lambda>_. []))\<lparr>cfg_AlertMaxRate := 1, cfg_AlertRateWindow := 2\<rparr>"

lemma rate_example:
  "\<exists>rm. rate_run rate_cfg rm [(''c'', 1, False), (''c'', 1500000000, True), (''c'', 2000000001, False)]"
proof -
  have 1: "rate_run rate_cfg [(''c'', [1])] ([] @ [(''c'', 1, False)])"
    by (rule rate_run.call [OF rate_run.start, of 0]) (simp_all add: isRateLimited_def rate_cfg_def Let_def)
  have 2: "rate_run rate_cfg [(''c'', [1])] ([(''c'', 1, False)] @ [(''c'', 1500000000, True)])"
    by (rule rate_run.call [OF 1 [simplified], of 1500000000])
       (simp_all add: rate_now_def isRateLimited_def rate_cfg_def Let_def seconds_def wrap64_def time_after_def)
  have 3: "rate_run rate_cfg [(''c'', [2000000001])]
      ([(''c'', 1, False), (''c'', 1500000000, True)] @ [(''c'', 2000000001, False)])"
    by (rule rate_run.call [OF 2 [simplified], of 2000000001])
       (simp_all add: rate_now_def isRateLimited_def rate_cfg_def Let_def seconds_def wrap64_def time_after_def)
  then show ?thesis by auto
qed

theorem rate_limit_bound_witness:
  "\<exists>tr. passed ''c'' tr = [1, 2000000001] \<and> seconds (cfg_AlertRateWindow rate_cfg) = 2000000000 \<and>
     seconds (cfg_AlertRateWindow rate_cfg) \<le> passed ''c'' tr ! 1 - passed ''c'' tr ! 0"
proof -
  let ?tr = "[(''c'', 1, False), (''c'', 1500000000, True), (''c'', 2000000001 :: int, False)]"
  obtain rm where run: "rate_run rate_cfg rm ?tr" using rate_example by blast
  have w: "seconds (cfg_AlertRateWindow rate_cfg) = 2000000000" "cfg_AlertMaxRate rate_cfg = 1"
    by (simp_all add: rate_cfg_def seconds_def)
  have p: "passed ''c'' ?tr = [1, 2000000001]" by (simp add: passed_def)
  from rate_limit_bound [OF run, of 0 "''c''"] w p show ?thesis by (intro exI [of _ ?tr]) simp
qed

text \<open>
  A window that is not positive, which the configuration accepts, switches the limit off: while the quota is positive,
  every alert is let through.
\<close>

theorem no_window_no_limit:
  assumes "rate_run cfg rm tr" and "- (2 ^ 63) < seconds (cfg_AlertRateWindow cfg)" and "seconds (cfg_AlertRateWindow cfg) \<le> 0"
    and "0 < cfg_AlertMaxRate cfg"
  shows "list_all (\<lambda>(k, t, lim). \<not> lim) tr \<and> (\<forall>k. list_all (\<lambda>t. t \<le> rate_now tr) (rate_entry rm k))"
  using assms(1)
proof (induction rule: rate_run.induct)
  case start
  show ?case by (simp add: rate_entry_def)
next
  case (call rm tr now1 now2 cid lim rm')
  let ?w = "seconds (cfg_AlertRateWindow cfg)"
  have w: "wrap64 (- ?w) = - ?w" using assms(2,3) by (intro wrap64_id) auto
  have none: "list_all (\<lambda>t. t \<le> u) ts \<Longrightarrow> rate_fresh (u - ?w) ts = []" for u ts
    using assms(3) by (induction ts) (auto simp: time_after_def)
  have "list_all (\<lambda>t. t \<le> now1) (rate_entry rm cid)"
    using call.IH call.hyps(2) by (auto simp: list_all_iff intro: order.trans)
  then have "rate_fresh (now1 - ?w) (rate_entry rm cid) = []" by (rule none)
  then have step: "lim = False" "rm' = AList.update cid [now2] rm"
    using call.hyps(4) assms(4) by (simp_all add: isRateLimited_def Let_def w rate_entry_def)
  have "list_all (\<lambda>t. t \<le> now2) (rate_entry rm k)" for k
    using call.IH call.hyps(2,3) unfolding list_all_iff by (meson order.trans)
  with call.IH step show ?case by (auto simp: rate_entry_def map_of_update_apply split: option.splits)
qed

end
