(* ===== verification/Limiter.thy ===== *)
theory Limiter
  imports RateLimit Streams
begin

text \<open>
  The rate limiter against a specification that never forgets: \<open>isRateLimited\<close> prunes the times of a container at
  each of its calls and keeps a map, \<open>rate_spec\<close> keeps every alert that was let through. The interpretation
  \<open>limiter\<close> shows that both give the same answers, for every setting of rate and window, overflow included.
\<close>

section \<open>The calls\<close>

text \<open>A call has a container and the two readings of the clock.\<close>

type_synonym rate_call = "string \<times> time \<times> time"

fun rate_step :: "config \<Rightarrow> rate_call \<Rightarrow> (string \<times> time list) list \<Rightarrow> bool \<times> (string \<times> time list) list" where
  "rate_step cfg (k, now1, now2) rm = isRateLimited cfg rm k now1 now2"

section \<open>The specification\<close>

record rate_history =
  rh_passed :: "(string \<times> time) list"
  rh_now :: time

definition in_window :: "config \<Rightarrow> time \<Rightarrow> time \<Rightarrow> bool" where
  "in_window cfg now t \<longleftrightarrow> now + wrap64 (- seconds (cfg_AlertRateWindow cfg)) < t"

definition passed_of :: "string \<Rightarrow> (string \<times> time) list \<Rightarrow> time list" where
  "passed_of k h = map snd (filter (\<lambda>x. fst x = k) h)"

fun rate_spec :: "config \<Rightarrow> rate_call \<Rightarrow> rate_history \<Rightarrow> bool \<times> rate_history" where
  "rate_spec cfg (k, now1, now2) h =
     (let n = length (filter (in_window cfg now1) (passed_of k (rh_passed h)));
          limited = (cfg_AlertMaxRate cfg \<le> int n)
      in (limited, \<lparr>rh_passed = (if limited then rh_passed h else rh_passed h @ [(k, now2)]), rh_now = now2\<rparr>))"

fun rate_ok :: "rate_call \<Rightarrow> rate_history \<Rightarrow> bool" where
  "rate_ok (k, now1, now2) h \<longleftrightarrow> rh_now h \<le> now1 \<and> now1 \<le> now2"

text \<open>The map and the history agree on what can still count.\<close>

definition rate_rel :: "config \<Rightarrow> rate_history \<Rightarrow> (string \<times> time list) list \<Rightarrow> bool" where
  "rate_rel cfg h rm \<longleftrightarrow>
     (\<forall>k. filter (in_window cfg (rh_now h)) (rate_entry rm k) = filter (in_window cfg (rh_now h)) (passed_of k (rh_passed h)))"

section \<open>The simulation\<close>

lemma rate_fresh_filter: "rate_fresh cutoff ts = filter (\<lambda>t. cutoff < t) ts"
  by (induction cutoff ts rule: rate_fresh.induct) (simp_all add: time_after_def)

lemma in_window_later: "now \<le> now' \<Longrightarrow> in_window cfg now' t \<Longrightarrow> in_window cfg now t"
  by (simp add: in_window_def)

lemma filter_later:
  "now \<le> now' \<Longrightarrow> filter (in_window cfg now) ts = filter (in_window cfg now) us \<Longrightarrow>
   filter (in_window cfg now') ts = filter (in_window cfg now') us"
proof -
  assume le: "now \<le> now'" and eq: "filter (in_window cfg now) ts = filter (in_window cfg now) us"
  have f: "filter (in_window cfg now') vs = filter (in_window cfg now') (filter (in_window cfg now) vs)" for vs
    by (induction vs) (auto dest: in_window_later [OF le])
  have "filter (in_window cfg now') (filter (in_window cfg now) ts) = filter (in_window cfg now') (filter (in_window cfg now) us)"
    by (rule arg_cong [OF eq])
  then show ?thesis by (subst f [of ts], subst f [of us])
qed

lemma passed_of_simps [simp]:
  "passed_of k [] = []" "passed_of k (h @ [(j, t)]) = passed_of k h @ (if j = k then [t] else [])"
  by (simp_all add: passed_of_def)

lemma rate_entry_update: "rate_entry (AList.update j ts rm) k = (if k = j then ts else rate_entry rm k)"
  by (simp add: rate_entry_def map_of_update_apply)

lemma rate_simulates:
  assumes "rate_rel cfg h rm" and "rate_ok call h"
  shows "fst (rate_step cfg call rm) = fst (rate_spec cfg call h) \<and>
    rate_rel cfg (snd (rate_spec cfg call h)) (snd (rate_step cfg call rm))"
proof -
  obtain k now1 now2 where call: "call = (k, now1, now2)" by (cases call)
  then have le: "rh_now h \<le> now1" "now1 \<le> now2" using assms(2) by simp_all
  let ?p = "passed_of k (rh_passed h)" and ?e = "rate_entry rm k"
  define fresh where "fresh = filter (in_window cfg now1) ?e"
  have same: "filter (in_window cfg now1) (rate_entry rm j) = filter (in_window cfg now1) (passed_of j (rh_passed h))" for j
    by (rule filter_later [OF le(1)]) (rule assms(1) [unfolded rate_rel_def, rule_format])
  have later: "filter (in_window cfg now2) (rate_entry rm j) = filter (in_window cfg now2) (passed_of j (rh_passed h))" for j
    by (rule filter_later [OF le(2) same])
  have kept: "filter (in_window cfg now2) fresh = filter (in_window cfg now2) ?p"
    unfolding fresh_def by (rule filter_later [OF le(2)]) (simp add: same)
  have step: "isRateLimited cfg rm k now1 now2 =
      (if cfg_AlertMaxRate cfg \<le> int (length fresh) then (True, AList.update k fresh rm)
       else (False, AList.update k (fresh @ [now2]) rm))"
    unfolding isRateLimited_def rate_entry_def [symmetric] rate_fresh_filter Let_def
    by (simp add: fresh_def in_window_def [abs_def])
  have len: "length (filter (in_window cfg now1) ?p) = length fresh" by (simp add: fresh_def same)
  show ?thesis
    using later kept by (auto simp: call step len rate_rel_def rate_entry_update Let_def)
qed

interpretation limiter: stream_refinement rate_ok "rate_spec cfg" "rate_step cfg" "rate_rel cfg" for cfg
  by unfold_locales (rule rate_simulates)

section \<open>Property\<close>

text \<open>
  C15. The rate limiter counts exactly: on every sequence of calls whose clock does not go back, an alert is held back
  exactly when at least \<open>AlertMaxRate\<close> alerts of its container were let through within the window before it, although
  the map forgets what has left the window.
\<close>

theorem limiter_refines_history:
  assumes "admissible rate_ok (rate_spec cfg) calls \<lparr>rh_passed = [], rh_now = 0\<rparr>"
  shows "fst (run_stream (rate_step cfg) calls []) = fst (run_stream (rate_spec cfg) calls \<lparr>rh_passed = [], rh_now = 0\<rparr>)"
proof -
  have "rate_rel cfg \<lparr>rh_passed = [], rh_now = 0\<rparr> []" by (simp add: rate_rel_def rate_entry_def)
  from limiter.runs_agree [OF this assms] show ?thesis by (rule conjunct1)
qed

theorem limiter_refines_history_witness:
  "let calls = [(''c'', 1, 1), (''d'', 2, 2), (''c'', 1500000000, 1500000001), (''c'', 2000000001, 2000000002)]
   in fst (run_stream (rate_step rate_cfg) calls []) = [False, False, True, False] \<and>
      fst (run_stream (rate_spec rate_cfg) calls \<lparr>rh_passed = [], rh_now = 0\<rparr>) = [False, False, True, False]"
proof -
  let ?calls = "[(''c'', 1, 1), (''d'', 2, 2), (''c'', 1500000000, 1500000001), (''c'', 2000000001, 2000000002 :: int)]"
  have w: "wrap64 (- seconds (cfg_AlertRateWindow rate_cfg)) = - 2000000000" "cfg_AlertMaxRate rate_cfg = 1"
    by (simp_all add: rate_cfg_def seconds_def wrap64_def)
  have "admissible rate_ok (rate_spec rate_cfg) ?calls \<lparr>rh_passed = [], rh_now = 0\<rparr>"
    by (simp add: w Let_def)
  note eq = limiter_refines_history [OF this]
  have "fst (run_stream (rate_spec rate_cfg) ?calls \<lparr>rh_passed = [], rh_now = 0\<rparr>) = [False, False, True, False]"
    by (simp add: w Let_def in_window_def passed_of_def)
  with eq show ?thesis unfolding Let_def by simp
qed

end
