(* ===== verification/Channel.thy ===== *)
theory Channel
  imports Prelude
begin

text \<open>
  The channel both the collector and the store send to without blocking: \<open>select\<close> with a default branch
  that counts what it drops. The locale states the contract of such a send; its lemmas say what a sequence
  of sends leaves in the channel and that nothing is lost uncounted. The collector and the store interpret it.
\<close>

locale lossy_channel =
  fixes waiting :: "'s \<Rightarrow> 'a list"
    and dropped :: "'s \<Rightarrow> 64 word"
    and put :: "'a \<Rightarrow> 's \<Rightarrow> 's"
    and capacity :: nat
  assumes put_room: "length (waiting s) < capacity \<Longrightarrow>
      waiting (put x s) = waiting s @ [x] \<and> dropped (put x s) = dropped s"
    and put_full: "capacity \<le> length (waiting s) \<Longrightarrow>
      waiting (put x s) = waiting s \<and> dropped (put x s) = dropped s + 1"
begin

lemma put_cases:
  "waiting (put x s) = waiting s @ [x] \<and> dropped (put x s) = dropped s \<and> length (waiting s) < capacity \<or>
   waiting (put x s) = waiting s \<and> dropped (put x s) = dropped s + 1 \<and> capacity \<le> length (waiting s)"
  using put_room [of s x] put_full [of s x] by (cases "length (waiting s) < capacity") auto

lemma put_bounded: "length (waiting s) \<le> capacity \<Longrightarrow> length (waiting (put x s)) \<le> capacity"
  using put_cases [of x s] by auto

lemma put_accounted:
  "of_nat (length (waiting (put x s))) + dropped (put x s) = of_nat (length (waiting s)) + dropped s + 1"
  using put_cases [of x s] by auto

lemma put_subset: "set (waiting (put x s)) \<subseteq> insert x (set (waiting s))"
  using put_cases [of x s] by auto

text \<open>A burst of sends keeps the oldest and counts the rest.\<close>

lemma puts_waiting:
  "waiting (fold put xs s) = waiting s @ take (capacity - length (waiting s)) xs"
proof (induction xs arbitrary: s)
  case (Cons x xs)
  show ?case
  proof (cases "length (waiting s) < capacity")
    case True
    then have "capacity - length (waiting s) = Suc (capacity - length (waiting (put x s)))"
      using put_room [of s x] by simp
    with Cons [of "put x s"] put_room [OF True, of x] show ?thesis by simp
  next
    case False
    with Cons [of "put x s"] put_full [of s x] show ?thesis by simp
  qed
qed simp

lemma puts_accounted:
  "of_nat (length (waiting (fold put xs s))) + dropped (fold put xs s) =
   of_nat (length (waiting s)) + dropped s + of_nat (length xs)"
proof (induction xs arbitrary: s)
  case (Cons x xs)
  then show ?case using put_accounted [of x s] by (simp add: algebra_simps)
qed simp

end

end
