(* ===== verification/Storage.thy ===== *)
theory Storage
  imports Alerts Channel Config
begin

text \<open>
  Alert persistence, \<open>internal/storage/postgres.go\<close>: \<open>toRow\<close>, the bounded buffer \<open>Save\<close> fills, the worker
  goroutine with its batches and retries, \<open>Close\<close>, and the statements of the schema. The worker is a step
  relation whose phases are the places where it waits. The database is a parameter: whether an attempt to
  insert succeeds is a function of the number of the attempt, and \<open>st_db\<close> holds the rows of the batches the
  database accepted.
\<close>

section \<open>Rows\<close>

record row =
  w_Timestamp :: time
  w_ServerName :: string
  w_RuleID :: string
  w_Severity :: string
  w_Scope :: string
  w_ContainerID :: string
  w_ContainerName :: string
  w_ImageName :: string
  w_Syscall :: string
  w_PID :: int
  w_ProcessName :: string
  w_ParentName :: string
  w_Ancestry :: "string list"
  w_CmdLine :: string
  w_Reason :: string
  w_MitreTTP :: string
  w_MitreTactic :: string
  w_Tags :: "string list"
  w_Details :: "string option"

text \<open>\<open>marshal\<close> is \<open>json.Marshal\<close>; its error is ignored, which leaves nil bytes.\<close>

definition toRow :: "((string \<times> gval) list \<Rightarrow> string option) \<Rightarrow> alert \<Rightarrow> row" where
  "toRow marshal a =
     (let details = (if a_Details a \<noteq> [] then marshal (a_Details a) else None);
          sc = (if a_Scope a = [] then ScopeContainerName else a_Scope a)
      in \<lparr>w_Timestamp = a_Timestamp a, w_ServerName = a_ServerName a, w_RuleID = a_RuleID a,
          w_Severity = a_Severity a, w_Scope = sc, w_ContainerID = a_ContainerID a,
          w_ContainerName = a_ContainerName a, w_ImageName = a_ImageName a, w_Syscall = a_Syscall a,
          w_PID = uint (a_PID a), w_ProcessName = a_ProcessName a, w_ParentName = a_ParentName a,
          w_Ancestry = a_Ancestry a, w_CmdLine = a_CmdLine a, w_Reason = a_Reason a,
          w_MitreTTP = a_MITRETTP a, w_MitreTactic = a_MITRETactic a, w_Tags = a_Tags a, w_Details = details\<rparr>)"

section \<open>The store\<close>

definition bufferSize :: nat where "bufferSize = 2000"
definition batchSize :: nat where "batchSize = 100"

datatype phase = Schema | Running | Draining | Stopped

record store =
  st_ch :: "row list"
  st_batch :: "row list"
  st_phase :: phase
  st_done :: bool
  st_dropped :: "64 word"
  st_db :: "row list"

definition newStore :: store where
  "newStore = \<lparr>st_ch = [], st_batch = [], st_phase = Schema, st_done = False, st_dropped = 0, st_db = []\<rparr>"

definition put_row :: "row \<Rightarrow> store \<Rightarrow> store" where
  "put_row r s =
     (if length (st_ch s) < bufferSize then s\<lparr>st_ch := st_ch s @ [r]\<rparr>
      else s\<lparr>st_dropped := st_dropped s + 1\<rparr>)"

definition Save :: "((string \<times> gval) list \<Rightarrow> string option) \<Rightarrow> alert \<Rightarrow> store \<Rightarrow> store" where
  "Save marshal a s = put_row (toRow marshal a) s"

interpretation buffer: lossy_channel st_ch st_dropped put_row bufferSize
  by unfold_locales (simp_all add: put_row_def)

section \<open>The worker\<close>

text \<open>The attempts left and the number of the next one.\<close>

fun insert_attempts :: "(nat \<Rightarrow> bool) \<Rightarrow> nat \<Rightarrow> nat \<Rightarrow> bool" where
  "insert_attempts ok 0 k = False"
| "insert_attempts ok (Suc n) k = (if ok k then True else insert_attempts ok n (Suc k))"

definition insertWithRetry :: "(nat \<Rightarrow> bool) \<Rightarrow> bool" where
  "insertWithRetry ok = insert_attempts ok 3 0"

definition flush :: "(nat \<Rightarrow> bool) \<Rightarrow> store \<Rightarrow> store" where
  "flush ok s =
     (if st_batch s = [] then s
      else if insertWithRetry ok then s\<lparr>st_db := st_db s @ st_batch s, st_batch := []\<rparr>
      else s\<lparr>st_dropped := st_dropped s + of_nat (length (st_batch s)), st_batch := []\<rparr>)"

definition take_row :: "(nat \<Rightarrow> bool) \<Rightarrow> store \<Rightarrow> store" where
  "take_row ok s =
     (case st_ch s of
        [] \<Rightarrow> s
      | r # rs \<Rightarrow>
          (let s' = s\<lparr>st_ch := rs, st_batch := st_batch s @ [r]\<rparr>
           in if batchSize \<le> length (st_batch s') then flush ok s' else s'))"

text \<open>One step of the worker when it is draining: the inner \<open>select\<close> with its default.\<close>

definition drain_step :: "(nat \<Rightarrow> bool) \<Rightarrow> store \<Rightarrow> store" where
  "drain_step ok s = (if st_ch s \<noteq> [] then take_row ok s else (flush ok s)\<lparr>st_phase := Stopped\<rparr>)"

definition Close :: "store \<Rightarrow> store" where
  "Close s = s\<lparr>st_done := True\<rparr>"

text \<open>
  A step of the worker, by the place where it waits. A failed attempt at the schema that is retried changes
  nothing; one that finds the store closed returns.
\<close>

inductive worker :: "store \<Rightarrow> store \<Rightarrow> bool" where
  schema_ready: "st_phase s = Schema \<Longrightarrow> worker s (s\<lparr>st_phase := Running\<rparr>)"
| schema_failed: "st_phase s = Schema \<Longrightarrow> st_done s \<Longrightarrow> worker s (s\<lparr>st_phase := Stopped\<rparr>)"
| receive: "st_phase s = Running \<Longrightarrow> st_ch s \<noteq> [] \<Longrightarrow> worker s (take_row ok s)"
| tick: "st_phase s = Running \<Longrightarrow> worker s (flush ok s)"
| stop: "st_phase s = Running \<Longrightarrow> st_done s \<Longrightarrow> worker s (s\<lparr>st_phase := Draining\<rparr>)"
| drain: "st_phase s = Draining \<Longrightarrow> worker s (drain_step ok s)"

inductive_cases workerE [consumes 1, case_names schema_ready schema_failed receive tick stop drain]: "worker s s'"

text \<open>A run: the rows saved so far and the store.\<close>

inductive store_run :: "row list \<Rightarrow> store \<Rightarrow> bool" where
  new: "store_run [] newStore"
| save: "store_run log s \<Longrightarrow> store_run (log @ [toRow marshal a]) (Save marshal a s)"
| close: "store_run log s \<Longrightarrow> store_run log (Close s)"
| work: "store_run log s \<Longrightarrow> worker s s' \<Longrightarrow> store_run log s'"

section \<open>Facts\<close>

definition held :: "store \<Rightarrow> row list" where
  "held s = st_db s @ st_batch s @ st_ch s"

definition store_inv :: "row list \<Rightarrow> store \<Rightarrow> bool" where
  "store_inv log s \<longleftrightarrow> subseq (held s) log \<and> of_nat (length (held s)) + st_dropped s = of_nat (length log) \<and>
     length (st_ch s) \<le> bufferSize \<and> length (st_batch s) < batchSize"

lemma subseq_drop_middle: "subseq (xs @ zs) (xs @ ys @ zs)"
  by (induction xs) (auto intro: list_emb_append2)

lemma flush_inv: "subseq (held s) log \<Longrightarrow> of_nat (length (held s)) + st_dropped s = of_nat (length log) \<Longrightarrow>
    length (st_ch s) \<le> bufferSize \<Longrightarrow> store_inv log (flush ok s)"
  using subseq_order.trans [OF subseq_drop_middle [of "st_db s" "st_ch s" "st_batch s"], of log]
  by (auto simp: store_inv_def flush_def held_def batchSize_def algebra_simps)

lemma flush_store_inv: "store_inv log s \<Longrightarrow> store_inv log (flush ok s)"
  by (rule flush_inv) (simp_all add: store_inv_def)

lemma take_row_inv: "store_inv log s \<Longrightarrow> store_inv log (take_row ok s)"
proof (cases "st_ch s")
  case (Cons r rs)
  let ?s = "s\<lparr>st_ch := rs, st_batch := st_batch s @ [r]\<rparr>"
  assume inv: "store_inv log s"
  then have "subseq (held ?s) log" "of_nat (length (held ?s)) + st_dropped ?s = of_nat (length log)"
    "length (st_ch ?s) \<le> bufferSize"
    using Cons by (simp_all add: store_inv_def held_def)
  with Cons flush_inv [of ?s log ok] show ?thesis
    by (auto simp: take_row_def Let_def store_inv_def not_le)
qed (simp add: take_row_def)

lemma put_row_inv: "store_inv log s \<Longrightarrow> store_inv (log @ [r]) (put_row r s)"
proof -
  assume inv: "store_inv log s"
  have db: "st_db (put_row r s) = st_db s" "st_batch (put_row r s) = st_batch s" by (simp_all add: put_row_def)
  have len: "of_nat (length (held (put_row r s))) + st_dropped (put_row r s) = of_nat (length (log @ [r]))"
    using buffer.put_accounted [of r s] inv by (simp add: held_def db store_inv_def algebra_simps)
  have "subseq (held (put_row r s)) (held s @ [r])"
    using buffer.put_cases [of r s] by (auto simp: held_def db)
  moreover have "subseq (held s @ [r]) (log @ [r])" using inv by (simp add: store_inv_def)
  ultimately have "subseq (held (put_row r s)) (log @ [r])" by (rule subseq_order.trans)
  with len inv buffer.put_bounded [of s r] show ?thesis by (simp add: store_inv_def db)
qed

lemma worker_inv:
  assumes "worker s s'" and inv: "store_inv log s"
  shows "store_inv log s'"
  using assms(1)
proof (cases rule: worker.cases)
  case (drain ok)
  with inv flush_store_inv [of log s ok] take_row_inv [of log s ok] show ?thesis
    by (simp add: drain_step_def store_inv_def held_def)
qed (use inv in \<open>simp_all add: flush_store_inv take_row_inv, simp_all add: store_inv_def held_def\<close>)

lemma store_run_inv: "store_run log s \<Longrightarrow> store_inv log s"
proof (induction rule: store_run.induct)
  case (save log s marshal a)
  then show ?case by (simp add: Save_def put_row_inv)
next
  case (work log s s')
  then show ?case by (simp add: worker_inv)
qed (simp_all add: store_inv_def newStore_def Close_def held_def bufferSize_def batchSize_def)

text \<open>The worker moves rows and adds none.\<close>

lemma worker_held: "worker s s' \<Longrightarrow> set (held s') \<subseteq> set (held s)"
  by (erule worker.cases)
    (auto simp: drain_step_def take_row_def flush_def held_def Let_def split: list.splits if_splits)

lemma take_row_phase [simp]: "st_phase (take_row ok s) = st_phase s" "st_done (take_row ok s) = st_done s"
  by (simp_all add: take_row_def flush_def Let_def split: list.splits)

lemma flush_fields [simp]: "st_ch (flush ok s) = st_ch s" "st_phase (flush ok s) = st_phase s" "st_batch (flush ok s) = []"
  by (simp_all add: flush_def)

lemma take_row_ch: "st_ch (take_row ok s) = tl (st_ch s)"
  by (simp add: take_row_def Let_def split: list.splits)

text \<open>The rows in batches of a size, the last one with what is left.\<close>

fun batches :: "nat \<Rightarrow> 'a list \<Rightarrow> 'a list list" where
  "batches n xs = (if n = 0 \<or> xs = [] then [] else take n xs # batches n (List.drop n xs))"

declare batches.simps [simp del]

lemma batches_Nil [simp]: "batches n [] = []"
  by (simp add: batches.simps)

lemma batches_append: "length xs = n \<Longrightarrow> xs \<noteq> [] \<Longrightarrow> batches n (xs @ ys) = xs # batches n ys"
  by (subst batches.simps) auto

lemma batches_short: "xs \<noteq> [] \<Longrightarrow> length xs < n \<Longrightarrow> batches n xs = [xs]"
  by (subst batches.simps) auto

lemma concat_batches: "0 < n \<Longrightarrow> concat (batches n xs) = xs"
  by (induction n xs rule: batches.induct) (subst batches.simps, simp)

text \<open>What is inserted and what is dropped when the inserts of the batches end as the list says.\<close>

definition inserted :: "'a list list \<Rightarrow> bool list \<Rightarrow> 'a list" where
  "inserted bs out = concat (map fst (filter snd (zip bs out)))"

definition lost :: "'a list list \<Rightarrow> bool list \<Rightarrow> 'a list" where
  "lost bs out = concat (map fst (filter (\<lambda>(b, ok). \<not> ok) (zip bs out)))"

lemma inserted_Cons [simp]:
  "inserted [] out = []" "lost [] out = []"
  "inserted (b # bs) (ok # out) = (if ok then b else []) @ inserted bs out"
  "lost (b # bs) (ok # out) = (if ok then [] else b) @ lost bs out"
  by (simp_all add: inserted_def lost_def)

lemma inserted_all: "length out = length bs \<Longrightarrow> set out \<subseteq> {True} \<Longrightarrow> inserted bs out = concat bs \<and> lost bs out = []"
  by (induction out bs rule: list_induct2) auto

text \<open>The worker alone, draining: it stops after one step more than there are rows waiting.\<close>

lemma drain_steps:
  assumes "st_phase s = Draining" and "length (st_batch s) < batchSize" and "length oks = Suc (length (st_ch s))"
  shows "\<exists>out. subseq out (map insertWithRetry oks) \<and> length out = length (batches batchSize (st_batch s @ st_ch s)) \<and>
    fold drain_step oks s = s\<lparr>st_ch := [], st_batch := [], st_phase := Stopped,
      st_db := st_db s @ inserted (batches batchSize (st_batch s @ st_ch s)) out,
      st_dropped := st_dropped s + of_nat (length (lost (batches batchSize (st_batch s @ st_ch s)) out))\<rparr>"
  using assms
proof (induction oks arbitrary: s)
  case (Cons ok oks)
  show ?case
  proof (cases "st_ch s")
    case Nil
    with Cons.prems have oks: "oks = []" by simp
    show ?thesis
    proof (cases "st_batch s = []")
      case True
      with Nil oks show ?thesis by (intro exI [of _ "[]"]) (simp add: drain_step_def flush_def)
    next
      case False
      with Nil oks Cons.prems(2) show ?thesis
        by (intro exI [of _ "[insertWithRetry ok]"]) (simp add: drain_step_def flush_def batches_short)
    qed
  next
    case ch: (Cons r rs)
    let ?t = "take_row ok s"
    have t: "st_phase ?t = Draining" "length oks = Suc (length (st_ch ?t))" "drain_step ok s = ?t"
      using Cons.prems ch by (simp_all add: take_row_ch drain_step_def)
    show ?thesis
    proof (cases "Suc (length (st_batch s)) < batchSize")
      case True
      then have "?t = s\<lparr>st_ch := rs, st_batch := st_batch s @ [r]\<rparr>" by (simp add: take_row_def Let_def ch)
      with Cons.IH [of ?t] t True ch show ?thesis by (auto intro: list_emb_Cons)
    next
      case False
      then have full: "length (st_batch s @ [r]) = batchSize" using Cons.prems(2) by simp
      then have eq: "?t = flush ok (s\<lparr>st_ch := rs, st_batch := st_batch s @ [r]\<rparr>)" by (simp add: take_row_def Let_def ch)
      have bs: "batches batchSize (st_batch s @ st_ch s) = (st_batch s @ [r]) # batches batchSize rs"
        using batches_append [OF full, of rs] by (simp add: ch)
      obtain out where out: "subseq out (map insertWithRetry oks)" "length out = length (batches batchSize rs)"
        "fold drain_step oks ?t = ?t\<lparr>st_ch := [], st_batch := [], st_phase := Stopped,
          st_db := st_db ?t @ inserted (batches batchSize rs) out,
          st_dropped := st_dropped ?t + of_nat (length (lost (batches batchSize rs) out))\<rparr>"
        using Cons.IH [OF t(1) _ t(2)] by (auto simp: eq batchSize_def)
      show ?thesis
        using out t(3) unfolding bs
        by (intro exI [of _ "insertWithRetry ok # out"]) (simp add: eq flush_def)
    qed
  qed
qed simp

section \<open>Properties\<close>

text \<open>
  C11. Every saved alert is accounted for: in every reachable state, the rows the database accepted, the
  rows of the batch and the rows waiting are, in this order, a subsequence of the rows saved, and what is
  missing of them is the count of dropped rows; the buffer never exceeds its size nor the batch its own.
\<close>

theorem rows_accounted:
  assumes "store_run log s"
  shows "subseq (st_db s @ st_batch s @ st_ch s) log \<and>
    of_nat (length (st_db s @ st_batch s @ st_ch s)) + st_dropped s = of_nat (length log) \<and>
    length (st_ch s) \<le> 2000 \<and> length (st_batch s) < 100"
  using store_run_inv [OF assms] by (simp add: store_inv_def held_def bufferSize_def batchSize_def)

theorem rows_accounted_witness:
  "\<exists>s :: store. st_db s = [toRow (\<lambda>d. None) empty_alert] \<and> subseq (st_db s @ st_batch s @ st_ch s) [toRow (\<lambda>d. None) empty_alert]"
proof -
  let ?r = "toRow (\<lambda>d. None) empty_alert" and ?ok = "\<lambda>k :: nat. True"
  let ?s1 = "newStore\<lparr>st_phase := Running\<rparr>"
  have "store_run [] ?s1"
    by (rule store_run.work [OF store_run.new worker.schema_ready]) (simp add: newStore_def)
  from store_run.save [OF this, of "\<lambda>d. None" empty_alert]
  have "store_run [?r] (Save (\<lambda>d. None) empty_alert ?s1)" by simp
  from store_run.work [OF this worker.receive, of ?ok]
  have "store_run [?r] (take_row ?ok (Save (\<lambda>d. None) empty_alert ?s1))"
    by (simp add: Save_def put_row_def newStore_def bufferSize_def)
  from store_run.work [OF this worker.tick, of ?ok]
  have run: "store_run [?r] (flush ?ok (take_row ?ok (Save (\<lambda>d. None) empty_alert ?s1)))"
    by (simp add: Save_def put_row_def newStore_def bufferSize_def)
  have "st_db (flush ?ok (take_row ?ok (Save (\<lambda>d. None) empty_alert ?s1))) = [?r]"
    by (simp add: Save_def put_row_def newStore_def bufferSize_def take_row_def flush_def Let_def batchSize_def
        insertWithRetry_def eval_nat_numeral)
  with rows_accounted [OF run] show ?thesis by blast
qed



text \<open>
  Not so when the database was never ready: a store closed while its worker still waits for the schema
  stops with the rows of its buffer neither stored nor counted as dropped.
\<close>

theorem unready_close_loses:
  assumes "store_run log s" and "st_phase s = Schema" and "st_done s" and "st_ch s \<noteq> []"
  shows "\<exists>s'. store_run log s' \<and> st_phase s' = Stopped \<and> st_ch s' = st_ch s \<and> st_dropped s' = st_dropped s \<and>
    st_db s' = st_db s"
  using store_run.work [OF assms(1) worker.schema_failed [OF assms(2,3)]] by (intro exI [of _ "s\<lparr>st_phase := Stopped\<rparr>"]) simp

theorem unready_close_loses_witness:
  "\<exists>s' :: store. store_run [toRow (\<lambda>d. None) empty_alert] s' \<and> st_phase s' = Stopped \<and> st_ch s' = [toRow (\<lambda>d. None) empty_alert]"
proof -
  let ?r = "toRow (\<lambda>d. None) empty_alert"
  have "store_run ([] @ [?r]) (Save (\<lambda>d. None) empty_alert newStore)"
    by (rule store_run.save [OF store_run.new])
  then have run: "store_run [?r] (Close (Save (\<lambda>d. None) empty_alert newStore))" by (simp add: store_run.close)
  have view: "st_phase (Close (Save (\<lambda>d. None) empty_alert newStore)) = Schema"
    "st_done (Close (Save (\<lambda>d. None) empty_alert newStore))"
    "st_ch (Close (Save (\<lambda>d. None) empty_alert newStore)) = [?r]"
    by (simp_all add: Close_def Save_def put_row_def newStore_def bufferSize_def)
  from unready_close_loses [OF run view(1,2)] view(3) show ?thesis by auto
qed

end
