(* ===== verification/Schema.thy ===== *)
theory Schema
  imports Prelude
begin

text \<open>
  The statements of \<open>internal/storage\<close> as text: \<open>insertSQL\<close> and \<open>schemaStatements\<close> of \<open>postgres.go\<close>, and
  \<open>alertColumns\<close> of \<open>query.go\<close>, with readers of column lists that compare them.
\<close>

definition nl :: string where "nl = [CHR 0x0A]"
definition tab :: string where "tab = [CHR 0x09]"
definition quote :: string where "quote = [CHR 0x27]"

section \<open>The statements\<close>

definition insertSQL :: string where
  "insertSQL =
     ''INSERT INTO alerts'' @ nl @
     ''(timestamp, server_name, rule_id, severity, scope, container_id, container_name, image_name,'' @ nl @
     '' syscall, pid, process_name, parent_name, ancestry, cmdline, reason, mitre_ttp,'' @ nl @
     '' mitre_tactic, tags, details)'' @ nl @
     ''VALUES ($1,$2,$3,$4,$5,$6,$7,$8,$9,$10,$11,$12,$13,$14,$15,$16,$17,$18,$19)''"

definition base_statements :: "string list" where
  "base_statements =
    [''CREATE EXTENSION IF NOT EXISTS timescaledb'',
     ''CREATE TABLE IF NOT EXISTS alerts ('' @ nl @ tab @ tab @ tab @
     ''id             uuid        NOT NULL DEFAULT gen_random_uuid(),'' @ nl @ tab @ tab @ tab @
     ''timestamp      timestamptz NOT NULL,'' @ nl @ tab @ tab @ tab @ ''server_name    text,'' @ nl @ tab @
     tab @ tab @ ''rule_id        text,'' @ nl @ tab @ tab @ tab @ ''severity       text,'' @ nl @ tab @ tab @
     tab @ ''scope          text        NOT NULL DEFAULT '' @ quote @ ''container'' @ quote @ '','' @ nl @
     tab @ tab @ tab @ ''container_id   text,'' @ nl @ tab @ tab @ tab @ ''container_name text,'' @ nl @ tab @
     tab @ tab @ ''image_name     text,'' @ nl @ tab @ tab @ tab @ ''syscall        text,'' @ nl @ tab @ tab @
     tab @ ''pid            bigint,'' @ nl @ tab @ tab @ tab @ ''process_name   text,'' @ nl @ tab @ tab @
     tab @ ''parent_name    text,'' @ nl @ tab @ tab @ tab @ ''ancestry       text[],'' @ nl @ tab @ tab @
     tab @ ''cmdline        text,'' @ nl @ tab @ tab @ tab @ ''reason         text,'' @ nl @ tab @ tab @ tab @
     ''mitre_ttp      text,'' @ nl @ tab @ tab @ tab @ ''mitre_tactic   text,'' @ nl @ tab @ tab @ tab @
     ''tags           text[],'' @ nl @ tab @ tab @ tab @ ''details        jsonb,'' @ nl @ tab @ tab @ tab @
     ''PRIMARY KEY (id, timestamp)'' @ nl @ tab @ tab @ '')'',
     ''ALTER TABLE alerts ADD COLUMN IF NOT EXISTS scope text NOT NULL DEFAULT '' @ quote @ ''container'' @
     quote,
     ''SELECT create_hypertable('' @ quote @ ''alerts'' @ quote @ '', '' @ quote @ ''timestamp'' @ quote @
     '', if_not_exists => TRUE)'',
     ''CREATE INDEX IF NOT EXISTS alerts_container_ts ON alerts (container_id, timestamp DESC)'',
     ''CREATE INDEX IF NOT EXISTS alerts_severity_ts ON alerts (severity, timestamp DESC)'',
     ''CREATE INDEX IF NOT EXISTS alerts_rule_ts ON alerts (rule_id, timestamp DESC)'',
     ''CREATE INDEX IF NOT EXISTS alerts_scope_ts ON alerts (scope, timestamp DESC)'',
     ''CREATE TABLE IF NOT EXISTS suppressions ('' @ nl @ tab @ tab @ tab @
     ''id             uuid        NOT NULL DEFAULT gen_random_uuid() PRIMARY KEY,'' @ nl @ tab @ tab @ tab @
     ''rule_id        text        NOT NULL DEFAULT '' @ quote @ quote @ '','' @ nl @ tab @ tab @ tab @
     ''scope          text        NOT NULL DEFAULT '' @ quote @ quote @ '','' @ nl @ tab @ tab @ tab @
     ''hostname       text        NOT NULL DEFAULT '' @ quote @ quote @ '','' @ nl @ tab @ tab @ tab @
     ''container_name text        NOT NULL DEFAULT '' @ quote @ quote @ '','' @ nl @ tab @ tab @ tab @
     ''process_name   text        NOT NULL DEFAULT '' @ quote @ quote @ '','' @ nl @ tab @ tab @ tab @
     ''substr         text        NOT NULL DEFAULT '' @ quote @ quote @ '','' @ nl @ tab @ tab @ tab @
     ''reason         text        NOT NULL DEFAULT '' @ quote @ quote @ '','' @ nl @ tab @ tab @ tab @
     ''created_by     text        NOT NULL DEFAULT '' @ quote @ quote @ '','' @ nl @ tab @ tab @ tab @
     ''created_at     timestamptz NOT NULL DEFAULT now()'' @ nl @ tab @ tab @ '')'',
     ''ALTER TABLE suppressions ADD COLUMN IF NOT EXISTS scope text NOT NULL DEFAULT '' @ quote @ quote,
     ''ALTER TABLE suppressions ADD COLUMN IF NOT EXISTS hostname text NOT NULL DEFAULT '' @ quote @ quote]"

definition retention_statement :: "int \<Rightarrow> string" where
  "retention_statement days =
     ''SELECT add_retention_policy('' @ quote @ ''alerts'' @ quote @ '', INTERVAL '' @ quote @
     show_int days @ '' days'' @ quote @ '', if_not_exists => TRUE)''"

definition schemaStatements :: "int \<Rightarrow> string list" where
  "schemaStatements retentionDays =
     (if 0 < retentionDays then base_statements @ [retention_statement retentionDays] else base_statements)"

definition alertColumns :: string where
  "alertColumns =
     ''id::text, timestamp, server_name, rule_id, severity, scope, container_id,'' @ nl @ tab @
     ''container_name, image_name, syscall, pid, process_name, parent_name, ancestry,'' @ nl @ tab @
     ''cmdline, reason, mitre_ttp, mitre_tactic, tags, details''"

section \<open>Reading columns\<close>

definition parens :: "string \<Rightarrow> string" where
  "parens s = takeWhile (\<lambda>c. c \<noteq> CHR '')'') (tl (dropWhile (\<lambda>c. c \<noteq> CHR ''('') s))"

definition listed :: "string \<Rightarrow> string list" where
  "listed s = map trim_space (split_byte CHR '','' s)"

definition first_word :: "string \<Rightarrow> string" where
  "first_word s = takeWhile (\<lambda>c. \<not> is_space c) (trim_space s)"

definition declared :: "string \<Rightarrow> string list" where
  "declared s = map first_word (split_byte CHR 0x0A s)"

definition placeholders :: "string \<Rightarrow> string list" where
  "placeholders s = tl (split_byte CHR ''$'' s)"

section \<open>Property\<close>

text \<open>
  The statements fit together: the insert names nineteen distinct columns, as many as it has
  placeholders, each declared by the table the schema creates, and a query of the history selects the same
  columns in the same order after the id. The text is that of the source, compared by reading it.
\<close>

theorem statements_agree:
  "length (listed (parens insertSQL)) = 19 \<and> distinct (listed (parens insertSQL)) \<and>
   length (placeholders insertSQL) = 19 \<and>
   list_all (\<lambda>c. c \<in> set (declared (base_statements ! 1))) (listed (parens insertSQL)) \<and>
   listed alertColumns = ''id::text'' # listed (parens insertSQL)"
  by code_simp

end
