(* ===== verification/Query.thy ===== *)
theory Query
  imports Storage Schema Suppress
begin

text \<open>
  The read path, \<open>internal/storage/query.go\<close>: the statement and arguments \<open>queryAlerts\<close> builds, the scan of
  its rows, the aggregates of \<open>stats\<close>, the suppression table and the delegations of \<open>Store\<close>. The database
  is the record \<open>database\<close> of what the pool answers to each statement with its arguments; \<open>None\<close> is an
  error of the pool, the statement or a scan.
\<close>

section \<open>Alert history\<close>

record alert_filter =
  af_Severity :: string
  af_Scope :: string
  af_Container :: string
  af_RuleID :: string
  af_Since :: time
  af_Limit :: int

definition defaultAlertLimit :: int where "defaultAlertLimit = 100"
definition maxAlertLimit :: int where "maxAlertLimit = 1000"

datatype sql_arg = ArgText string | ArgTime time | ArgInt int

type_synonym conds = "string list \<times> sql_arg list"

text \<open>The closure \<open>add\<close> of \<open>queryAlerts\<close>: a condition with the number of its argument.\<close>

definition add_cond :: "string \<Rightarrow> string \<Rightarrow> conds \<Rightarrow> conds" where
  "add_cond col val cs =
     (if val = [] then cs
      else (fst cs @ [col @ '' = $'' @ show_nat (length (snd cs) + 1)], snd cs @ [ArgText val]))"

definition add_since :: "time \<Rightarrow> conds \<Rightarrow> conds" where
  "add_since since cs =
     (if is_zero_time since then cs
      else (fst cs @ [''timestamp >= $'' @ show_nat (length (snd cs) + 1)], snd cs @ [ArgTime since]))"

definition clamp_limit :: "int \<Rightarrow> int" where
  "clamp_limit n = (let l = (if n \<le> 0 then defaultAlertLimit else n) in if maxAlertLimit < l then maxAlertLimit else l)"

definition alerts_query :: "alert_filter \<Rightarrow> string \<times> sql_arg list" where
  "alerts_query f =
     (let (conds, args) =
        add_since (af_Since f) (add_cond ''rule_id'' (af_RuleID f) (add_cond ''container_name'' (af_Container f)
          (add_cond ''scope'' (af_Scope f) (add_cond ''severity'' (af_Severity f) ([], [])))));
          sql = ''SELECT '' @ alertColumns @ '' FROM alerts'' @
            (if conds \<noteq> [] then '' WHERE '' @ join '' AND '' conds else []) @ '' ORDER BY timestamp DESC'';
          args' = args @ [ArgInt (clamp_limit (af_Limit f))]
      in (sql @ '' LIMIT $'' @ show_nat (length args'), args'))"

text \<open>A row of the result and the alert scanned from it; an error of \<open>Unmarshal\<close> is ignored.\<close>

definition scan_alert :: "(string \<Rightarrow> (string \<times> gval) list option) \<Rightarrow> string \<times> row \<Rightarrow> alert" where
  "scan_alert unmarshal ir =
     (case ir of (rid, r) \<Rightarrow>
        empty_alert\<lparr>a_ID := rid, a_Timestamp := w_Timestamp r, a_ServerName := w_ServerName r,
          a_RuleID := w_RuleID r, a_Severity := w_Severity r, a_Scope := w_Scope r,
          a_ContainerID := w_ContainerID r, a_ContainerName := w_ContainerName r,
          a_ImageName := w_ImageName r, a_Syscall := w_Syscall r, a_PID := word_of_int (w_PID r),
          a_ProcessName := w_ProcessName r, a_ParentName := w_ParentName r, a_Ancestry := w_Ancestry r,
          a_CmdLine := w_CmdLine r, a_Reason := w_Reason r, a_MITRETTP := w_MitreTTP r,
          a_MITRETactic := w_MitreTactic r, a_Tags := w_Tags r,
          a_Details := (case w_Details r of None \<Rightarrow> []
            | Some d \<Rightarrow> if d = [] then [] else (case unmarshal d of None \<Rightarrow> [] | Some m \<Rightarrow> m))\<rparr>)"

section \<open>The database\<close>

record database =
  db_pool :: bool
  db_rows :: "string \<Rightarrow> sql_arg list \<Rightarrow> (string \<times> row) list option"
  db_count :: "string \<Rightarrow> sql_arg list \<Rightarrow> int option"
  db_group :: "string \<Rightarrow> sql_arg list \<Rightarrow> (string \<times> int) list option"
  db_rules :: "string \<Rightarrow> supp_rule list option"
  db_insert :: "string \<Rightarrow> sql_arg list \<Rightarrow> (string \<times> time) option"
  db_exec :: "string \<Rightarrow> sql_arg list \<Rightarrow> nat option"

datatype query_err = NoQuerier | PoolErr | DBErr

definition queryAlerts :: "(string \<Rightarrow> (string \<times> gval) list option) \<Rightarrow> database \<Rightarrow> alert_filter \<Rightarrow>
    (query_err, alert list) res" where
  "queryAlerts unmarshal d f =
     (if \<not> db_pool d then Inl PoolErr
      else (case alerts_query f of (sql, args) \<Rightarrow>
              (case db_rows d sql args of
                 None \<Rightarrow> Inl DBErr
               | Some rows \<Rightarrow> Inr (map (scan_alert unmarshal) rows))))"

section \<open>Aggregates\<close>

record stats_result =
  sr_Since :: time
  sr_Total :: int
  sr_BySeverity :: "(string \<times> int) list"
  sr_ByScope :: "(string \<times> int) list"
  sr_ByRule :: "(string \<times> int) list"
  sr_TopContainers :: "(string \<times> int) list"

definition group_sql :: "string \<Rightarrow> nat \<Rightarrow> string" where
  "group_sql col limit =
     ''SELECT coalesce('' @ col @ '','' @ quote @ quote @ '') AS k, count(*) AS c FROM alerts'' @ nl @ tab @ tab @
     tab @ '' WHERE timestamp >= $1 GROUP BY k ORDER BY c DESC'' @
     (if 0 < limit then '' LIMIT '' @ show_nat limit else [])"

definition group :: "database \<Rightarrow> time \<Rightarrow> string \<Rightarrow> nat \<Rightarrow> (query_err, (string \<times> int) list) res" where
  "group d since col limit =
     (case db_group d (group_sql col limit) [ArgTime since] of None \<Rightarrow> Inl DBErr | Some cs \<Rightarrow> Inr cs)"

definition stats :: "database \<Rightarrow> time \<Rightarrow> (query_err, stats_result) res" where
  "stats d since =
     (if \<not> db_pool d then Inl PoolErr
      else (case db_count d ''SELECT count(*) FROM alerts WHERE timestamp >= $1'' [ArgTime since] of
              None \<Rightarrow> Inl DBErr
            | Some cnt \<Rightarrow>
                rbind (group d since ''severity'' 0) (\<lambda>sev.
                rbind (group d since ''scope'' 0) (\<lambda>sc.
                rbind (group d since ''rule_id'' 0) (\<lambda>ru.
                rbind (group d since ''container_name'' 20) (\<lambda>co.
                  Inr \<lparr>sr_Since = since, sr_Total = cnt, sr_BySeverity = sev, sr_ByScope = sc,
                    sr_ByRule = ru, sr_TopContainers = co\<rparr>))))))"

section \<open>Suppressions\<close>

definition listSuppressions :: "database \<Rightarrow> (query_err, supp_set) res" where
  "listSuppressions d =
     (if \<not> db_pool d then Inl PoolErr
      else (case db_rules d (''SELECT id::text, rule_id, scope, hostname, container_name, process_name, substr, reason, created_by, created_at'' @
              nl @ tab @ tab @ '' FROM suppressions ORDER BY created_at DESC'') of
              None \<Rightarrow> Inl DBErr | Some rs \<Rightarrow> Inr rs))"

definition insert_args :: "supp_rule \<Rightarrow> sql_arg list" where
  "insert_args r =
     map (\<lambda>s. ArgText (trim_space s))
       [s_RuleID r, s_Scope r, s_Hostname r, s_ContainerName r, s_ProcessName r, s_Substr r, s_Reason r, s_CreatedBy r]"

definition addSuppression :: "database \<Rightarrow> supp_rule \<Rightarrow> (query_err, supp_rule) res" where
  "addSuppression d r =
     (if \<not> db_pool d then Inl PoolErr
      else (case db_insert d
              (''INSERT INTO suppressions (rule_id, scope, hostname, container_name, process_name, substr, reason, created_by)'' @
               nl @ tab @ tab @ '' VALUES ($1,$2,$3,$4,$5,$6,$7,$8) RETURNING id::text, created_at'') (insert_args r) of
              None \<Rightarrow> Inl DBErr
            | Some (i, at) \<Rightarrow> Inr (r\<lparr>s_ID := i, s_CreatedAt := at\<rparr>)))"

definition deleteSuppression :: "database \<Rightarrow> string \<Rightarrow> (query_err, bool) res" where
  "deleteSuppression d i =
     (if \<not> db_pool d then Inl PoolErr
      else (case db_exec d ''DELETE FROM suppressions WHERE id::text = $1'' [ArgText i] of
              None \<Rightarrow> Inl DBErr | Some n \<Rightarrow> Inr (0 < n)))"

section \<open>The store's methods\<close>

text \<open>A store built without a database has no querier.\<close>

definition with_querier :: "database option \<Rightarrow> (database \<Rightarrow> (query_err, 'a) res) \<Rightarrow> (query_err, 'a) res" where
  "with_querier q f = (case q of None \<Rightarrow> Inl NoQuerier | Some d \<Rightarrow> f d)"

definition QueryAlerts :: "(string \<Rightarrow> (string \<times> gval) list option) \<Rightarrow> database option \<Rightarrow> alert_filter \<Rightarrow>
    (query_err, alert list) res" where
  "QueryAlerts unmarshal q f = with_querier q (\<lambda>d. queryAlerts unmarshal d f)"

definition Stats :: "database option \<Rightarrow> time \<Rightarrow> (query_err, stats_result) res" where
  "Stats q since = with_querier q (\<lambda>d. stats d since)"

definition ListSuppressions :: "database option \<Rightarrow> (query_err, supp_set) res" where
  "ListSuppressions q = with_querier q listSuppressions"

definition AddSuppression :: "database option \<Rightarrow> supp_rule \<Rightarrow> (query_err, supp_rule) res" where
  "AddSuppression q r = with_querier q (\<lambda>d. addSuppression d r)"

definition DeleteSuppression :: "database option \<Rightarrow> string \<Rightarrow> (query_err, bool) res" where
  "DeleteSuppression q i = with_querier q (\<lambda>d. deleteSuppression d i)"

section \<open>Facts\<close>

text \<open>The rule a database holds after an insert of the arguments.\<close>

definition stored_rule :: "sql_arg list \<Rightarrow> string \<Rightarrow> time \<Rightarrow> supp_rule option" where
  "stored_rule args i at =
     (case args of
        [ArgText a, ArgText b, ArgText c, ArgText d, ArgText e, ArgText f, ArgText g, ArgText h] \<Rightarrow>
          Some \<lparr>s_ID = i, s_RuleID = a, s_Scope = b, s_Hostname = c, s_ContainerName = d, s_ProcessName = e,
            s_Substr = f, s_Reason = g, s_CreatedBy = h, s_CreatedAt = at\<rparr>
      | _ \<Rightarrow> None)"

lemma clamp_limit_range: "1 \<le> clamp_limit n \<and> clamp_limit n \<le> 1000"
  by (simp add: clamp_limit_def defaultAlertLimit_def maxAlertLimit_def Let_def)

text \<open>The conditions as the operator asks for them: what a set filter compares, and its value.\<close>

definition filter_terms :: "alert_filter \<Rightarrow> (string \<times> sql_arg) list" where
  "filter_terms f =
     [(col @ '' = '', ArgText val). (col, val) \<leftarrow> [(''severity'', af_Severity f), (''scope'', af_Scope f),
        (''container_name'', af_Container f), (''rule_id'', af_RuleID f)], val \<noteq> []] @
     (if is_zero_time (af_Since f) then [] else [(''timestamp >= '', ArgTime (af_Since f))])"

text \<open>The text of numbered conditions: the i-th names the i-th argument.\<close>

definition numbered :: "string list \<Rightarrow> string list" where
  "numbered ps = map (\<lambda>(i, p). p @ ''$'' @ show_nat i) (enumerate 1 ps)"

lemma numbered_append: "numbered (ps @ [p]) = numbered ps @ [p @ ''$'' @ show_nat (Suc (length ps))]"
  by (simp add: numbered_def enumerate_append_eq)

lemma numbered_length [simp]: "length (numbered ps) = length ps"
  by (simp add: numbered_def)

definition conds_of :: "(string \<times> sql_arg) list \<Rightarrow> conds" where
  "conds_of cs = (numbered (map fst cs), map snd cs)"

lemma add_cond_terms:
  "add_cond col val (conds_of cs) = conds_of (cs @ (if val = [] then [] else [(col @ '' = '', ArgText val)]))"
  by (simp add: add_cond_def conds_of_def numbered_append)

lemma add_since_terms:
  "add_since t (conds_of cs) = conds_of (cs @ (if is_zero_time t then [] else [(''timestamp >= '', ArgTime t)]))"
  by (simp add: add_since_def conds_of_def numbered_append)

lemma query_conds:
  "add_since (af_Since f) (add_cond ''rule_id'' (af_RuleID f) (add_cond ''container_name'' (af_Container f)
     (add_cond ''scope'' (af_Scope f) (add_cond ''severity'' (af_Severity f) ([], []))))) = conds_of (filter_terms f)"
proof -
  have "([], []) = conds_of []" by (simp add: conds_of_def numbered_def)
  then show ?thesis by (simp add: add_cond_terms add_since_terms filter_terms_def)
qed

section \<open>Properties\<close>

text \<open>
  C35. No SQL injection through the history query, and no filter lost: the statement lists one condition per filter
  that is set, in a fixed order, each comparing its column with a numbered argument; the arguments are the values of
  those filters, in that order and unchanged, and the limit, which is between 1 and 1000 whatever was asked. Two
  requests that set the same filters send the same statement.
\<close>

theorem alerts_query_parameterised:
  "\<exists>limit. 1 \<le> limit \<and> limit \<le> 1000 \<and> (1 \<le> af_Limit f \<and> af_Limit f \<le> 1000 \<longrightarrow> limit = af_Limit f) \<and>
    alerts_query f =
      (''SELECT '' @ alertColumns @ '' FROM alerts'' @
         (if filter_terms f = [] then [] else '' WHERE '' @ join '' AND '' (numbered (map fst (filter_terms f)))) @
         '' ORDER BY timestamp DESC LIMIT $'' @ show_nat (Suc (length (filter_terms f))),
       map snd (filter_terms f) @ [ArgInt limit]) \<and>
    (map fst (filter_terms g) = map fst (filter_terms f) \<longrightarrow> fst (alerts_query g) = fst (alerts_query f))"
proof -
  have eq: "alerts_query h =
      (''SELECT '' @ alertColumns @ '' FROM alerts'' @
         (if map fst (filter_terms h) = [] then [] else '' WHERE '' @ join '' AND '' (numbered (map fst (filter_terms h)))) @
         '' ORDER BY timestamp DESC LIMIT $'' @ show_nat (Suc (length (map fst (filter_terms h)))),
       map snd (filter_terms h) @ [ArgInt (clamp_limit (af_Limit h))])" for h
  proof -
    have "(numbered ps \<noteq> []) = (ps \<noteq> [])" for ps using numbered_length [of ps] by (metis length_0_conv)
    then show ?thesis by (simp add: alerts_query_def query_conds conds_of_def)
  qed
  have "fst (alerts_query g) = fst (alerts_query f)" if "map fst (filter_terms g) = map fst (filter_terms f)"
    unfolding eq that by simp
  with clamp_limit_range [of "af_Limit f"] eq [of f] show ?thesis
    by (intro exI [of _ "clamp_limit (af_Limit f)"]) (auto simp: clamp_limit_def maxAlertLimit_def Let_def)
qed

definition no_filter :: alert_filter where
  "no_filter = \<lparr>af_Severity = [], af_Scope = [], af_Container = [], af_RuleID = [], af_Since = 0, af_Limit = 0\<rparr>"

text \<open>At work: a rule id with a quote in it is an argument like any other, and two filters keep their values apart.\<close>

theorem alerts_query_parameterised_witness:
  "\<exists>limit. limit \<le> 1000 \<and>
    snd (alerts_query (no_filter\<lparr>af_RuleID := quote @ ''; DROP TABLE alerts'', af_Scope := ''host'', af_Limit := 10 ^ 9\<rparr>)) =
      [ArgText ''host'', ArgText (quote @ ''; DROP TABLE alerts''), ArgInt limit]"
proof -
  let ?f = "no_filter\<lparr>af_RuleID := quote @ ''; DROP TABLE alerts'', af_Scope := ''host'', af_Limit := 10 ^ 9\<rparr>"
  have "map snd (filter_terms ?f) = [ArgText ''host'', ArgText (quote @ ''; DROP TABLE alerts'')]"
    by (simp add: filter_terms_def no_filter_def is_zero_time_def)
  with alerts_query_parameterised [of ?f ?f] show ?thesis by auto
qed

text \<open>
  A stored suppression acts like the one that was sent: the rule the insert stores, its texts trimmed,
  silences exactly the alerts the original does, and is inert exactly when the original is.
\<close>

theorem stored_suppression_equivalent:
  "case stored_rule (insert_args r) i at of
     None \<Rightarrow> False
   | Some r' \<Rightarrow> Match r' t = Match r t \<and> Empty r' = Empty r"
  by (simp add: stored_rule_def insert_args_def Match_def Empty_def Let_def)

end
