(* ===== verification/Api.thy ===== *)
theory Api
  imports Query GoInt
begin

text \<open>
  The REST API, \<open>internal/api/api.go\<close>: the token check, the routes, the handlers and their helpers. A handler
  takes the request, the backend and its state, and returns the new state, the response and how often the
  detector was told to reload. The backend's calls, JSON decoding, \<open>time.ParseDuration\<close> and \<open>time.Parse\<close> are
  parameters; the server's timeouts and the transport are not modelled.
\<close>

section \<open>Requests and responses\<close>

record request =
  rq_Authorization :: string
  rq_Query :: "string \<Rightarrow> string"
  rq_Body :: string
  rq_Id :: string

datatype body =
    BErr string
  | BHealth string bool
  | BAlerts nat "alert list"
  | BStats stats_result
  | BSuppressions nat "supp_rule list"
  | BRule supp_rule
  | BEmpty

record response =
  rs_Status :: nat
  rs_Body :: body

definition writeErr :: "nat \<Rightarrow> string \<Rightarrow> response" where
  "writeErr status msg = \<lparr>rs_Status = status, rs_Body = BErr msg\<rparr>"

text \<open>The interface \<open>Backend\<close>, over a state of the data layer; \<open>None\<close> is an error.\<close>

record 'db backend =
  bk_QueryAlerts :: "'db \<Rightarrow> alert_filter \<Rightarrow> alert list option"
  bk_Stats :: "'db \<Rightarrow> time \<Rightarrow> stats_result option"
  bk_ListSuppressions :: "'db \<Rightarrow> supp_rule list option"
  bk_AddSuppression :: "'db \<Rightarrow> supp_rule \<Rightarrow> 'db \<times> supp_rule option"
  bk_DeleteSuppression :: "'db \<Rightarrow> string \<Rightarrow> 'db \<times> bool option"

record 'db server =
  sv_addr :: string
  sv_token :: string
  sv_version :: string
  sv_backend :: "'db backend option"
  sv_onChange :: bool

record lib =
  lib_now :: time
  lib_ParseDuration :: "string \<Rightarrow> duration option"
  lib_ParseRFC3339 :: "string \<Rightarrow> time option"
  lib_DecodeRule :: "string \<Rightarrow> bool \<Rightarrow> supp_rule option"

definition maxBodyBytes :: nat where "maxBodyBytes = 64 * 2 ^ 10"
definition defaultStatsRange :: duration where "defaultStatsRange = 24 * 3600 * 1000000000"

text \<open>\<open>net.JoinHostPort\<close>: a host with a colon is bracketed.\<close>

definition join_host_port :: "string \<Rightarrow> string \<Rightarrow> string" where
  "join_host_port host port = (if CHR '':'' \<in> set host then ''['' @ host @ '']:'' @ port else host @ '':'' @ port)"

definition api_New :: "config \<Rightarrow> 'db backend option \<Rightarrow> string \<Rightarrow> bool \<Rightarrow> 'db server" where
  "api_New cfg bk version onChange =
     \<lparr>sv_addr = join_host_port (cfg_APIBindAddr cfg) (show_int (cfg_APIPort cfg)), sv_token = cfg_APIToken cfg,
      sv_version = version, sv_backend = bk, sv_onChange = onChange\<rparr>"

section \<open>Helpers\<close>

definition validScope :: "string \<Rightarrow> bool" where
  "validScope s \<longleftrightarrow> s = [] \<or> s = ScopeHostName \<or> s = ScopeContainerName"

definition parseSince :: "lib \<Rightarrow> string \<Rightarrow> time option" where
  "parseSince l s0 =
     (let s = trim_space s0 in
      if s = [] then Some 0
      else (case lib_ParseDuration l s of
              Some d \<Rightarrow> Some (lib_now l + wrap64 (- d))
            | None \<Rightarrow> (case lib_ParseRFC3339 l s of Some t \<Rightarrow> Some t | None \<Rightarrow> None)))"

definition since_error :: string where
  "since_error = ''invalid '' @ quote @ ''since'' @ quote @ '': use a duration like 24h or an RFC3339 timestamp''"

definition scope_error :: string where
  "scope_error = ''scope must be '' @ quote @ ''host'' @ quote @ '' or '' @ quote @ ''container'' @ quote"

definition notifyChange :: "'db server \<Rightarrow> nat" where
  "notifyChange s = (if sv_onChange s then 1 else 0)"

type_synonym 'db outcome = "'db \<times> response \<times> nat"

definition no_backend :: "'db \<Rightarrow> 'db outcome" where
  "no_backend db = (db, writeErr 503 ''alert storage is disabled (set KW_DB_ENABLED=true to use this endpoint)'', 0)"

section \<open>Handlers\<close>

type_synonym 'db handler = "lib \<Rightarrow> 'db server \<Rightarrow> request \<Rightarrow> 'db \<Rightarrow> 'db outcome"

definition handleHealth :: "'db handler" where
  "handleHealth l s r db =
     (db, \<lparr>rs_Status = 200, rs_Body = BHealth (sv_version s) (sv_backend s \<noteq> None)\<rparr>, 0)"

text \<open>The limit parameter: absent, malformed or negative, or a number.\<close>

definition parse_limit :: "string \<Rightarrow> int option" where
  "parse_limit v =
     (if v = [] then Some 0 else (case atoi v of None \<Rightarrow> None | Some n \<Rightarrow> if n < 0 then None else Some n))"

definition handleAlerts :: "'db handler" where
  "handleAlerts l s r db =
     (case sv_backend s of
        None \<Rightarrow> no_backend db
      | Some bk \<Rightarrow>
          (case parseSince l (rq_Query r ''since'') of
             None \<Rightarrow> (db, writeErr 400 since_error, 0)
           | Some since \<Rightarrow>
               (let sc = rq_Query r ''scope'' in
                if \<not> validScope sc then (db, writeErr 400 scope_error, 0)
                else (case parse_limit (rq_Query r ''limit'') of
                        None \<Rightarrow> (db, writeErr 400 ''limit must be a non-negative integer'', 0)
                      | Some n \<Rightarrow>
                          (case bk_QueryAlerts bk db
                              \<lparr>af_Severity = rq_Query r ''severity'', af_Scope = sc, af_Container = rq_Query r ''container'',
                               af_RuleID = rq_Query r ''rule'', af_Since = since, af_Limit = n\<rparr> of
                             None \<Rightarrow> (db, writeErr 500 ''query failed'', 0)
                           | Some as \<Rightarrow> (db, \<lparr>rs_Status = 200, rs_Body = BAlerts (length as) as\<rparr>, 0))))))"

definition handleStats :: "'db handler" where
  "handleStats l s r db =
     (case sv_backend s of
        None \<Rightarrow> no_backend db
      | Some bk \<Rightarrow>
          (case parseSince l (rq_Query r ''since'') of
             None \<Rightarrow> (db, writeErr 400 since_error, 0)
           | Some since0 \<Rightarrow>
               (let since = (if is_zero_time since0 then lib_now l - defaultStatsRange else since0) in
                case bk_Stats bk db since of
                  None \<Rightarrow> (db, writeErr 500 ''stats failed'', 0)
                | Some st \<Rightarrow> (db, \<lparr>rs_Status = 200, rs_Body = BStats st\<rparr>, 0))))"

definition handleListSuppressions :: "'db handler" where
  "handleListSuppressions l s r db =
     (case sv_backend s of
        None \<Rightarrow> no_backend db
      | Some bk \<Rightarrow>
          (case bk_ListSuppressions bk db of
             None \<Rightarrow> (db, writeErr 500 ''list failed'', 0)
           | Some rs \<Rightarrow> (db, \<lparr>rs_Status = 200, rs_Body = BSuppressions (length rs) rs\<rparr>, 0)))"

text \<open>
  The decoder is given the bytes up to the cap and whether the reader fails after them; it refuses unknown
  fields.
\<close>

definition decode_body :: "lib \<Rightarrow> string \<Rightarrow> supp_rule option" where
  "decode_body l b = lib_DecodeRule l (take maxBodyBytes b) (maxBodyBytes < length b)"

definition handleAddSuppression :: "'db handler" where
  "handleAddSuppression l s r db =
     (case sv_backend s of
        None \<Rightarrow> no_backend db
      | Some bk \<Rightarrow>
          (case decode_body l (rq_Body r) of
             None \<Rightarrow> (db, writeErr 400 ''invalid JSON body: '', 0)
           | Some rule \<Rightarrow>
               if Empty rule then (db, writeErr 400 ''at least one of rule_id, container_name, process_name, substr must be set (scope/hostname only narrow an existing rule)'', 0)
               else if \<not> validScope (s_Scope rule) then (db, writeErr 400 scope_error, 0)
               else (case bk_AddSuppression bk db (rule\<lparr>s_ID := [], s_CreatedAt := 0\<rparr>) of
                       (db', None) \<Rightarrow> (db', writeErr 500 ''create failed'', 0)
                     | (db', Some created) \<Rightarrow> (db', \<lparr>rs_Status = 201, rs_Body = BRule created\<rparr>, notifyChange s))))"

definition handleDeleteSuppression :: "'db handler" where
  "handleDeleteSuppression l s r db =
     (case sv_backend s of
        None \<Rightarrow> no_backend db
      | Some bk \<Rightarrow>
          (case bk_DeleteSuppression bk db (rq_Id r) of
             (db', None) \<Rightarrow> (db', writeErr 500 ''delete failed'', 0)
           | (db', Some False) \<Rightarrow> (db', writeErr 404 ''no suppression with that id'', 0)
           | (db', Some True) \<Rightarrow> (db', \<lparr>rs_Status = 204, rs_Body = BEmpty\<rparr>, notifyChange s)))"

section \<open>Authentication and routes\<close>

definition auth :: "'db handler \<Rightarrow> 'db handler" where
  "auth next_handler l s r db =
     (let h = rq_Authorization r in
      if \<not> has_prefix h ''Bearer '' then (db, writeErr 401 ''missing or malformed Authorization header'', 0)
      else (let got = trim_space (List.drop 7 h) in
            if sv_token s = [] \<or> got \<noteq> sv_token s then (db, writeErr 401 ''invalid token'', 0)
            else next_handler l s r db))"

datatype endpoint = GetHealth | GetAlerts | GetStats | GetSuppressions | PostSuppression | DeleteSuppressionById

fun serve :: "endpoint \<Rightarrow> 'db handler" where
  "serve GetHealth = handleHealth"
| "serve GetAlerts = auth handleAlerts"
| "serve GetStats = auth handleStats"
| "serve GetSuppressions = auth handleListSuppressions"
| "serve PostSuppression = auth handleAddSuppression"
| "serve DeleteSuppressionById = auth handleDeleteSuppression"

section \<open>Facts\<close>

definition authorised :: "'db server \<Rightarrow> request \<Rightarrow> bool" where
  "authorised s r \<longleftrightarrow> sv_token s \<noteq> [] \<and>
     (\<exists>t. rq_Authorization r = ''Bearer '' @ t \<and> trim_space t = sv_token s)"

lemma auth_authorised: "authorised s r \<Longrightarrow> auth h l s r db = h l s r db"
  by (auto simp: auth_def authorised_def has_prefix_iff Let_def)

lemma auth_unauthorised:
  "\<not> authorised s r \<Longrightarrow> \<exists>msg. auth h l s r db = (db, writeErr 401 msg, 0)"
  by (auto simp: auth_def authorised_def has_prefix_iff Let_def)

lemmas handler_defs = handleHealth_def handleAlerts_def handleStats_def handleListSuppressions_def
  no_backend_def writeErr_def

lemma reads_keep_state:
  "e \<in> {GetHealth, GetAlerts, GetStats, GetSuppressions} \<Longrightarrow> fst (serve e l s r db) = db \<and> snd (snd (serve e l s r db)) = 0"
  by (auto simp: handler_defs auth_def Let_def split: option.splits)

section \<open>Properties\<close>

text \<open>
  No data without the token: on every endpoint but the health check, a request that does not carry the
  configured, non-empty token is answered 401 with an error text, changes nothing and notifies nobody; an
  empty configured token authorises no request at all.
\<close>

theorem unauthorised_refused:
  assumes "e \<noteq> GetHealth" and "\<not> (sv_token s \<noteq> [] \<and> (\<exists>t. rq_Authorization r = ''Bearer '' @ t \<and> trim_space t = sv_token s))"
  shows "\<exists>msg. serve e l s r db = (db, \<lparr>rs_Status = 401, rs_Body = BErr msg\<rparr>, 0)"
  using assms auth_unauthorised [of s r _ l db] by (cases e) (auto simp: authorised_def writeErr_def)

definition example_server :: "unit server" where
  "example_server = \<lparr>sv_addr = [], sv_token = ''s3cret'', sv_version = ''1'', sv_backend = None, sv_onChange = True\<rparr>"

definition example_lib :: lib where
  "example_lib = \<lparr>lib_now = 0, lib_ParseDuration = (\<lambda>s. None), lib_ParseRFC3339 = (\<lambda>s. None),
     lib_DecodeRule = (\<lambda>b over. Some \<lparr>s_ID = ''spoofed'', s_RuleID = b, s_Scope = [], s_Hostname = [],
       s_ContainerName = [], s_ProcessName = [], s_Substr = [], s_Reason = [], s_CreatedBy = [], s_CreatedAt = 99\<rparr>)\<rparr>"

definition example_request :: "string \<Rightarrow> request" where
  "example_request h = \<lparr>rq_Authorization = h, rq_Query = (\<lambda>k. []), rq_Body = ''reverse_shell'', rq_Id = []\<rparr>"

theorem unauthorised_refused_witness:
  "\<exists>msg. serve GetAlerts example_lib example_server (example_request ''Bearer wrong'') () =
     ((), \<lparr>rs_Status = 401, rs_Body = BErr msg\<rparr>, 0)"
  by (rule unauthorised_refused) (simp_all add: example_server_def example_request_def trim_space_def is_space_def)

definition fit_rule :: "supp_rule \<Rightarrow> bool" where
  "fit_rule r \<longleftrightarrow> \<not> Empty r \<and> validScope (s_Scope r) \<and> s_ID r = [] \<and> s_CreatedAt r = 0"

text \<open>A backend that records what it is asked to store, with any answer.\<close>

definition recording :: "(supp_rule list \<Rightarrow> supp_rule \<Rightarrow> supp_rule option) \<Rightarrow> supp_rule list backend \<Rightarrow> supp_rule list backend" where
  "recording answer bk = bk\<lparr>bk_AddSuppression := (\<lambda>asked r. (asked @ [r], answer asked r))\<rparr>"

text \<open>
  What the backend is asked to store is fit to store, whatever the body of the request: an added rule
  has a primary criterion and a known scope, and never the id or the time of creation the client sent.
\<close>

theorem stored_rules_fit:
  assumes "list_all fit_rule asked"
  shows "list_all fit_rule (fst (serve PostSuppression l (s\<lparr>sv_backend := Some (recording answer bk)\<rparr>) r asked))"
  using assms
  by (auto simp: auth_def handleAddSuppression_def writeErr_def recording_def fit_rule_def Empty_def Let_def
      split: option.splits)

definition example_backend :: "supp_rule list backend" where
  "example_backend = \<lparr>bk_QueryAlerts = (\<lambda>db f. None), bk_Stats = (\<lambda>db t. None), bk_ListSuppressions = Some,
     bk_AddSuppression = (\<lambda>db r. (db, None)), bk_DeleteSuppression = (\<lambda>db i. (db, None))\<rparr>"

definition rules_server :: "supp_rule list server" where
  "rules_server = \<lparr>sv_addr = [], sv_token = ''s3cret'', sv_version = ''1'', sv_backend = None, sv_onChange = True\<rparr>"

theorem stored_rules_fit_witness:
  "\<exists>rule. fst (serve PostSuppression example_lib
      (rules_server\<lparr>sv_backend := Some (recording (\<lambda>db r. Some r) example_backend)\<rparr>) (example_request ''Bearer s3cret'') []) = [rule] \<and>
     s_RuleID rule = ''reverse_shell'' \<and> list_all fit_rule [rule]"
proof -
  let ?out = "fst (serve PostSuppression example_lib
      (rules_server\<lparr>sv_backend := Some (recording (\<lambda>db r. Some r) example_backend)\<rparr>) (example_request ''Bearer s3cret'') [])"
  have "list_all fit_rule ?out" by (rule stored_rules_fit) simp
  moreover have body: "decode_body example_lib (rq_Body (example_request h)) =
      lib_DecodeRule example_lib ''reverse_shell'' False" for h
    by (simp add: decode_body_def maxBodyBytes_def example_request_def)
  have "authorised (rules_server\<lparr>sv_backend := b\<rparr>) (example_request ''Bearer s3cret'')" for b
    unfolding authorised_def rules_server_def example_request_def
    by (intro conjI exI [of _ "''s3cret''"]) (simp_all add: trim_space_def is_space_def)
  from auth_authorised [OF this] have "map s_RuleID ?out = [''reverse_shell'']"
    by (simp add: handleAddSuppression_def body recording_def)
      (simp add: example_lib_def Empty_def validScope_def trim_space_def is_space_def)
  then obtain rule where "?out = [rule]" "s_RuleID rule = ''reverse_shell''" by (auto simp: map_eq_Cons_conv)
  ultimately show ?thesis by simp
qed

text \<open>
  The detector is told to reload exactly when a rule was stored or deleted: a request notifies once when
  it is answered 201 or 204 and the server has someone to notify, and otherwise not; and the endpoints that
  read leave the data as it is.
\<close>

theorem reload_iff_changed:
  "snd (snd (serve e l s r db)) =
     (if rs_Status (fst (snd (serve e l s r db))) \<in> {201, 204} \<and> sv_onChange s then 1 else 0) \<and>
   (e = PostSuppression \<or> e = DeleteSuppressionById \<or> fst (serve e l s r db) = db)"
  by (cases e)
     (auto simp: handler_defs auth_def handleAddSuppression_def handleDeleteSuppression_def notifyChange_def Let_def
       split: option.splits prod.splits bool.splits)

end
