(* ===== verification/Routes.thy ===== *)
theory Routes
  imports Api
begin

text \<open>
  The routes of the REST API: the patterns \<open>New\<close> of \<open>internal/api/api.go\<close> registers, as texts, and the
  request multiplexer of Go 1.22 that matches them: cleaning of the path, segments with their percent escapes,
  wildcards, \<open>HEAD\<close> under \<open>GET\<close>, and the answers 301, 404 and 405. The server's transport, which gives the
  escaped path of a request, is not modelled.
\<close>

section \<open>Patterns\<close>

datatype segment = Lit string | Wild

text \<open>A pattern is a method, a space and a path whose segments in braces are wildcards.\<close>

definition parse_segment :: "string \<Rightarrow> segment" where
  "parse_segment w = (if w \<noteq> [] \<and> hd w = CHR ''{'' \<and> List.last w = CHR ''}'' then Wild else Lit w)"

definition parse_pattern :: "string \<Rightarrow> string \<times> segment list" where
  "parse_pattern p =
     (let m = takeWhile (\<lambda>c. c \<noteq> CHR '' '') p; path = List.drop (length m + 1) p
      in (m, map parse_segment (tl (split_byte CHR ''/'' path))))"

definition patterns :: "(string \<times> endpoint) list" where
  "patterns =
     [(''GET /healthz'', GetHealth), (''GET /api/v1/alerts'', GetAlerts), (''GET /api/v1/stats'', GetStats),
      (''GET /api/v1/suppressions'', GetSuppressions), (''POST /api/v1/suppressions'', PostSuppression),
      (''DELETE /api/v1/suppressions/{id}'', DeleteSuppressionById)]"

definition routes :: "((string \<times> segment list) \<times> endpoint) list" where
  "routes = map (\<lambda>(p, e). (parse_pattern p, e)) patterns"

section \<open>Paths\<close>

text \<open>\<open>url.PathUnescape\<close>; the multiplexer keeps a malformed segment as it is.\<close>

definition hex_value :: "char \<Rightarrow> nat option" where
  "hex_value c =
     (let n = of_char c in
      if CHR ''0'' \<le> c \<and> c \<le> CHR ''9'' then Some (n - 48)
      else if CHR ''a'' \<le> c \<and> c \<le> CHR ''f'' then Some (n - 87)
      else if CHR ''A'' \<le> c \<and> c \<le> CHR ''F'' then Some (n - 55) else None)"

fun percent_decode :: "string \<Rightarrow> string option" where
  "percent_decode [] = Some []"
| "percent_decode (c # s) =
     (if c \<noteq> CHR ''%'' then map_option (Cons c) (percent_decode s)
      else (case s of
          a # b # t \<Rightarrow>
            (case (hex_value a, hex_value b) of
               (Some x, Some y) \<Rightarrow> map_option (Cons (char_of (16 * x + y))) (percent_decode t)
             | _ \<Rightarrow> None)
        | _ \<Rightarrow> None))"

definition unescape :: "string \<Rightarrow> string" where
  "unescape s = (case percent_decode s of Some t \<Rightarrow> t | None \<Rightarrow> s)"

text \<open>\<open>path.Clean\<close> on a rooted path, and \<open>cleanPath\<close> of \<open>net/http\<close>, which keeps a final slash.\<close>

fun clean_segments :: "string list \<Rightarrow> string list \<Rightarrow> string list" where
  "clean_segments done [] = rev done"
| "clean_segments done (g # gs) =
     (if g = [] \<or> g = ''.'' then clean_segments done gs
      else if g = ''..'' then clean_segments (tl done) gs
      else clean_segments (g # done) gs)"

definition clean_path :: "string \<Rightarrow> string" where
  "clean_path p0 =
     (if p0 = [] then ''/''
      else (let p = (if hd p0 = CHR ''/'' then p0 else CHR ''/'' # p0);
                np = CHR ''/'' # join ''/'' (clean_segments [] (split_byte CHR ''/'' p))
            in if List.last p = CHR ''/'' \<and> np \<noteq> ''/'' then np @ ''/'' else np))"

text \<open>The segments of a path; the empty one after a final slash is a slash.\<close>

definition segments :: "string \<Rightarrow> string list" where
  "segments p = map (\<lambda>g. if g = [] then ''/'' else unescape g) (tl (split_byte CHR ''/'' p))"

section \<open>Matching\<close>

fun match_path :: "segment list \<Rightarrow> string list \<Rightarrow> string list option" where
  "match_path [] [] = Some []"
| "match_path (Lit l # ps) (g # gs) = (if g = l then match_path ps gs else None)"
| "match_path (Wild # ps) (g # gs) = (if g = ''/'' then None else map_option (Cons g) (match_path ps gs))"
| "match_path _ _ = None"

fun find_route :: "((string \<times> segment list) \<times> endpoint) list \<Rightarrow> string \<Rightarrow> string list \<Rightarrow> (endpoint \<times> string list) option" where
  "find_route [] m gs = None"
| "find_route (((m', ps), e) # rs) m gs =
     (if m' \<noteq> m then find_route rs m gs
      else (case match_path ps gs of Some vals \<Rightarrow> Some (e, vals) | None \<Rightarrow> find_route rs m gs))"

definition match_method :: "string \<Rightarrow> string list \<Rightarrow> (endpoint \<times> string list) option" where
  "match_method m gs =
     (case find_route routes m gs of
        Some r \<Rightarrow> Some r
      | None \<Rightarrow> if m = ''HEAD'' then find_route routes ''GET'' gs else None)"

definition matching_methods :: "string list \<Rightarrow> string list" where
  "matching_methods gs =
     concat (map (\<lambda>((m, ps), e). if match_path ps gs = None then []
       else if m = ''GET'' then [''GET'', ''HEAD''] else [m]) routes)"

datatype routed = Handler endpoint "string list" | Moved string | NotAllowed "string list" | NotFound

text \<open>\<open>findHandler\<close>: the path of a \<open>CONNECT\<close> is not cleaned.\<close>

definition route :: "string \<Rightarrow> string \<Rightarrow> routed" where
  "route m escaped =
     (let path = (if m = ''CONNECT'' then escaped else clean_path escaped)
      in if path \<noteq> escaped then Moved path
         else (case match_method m (segments path) of
             Some (e, vals) \<Rightarrow> Handler e vals
           | None \<Rightarrow>
               (let allowed = matching_methods (segments path)
                in if allowed \<noteq> [] then NotAllowed allowed else NotFound)))"

section \<open>Serving\<close>

datatype reply = Answer response | Redirected string | MethodNotAllowed "string list" | Missing

fun reply_status :: "reply \<Rightarrow> nat" where
  "reply_status (Answer resp) = rs_Status resp"
| "reply_status (Redirected p) = 301"
| "reply_status (MethodNotAllowed ms) = 405"
| "reply_status Missing = 404"

text \<open>\<open>r.PathValue\<close> of the wildcard is the value it matched.\<close>

definition ServeHTTP :: "lib \<Rightarrow> 'db server \<Rightarrow> string \<Rightarrow> string \<Rightarrow> request \<Rightarrow> 'db \<Rightarrow> 'db \<times> reply \<times> nat" where
  "ServeHTTP l s m escaped r db =
     (case route m escaped of
        Handler e vals \<Rightarrow>
          (case serve e l s (r\<lparr>rq_Id := (case vals of [] \<Rightarrow> [] | v # vs \<Rightarrow> v)\<rparr>) db of
             (db', resp, k) \<Rightarrow> (db', Answer resp, k))
      | Moved p \<Rightarrow> (db, Redirected p, 0)
      | NotAllowed ms \<Rightarrow> (db, MethodNotAllowed ms, 0)
      | NotFound \<Rightarrow> (db, Missing, 0))"

section \<open>The listener\<close>

text \<open>
  \<open>Start\<close> binds the address, so that its error is the caller's, and serves until \<open>Stop\<close> shuts the server down; a
  server that was shut down does not serve again (\<open>http.ErrServerClosed\<close>). \<open>bind\<close> is \<open>net.Listen\<close>.
\<close>

datatype listener = Unbound | Serving | ShutDown

definition api_Start :: "(string \<Rightarrow> bool) \<Rightarrow> 'db server \<Rightarrow> listener \<Rightarrow> (string, listener) res" where
  "api_Start bind s st =
     (if \<not> bind (sv_addr s) then Inl (''api listen on '' @ sv_addr s)
      else Inr (if st = ShutDown then ShutDown else Serving))"

definition api_Stop :: "listener \<Rightarrow> listener" where
  "api_Stop st = ShutDown"

text \<open>The requests of one connection after another, while the server serves; the notifications add up.\<close>

fun serve_all :: "lib \<Rightarrow> 'db server \<Rightarrow> listener \<Rightarrow> (string \<times> string \<times> request) list \<Rightarrow> 'db \<Rightarrow> 'db \<times> reply list \<times> nat" where
  "serve_all l s st [] db = (db, [], 0)"
| "serve_all l s st ((m, escaped, r) # rs) db =
     (if st \<noteq> Serving then (db, [], 0)
      else (case ServeHTTP l s m escaped r db of
          (db1, reply, j) \<Rightarrow>
            (case serve_all l s st rs db1 of (db2, replies, k) \<Rightarrow> (db2, reply # replies, j + k))))"

section \<open>Facts\<close>

lemma routes_parsed:
  "routes =
    [((''GET'', [Lit ''healthz'']), GetHealth), ((''GET'', [Lit ''api'', Lit ''v1'', Lit ''alerts'']), GetAlerts),
     ((''GET'', [Lit ''api'', Lit ''v1'', Lit ''stats'']), GetStats),
     ((''GET'', [Lit ''api'', Lit ''v1'', Lit ''suppressions'']), GetSuppressions),
     ((''POST'', [Lit ''api'', Lit ''v1'', Lit ''suppressions'']), PostSuppression),
     ((''DELETE'', [Lit ''api'', Lit ''v1'', Lit ''suppressions'', Wild]), DeleteSuppressionById)]"
  by code_simp

lemma match_path_iff [simp]:
  "match_path [] gs = Some vals \<longleftrightarrow> gs = [] \<and> vals = []"
  "match_path (Lit l # ps) gs = Some vals \<longleftrightarrow> (\<exists>hs. gs = l # hs \<and> match_path ps hs = Some vals)"
  "match_path (Wild # ps) gs = Some vals \<longleftrightarrow>
     (\<exists>v hs ws. gs = v # hs \<and> v \<noteq> ''/'' \<and> vals = v # ws \<and> match_path ps hs = Some ws)"
  by (cases gs; auto)+

lemma find_route_sound:
  "find_route rs m gs = Some (e, vals) \<Longrightarrow> \<exists>ps. ((m, ps), e) \<in> set rs \<and> match_path ps gs = Some vals"
proof (induction rs m gs rule: find_route.induct)
  case (2 m' ps e' rs m gs)
  then show ?case by (cases "m' = m"; cases "match_path ps gs") auto
qed simp

text \<open>The table of routes: each endpoint is reached by its own method and path, and by nothing else.\<close>

definition routed_to :: "string \<Rightarrow> string list \<Rightarrow> endpoint \<Rightarrow> string list \<Rightarrow> bool" where
  "routed_to m gs e vals \<longleftrightarrow>
     (case e of
        GetHealth \<Rightarrow> m = ''GET'' \<and> gs = [''healthz''] \<and> vals = []
      | GetAlerts \<Rightarrow> m = ''GET'' \<and> gs = [''api'', ''v1'', ''alerts''] \<and> vals = []
      | GetStats \<Rightarrow> m = ''GET'' \<and> gs = [''api'', ''v1'', ''stats''] \<and> vals = []
      | GetSuppressions \<Rightarrow> m = ''GET'' \<and> gs = [''api'', ''v1'', ''suppressions''] \<and> vals = []
      | PostSuppression \<Rightarrow> m = ''POST'' \<and> gs = [''api'', ''v1'', ''suppressions''] \<and> vals = []
      | DeleteSuppressionById \<Rightarrow>
          m = ''DELETE'' \<and> (\<exists>i. gs = [''api'', ''v1'', ''suppressions'', i] \<and> i \<noteq> ''/'' \<and> vals = [i]))"

lemma find_routes: "find_route routes m gs = Some (e, vals) \<longleftrightarrow> routed_to m gs e vals"
proof
  assume "find_route routes m gs = Some (e, vals)"
  then obtain ps where "((m, ps), e) \<in> set routes" "match_path ps gs = Some vals" using find_route_sound by blast
  then show "routed_to m gs e vals"
    unfolding routes_parsed list.set insert_iff empty_iff by (elim disjE) (clarsimp simp: routed_to_def)+
next
  assume "routed_to m gs e vals"
  then show "find_route routes m gs = Some (e, vals)"
    by (cases e) (clarsimp simp: routed_to_def routes_parsed)+
qed

lemma match_method_iff:
  "match_method m gs = Some (e, vals) \<longleftrightarrow> routed_to (if m = ''HEAD'' then ''GET'' else m) gs e vals"
proof (cases "m = ''HEAD''")
  case True
  have "find_route routes ''HEAD'' gs = None"
    by (simp add: routes_parsed)
  with True show ?thesis by (simp add: match_method_def find_routes)
next
  case False
  then show ?thesis
    by (cases "find_route routes m gs") (simp_all add: match_method_def flip: find_routes)
qed

lemma route_Handler:
  "route m p = Handler e vals \<longleftrightarrow>
   clean_path p = p \<and> routed_to (if m = ''HEAD'' then ''GET'' else m) (segments p) e vals"
proof (cases "m = ''CONNECT''")
  case True
  have no: "\<not> routed_to ''CONNECT'' gs e vals" for gs e vals by (cases e) (simp_all add: routed_to_def)
  have "match_method m (segments p) \<noteq> Some (e', vals')" for e' vals'
    using True no by (simp add: match_method_iff)
  then have "match_method m (segments p) = None" by (metis not_None_eq surj_pair)
  with True no show ?thesis by (simp add: route_def Let_def)
next
  case False
  show ?thesis
  proof (cases "clean_path p = p")
    case True
    with False show ?thesis
      unfolding match_method_iff [symmetric]
      by (cases "match_method m (segments p)") (simp_all add: route_def Let_def case_prod_beta prod_eq_iff)
  next
    case clean: False
    with False show ?thesis by (simp add: route_def Let_def)
  qed
qed

text \<open>Requests of each kind, and paths that are not the canonical ones.\<close>

lemma route_examples:
  "route ''HEAD'' ''/healthz'' = Handler GetHealth []"
  "route ''GET'' ''/api/v1/al%65rts'' = Handler GetAlerts []"
  "route ''DELETE'' ''/api/v1/suppressions/a%2Fb'' = Handler DeleteSuppressionById [''a/b'']"
  "route ''GET'' ''/api//v1/./x/../stats'' = Moved ''/api/v1/stats''"
  "route ''GET'' ''/api/v1/stats/'' = NotFound"
  "route ''PUT'' ''/api/v1/suppressions'' = NotAllowed [''GET'', ''HEAD'', ''POST'']"
  "route ''DELETE'' ''/api/v1/suppressions/'' = NotFound"
  by code_simp+

section \<open>Properties\<close>

text \<open>
  No request without the token reads or changes anything, whatever its method, path and body: one that does not
  carry the configured, non-empty token leaves the data as it is, notifies nobody, and is answered 301, 401, 404 or
  405, unless it is a \<open>GET\<close> or \<open>HEAD\<close> of \<open>/healthz\<close>, which answers the version and whether there is a database.
\<close>

theorem unauthorised_requests_refused:
  assumes "\<not> (sv_token s \<noteq> [] \<and> (\<exists>t. rq_Authorization r = ''Bearer '' @ t \<and> trim_space t = sv_token s))"
  shows "case ServeHTTP l s m escaped r db of (db', reply, k) \<Rightarrow>
    db' = db \<and> k = 0 \<and>
    (reply_status reply \<in> {301, 401, 404, 405} \<or>
     m \<in> {''GET'', ''HEAD''} \<and> segments escaped = [''healthz''] \<and>
       reply = Answer \<lparr>rs_Status = 200, rs_Body = BHealth (sv_version s) (sv_backend s \<noteq> None)\<rparr>)"
proof (cases "route m escaped")
  case (Handler e vals)
  let ?r = "r\<lparr>rq_Id := (case vals of [] \<Rightarrow> [] | v # vs \<Rightarrow> v)\<rparr>"
  show ?thesis
  proof (cases "e = GetHealth")
    case True
    with Handler route_Handler [of m escaped e vals] show ?thesis
      by (auto simp: ServeHTTP_def handleHealth_def routed_to_def split: if_splits)
  next
    case False
    have "\<not> authorised s ?r" using assms by (simp add: authorised_def)
    with False auth_unauthorised [of s ?r _ l db] have "\<exists>msg. serve e l s ?r db = (db, writeErr 401 msg, 0)"
      by (cases e) auto
    with Handler show ?thesis by (auto simp: ServeHTTP_def writeErr_def)
  qed
qed (simp_all add: ServeHTTP_def)

theorem unauthorised_requests_refused_witness:
  "reply_status (fst (snd (ServeHTTP example_lib example_server ''DELETE'' ''/api/v1/suppressions/1''
     (example_request ''Bearer wrong'') ()))) = 401"
proof -
  have "\<not> (sv_token example_server \<noteq> [] \<and>
      (\<exists>t. rq_Authorization (example_request ''Bearer wrong'') = ''Bearer '' @ t \<and> trim_space t = sv_token example_server))"
    by (simp add: example_server_def example_request_def trim_space_def is_space_def)
  from unauthorised_requests_refused [OF this, where l = example_lib and m = "''DELETE''"
      and escaped = "''/api/v1/suppressions/1''" and db = "()"]
  have "reply_status (fst (snd (ServeHTTP example_lib example_server ''DELETE'' ''/api/v1/suppressions/1''
      (example_request ''Bearer wrong'') ()))) \<in> {301, 401, 404, 405}"
    by (auto simp: case_prod_beta)
  moreover have "route ''DELETE'' ''/api/v1/suppressions/1'' = Handler DeleteSuppressionById [''1'']" by code_simp
  ultimately show ?thesis
    by (auto simp: ServeHTTP_def auth_def example_server_def example_request_def trim_space_def is_space_def writeErr_def)
qed

text \<open>
  C29. Clients without the token cannot get in by trying: no sequence of requests, none of which carries the
  configured, non-empty token, changes the data or notifies anybody; each that is served at all is answered 301, 401,
  404 or 405, or is the health check, which tells the version and whether there is a database, and nothing else.
\<close>

theorem unauthorised_clients_refused:
  assumes "\<And>m p r. (m, p, r) \<in> set rs \<Longrightarrow>
    \<not> (sv_token s \<noteq> [] \<and> (\<exists>t. rq_Authorization r = ''Bearer '' @ t \<and> trim_space t = sv_token s))"
  shows "case serve_all l s st rs db of (db', replies, k) \<Rightarrow>
    db' = db \<and> k = 0 \<and> length replies = (if st = Serving then length rs else 0) \<and>
    list_all (\<lambda>reply. reply_status reply \<in> {301, 401, 404, 405} \<or>
      reply = Answer \<lparr>rs_Status = 200, rs_Body = BHealth (sv_version s) (sv_backend s \<noteq> None)\<rparr>) replies"
  using assms
proof (induction rs)
  case (Cons x rs)
  obtain m p r where x: "x = (m, p, r)" by (metis prod_cases3)
  obtain db1 reply j where one: "ServeHTTP l s m p r db = (db1, reply, j)" by (metis prod_cases3)
  obtain db2 replies k where rest: "serve_all l s st rs db = (db2, replies, k)" by (metis prod_cases3)
  have "\<not> (sv_token s \<noteq> [] \<and> (\<exists>t. rq_Authorization r = ''Bearer '' @ t \<and> trim_space t = sv_token s))"
    using Cons.prems [of m p r] by (simp add: x)
  note first = unauthorised_requests_refused [OF this, where l = l and m = m and escaped = p and db = db, unfolded one prod.case]
  moreover note Cons.IH [OF Cons.prems, OF list.set_intros(2), unfolded rest prod.case]
  ultimately show ?case using rest one by (cases "st = Serving") (auto simp: x)
qed simp

theorem unauthorised_clients_refused_witness:
  "\<exists>replies. serve_all example_lib example_server Serving
      [(''DELETE'', ''/api/v1/suppressions/1'', example_request ''Bearer wrong''),
       (''GET'', ''/healthz'', example_request ''Bearer wrong'')] () = ((), replies, 0) \<and> length replies = 2"
proof -
  let ?rs = "[(''DELETE'', ''/api/v1/suppressions/1'', example_request ''Bearer wrong''),
    (''GET'', ''/healthz'', example_request ''Bearer wrong'')]"
  have "\<not> (sv_token example_server \<noteq> [] \<and>
      (\<exists>t. rq_Authorization r = ''Bearer '' @ t \<and> trim_space t = sv_token example_server))"
    if "(m, p, r) \<in> set ?rs" for m p r
    using that by (auto simp: example_server_def example_request_def trim_space_def is_space_def)
  note refused = unauthorised_clients_refused [of ?rs, OF this, where l = example_lib and st = Serving and db = "()"]
  obtain db' replies k where out: "serve_all example_lib example_server Serving ?rs () = (db', replies, k)"
    by (metis prod_cases3)
  show ?thesis using refused unfolding out by simp
qed

end
