(* ===== verification/Pool.thy ===== *)
theory Pool
  imports Query "HOL-Library.Monad_Syntax"
begin

text \<open>
  The connection side of \<open>internal/storage\<close>: the lazily created pool (\<open>getPool\<close>, \<open>close\<close>), \<open>ensureSchema\<close> and
  \<open>insertBatch\<close> of \<open>postgres.go\<close>, with the positions in which \<open>insertBatch\<close> binds a row and \<open>queryAlerts\<close> scans
  it. What the library answers is a parameter, and so is the table: an insert is a function from the values to
  what is stored, which may reject them, and a select one from what is stored to the columns; that a column comes
  back as it was stored, up to what its type keeps, is the hypothesis \<open>table_laws\<close> of the property below.
\<close>

section \<open>Values by position\<close>

datatype sql_value =
  VText string | VTime time | VInt int | VTexts "string list" | VJson "string option"

text \<open>The arguments of \<open>batch.Queue\<close>.\<close>

definition insert_values :: "row \<Rightarrow> sql_value list" where
  "insert_values r =
     [VTime (w_Timestamp r), VText (w_ServerName r), VText (w_RuleID r), VText (w_Severity r), VText (w_Scope r),
      VText (w_ContainerID r), VText (w_ContainerName r), VText (w_ImageName r), VText (w_Syscall r), VInt (w_PID r),
      VText (w_ProcessName r), VText (w_ParentName r), VTexts (w_Ancestry r), VText (w_CmdLine r),
      VText (w_Reason r), VText (w_MitreTTP r), VText (w_MitreTactic r), VTexts (w_Tags r), VJson (w_Details r)]"

text \<open>\<open>rows.Scan\<close>: the destinations by position, with an error for a value of another type.\<close>

fun next_text :: "sql_value option list \<Rightarrow> (string \<times> sql_value option list) option" where
  "next_text (Some (VText s) # vs) = Some (s, vs)"
| "next_text _ = None"

fun next_texts :: "sql_value option list \<Rightarrow> (string list \<times> sql_value option list) option" where
  "next_texts (Some (VTexts ss) # vs) = Some (ss, vs)"
| "next_texts _ = None"

fun next_time :: "sql_value option list \<Rightarrow> (time \<times> sql_value option list) option" where
  "next_time (Some (VTime t) # vs) = Some (t, vs)"
| "next_time _ = None"

fun next_int :: "sql_value option list \<Rightarrow> (int \<times> sql_value option list) option" where
  "next_int (Some (VInt n) # vs) = Some (n, vs)"
| "next_int _ = None"

fun next_json :: "sql_value option list \<Rightarrow> (string option \<times> sql_value option list) option" where
  "next_json (Some (VJson j) # vs) = Some (j, vs)"
| "next_json _ = None"

definition scan_columns :: "sql_value option list \<Rightarrow> (string \<times> row) option" where
  "scan_columns vs0 =
     do {
       (rid, vs) \<leftarrow> next_text vs0; (ts, vs) \<leftarrow> next_time vs; (server, vs) \<leftarrow> next_text vs; (rule, vs) \<leftarrow> next_text vs;
       (sev, vs) \<leftarrow> next_text vs; (sc, vs) \<leftarrow> next_text vs; (cid, vs) \<leftarrow> next_text vs; (cname, vs) \<leftarrow> next_text vs;
       (img, vs) \<leftarrow> next_text vs; (sys, vs) \<leftarrow> next_text vs; (pid, vs) \<leftarrow> next_int vs; (pname, vs) \<leftarrow> next_text vs;
       (parent, vs) \<leftarrow> next_text vs; (anc, vs) \<leftarrow> next_texts vs; (cmd, vs) \<leftarrow> next_text vs;
       (reason, vs) \<leftarrow> next_text vs; (ttp, vs) \<leftarrow> next_text vs; (tactic, vs) \<leftarrow> next_text vs;
       (tags, vs) \<leftarrow> next_texts vs; (details, vs) \<leftarrow> next_json vs;
       (if vs \<noteq> [] then None
        else Some (rid, \<lparr>w_Timestamp = ts, w_ServerName = server, w_RuleID = rule, w_Severity = sev, w_Scope = sc,
          w_ContainerID = cid, w_ContainerName = cname, w_ImageName = img, w_Syscall = sys, w_PID = pid,
          w_ProcessName = pname, w_ParentName = parent, w_Ancestry = anc, w_CmdLine = cmd, w_Reason = reason,
          w_MitreTTP = ttp, w_MitreTactic = tactic, w_Tags = tags, w_Details = details\<rparr>))
     }"

section \<open>The pool\<close>

text \<open>
  What the library answers: whether a pool can be created, whether the server answers a ping, and whether
  the k-th statement of a call succeeds.
\<close>

record pool_env =
  pe_new :: bool
  pe_ping :: bool
  pe_exec :: "nat \<Rightarrow> bool"

record pool =
  pl_open :: bool
  pl_retention :: int

definition newPgInserter :: "int \<Rightarrow> pool" where
  "newPgInserter retentionDays = \<lparr>pl_open = False, pl_retention = retentionDays\<rparr>"

definition getPool :: "pool_env \<Rightarrow> pool \<Rightarrow> bool \<times> pool" where
  "getPool e p =
     (if pl_open p then (True, p) else if pe_new e then (True, p\<lparr>pl_open := True\<rparr>) else (False, p))"

text \<open>Statements until the first that fails; the statements sent are returned.\<close>

fun exec_all :: "(nat \<Rightarrow> bool) \<Rightarrow> nat \<Rightarrow> string list \<Rightarrow> bool \<times> string list" where
  "exec_all ok k [] = (True, [])"
| "exec_all ok k (stmt # stmts) =
     (if ok k then (let (r, sent) = exec_all ok (Suc k) stmts in (r, stmt # sent)) else (False, [stmt]))"

definition ensureSchema :: "pool_env \<Rightarrow> pool \<Rightarrow> bool \<times> string list \<times> pool" where
  "ensureSchema e p =
     (let (ok, p') = getPool e p
      in if \<not> ok then (False, [], p')
         else if \<not> pe_ping e then (False, [], p')
         else (let (r, sent) = exec_all (pe_exec e) 0 (schemaStatements (pl_retention p'))
               in (r, sent, p')))"

text \<open>The loop that reads one result per row.\<close>

fun batch_results :: "(nat \<Rightarrow> bool) \<Rightarrow> nat \<Rightarrow> row list \<Rightarrow> bool" where
  "batch_results ok k [] = True"
| "batch_results ok k (r # rs) = (if ok k then batch_results ok (Suc k) rs else False)"

definition insertBatch :: "pool_env \<Rightarrow> row list \<Rightarrow> pool \<Rightarrow> bool \<times> (string \<times> sql_value list) list \<times> pool" where
  "insertBatch e rows p =
     (let (ok, p') = getPool e p
      in if \<not> ok then (False, [], p')
         else (batch_results (pe_exec e) 0 rows, map (\<lambda>r. (insertSQL, insert_values r)) rows, p'))"

definition pool_close :: "pool \<Rightarrow> bool" where
  "pool_close p = pl_open p"

section \<open>Facts\<close>

lemma insert_columns:
  "listed (parens insertSQL) =
    [''timestamp'', ''server_name'', ''rule_id'', ''severity'', ''scope'', ''container_id'', ''container_name'',
     ''image_name'', ''syscall'', ''pid'', ''process_name'', ''parent_name'', ''ancestry'', ''cmdline'', ''reason'',
     ''mitre_ttp'', ''mitre_tactic'', ''tags'', ''details'']"
  by code_simp

lemma select_list: "listed alertColumns = ''id::text'' # listed (parens insertSQL)"
  by code_simp

lemma scan_values: "scan_columns (map Some (VText rid # insert_values r)) = Some (rid, r)"
  by (simp add: scan_columns_def insert_values_def)

section \<open>The table\<close>

text \<open>The type the schema declares for a column of the table: the second word of its line.\<close>

definition column_line :: "string \<Rightarrow> string \<times> string" where
  "column_line l =
     (first_word l, takeWhile (\<lambda>c. c \<noteq> CHR '','') (first_word (List.drop (length (first_word l)) (trim_space l))))"

definition column_type :: "string \<Rightarrow> string option" where
  "column_type = map_of (map column_line (split_byte CHR 0x0A (base_statements ! 1)))"

fun fits :: "string option \<Rightarrow> sql_value \<Rightarrow> bool" where
  "fits ty (VText s) = (ty = Some ''text'')"
| "fits ty (VTime t) = (ty = Some ''timestamptz'')"
| "fits ty (VInt n) = (ty = Some ''bigint'' \<and> - (2 ^ 63) \<le> n \<and> n < 2 ^ 63)"
| "fits ty (VTexts ss) = (ty = Some ''text[]'')"
| "fits ty (VJson j) = (ty = Some ''jsonb'')"

text \<open>
  What comes back of a stored value: a \<open>timestamptz\<close> keeps microseconds; a \<open>jsonb\<close> keeps the value of a document and
  not its text; the other types keep what they are given.
\<close>

fun comes_back :: "(string \<Rightarrow> 'd option) \<Rightarrow> sql_value \<Rightarrow> sql_value option \<Rightarrow> bool" where
  "comes_back unmarshal (VTime t) w = (\<exists>t'. w = Some (VTime t') \<and> \<bar>t' - t\<bar> < 1000)"
| "comes_back unmarshal (VJson (Some s)) w = (\<exists>s'. w = Some (VJson (Some s')) \<and> s' \<noteq> [] \<and> unmarshal s' = unmarshal s)"
| "comes_back unmarshal v w = (w = Some v)"

definition table_laws :: "(string \<Rightarrow> 'd option) \<Rightarrow> (string \<Rightarrow> sql_value list \<Rightarrow> 'st option) \<Rightarrow>
    (string \<Rightarrow> 'st \<Rightarrow> sql_value option list) \<Rightarrow> ('st \<Rightarrow> string) \<Rightarrow> bool" where
  "table_laws unmarshal ins sel rid \<longleftrightarrow>
     (\<forall>vs st. list_all2 (\<lambda>c v. fits (column_type c) v) (listed (parens insertSQL)) vs \<longrightarrow> ins insertSQL vs = Some st \<longrightarrow>
        list_all2 (\<lambda>c w. if c = ''id::text'' then w = Some (VText (rid st))
            else (case map_of (zip (listed (parens insertSQL)) vs) c of None \<Rightarrow> True | Some v \<Rightarrow> comes_back unmarshal v w))
          (listed alertColumns) (sel alertColumns st))"

text \<open>The values of a row fit the columns they are inserted into.\<close>

lemma column_types:
  "map column_type (listed (parens insertSQL)) = map Some
    [''timestamptz'', ''text'', ''text'', ''text'', ''text'', ''text'', ''text'', ''text'', ''text'', ''bigint'', ''text'',
     ''text'', ''text[]'', ''text'', ''text'', ''text'', ''text'', ''text[]'', ''jsonb'']"
  by code_simp

lemma insert_values_fit:
  assumes "- (2 ^ 63) \<le> w_PID r" and "w_PID r < 2 ^ 63"
  shows "list_all2 (\<lambda>c v. fits (column_type c) v) (listed (parens insertSQL)) (insert_values r)"
proof -
  have "list_all2 fits (map column_type (listed (parens insertSQL))) (insert_values r)"
    using assms unfolding column_types by (simp add: insert_values_def)
  then show ?thesis by (simp add: list.rel_map)
qed

text \<open>The positions of the insert and of the scan line up through the column names.\<close>

lemma columns_come_back:
  assumes laws: "table_laws unmarshal ins sel rid" and "ins insertSQL (insert_values r) = Some st"
    and "- (2 ^ 63) \<le> w_PID r" and "w_PID r < 2 ^ 63"
  shows "\<exists>t d. \<bar>t - w_Timestamp r\<bar> < 1000 \<and> comes_back unmarshal (VJson (w_Details r)) (Some (VJson d)) \<and>
    sel alertColumns st = map Some (VText (rid st) # insert_values (r\<lparr>w_Timestamp := t, w_Details := d\<rparr>))"
proof -
  have all: "list_all2 (\<lambda>c w. if c = ''id::text'' then w = Some (VText (rid st))
        else (case map_of (zip (listed (parens insertSQL)) (insert_values r)) c of None \<Rightarrow> True | Some v \<Rightarrow> comes_back unmarshal v w))
      (''id::text'' # listed (parens insertSQL)) (sel alertColumns st)"
    using laws insert_values_fit [OF assms(3,4)] assms(2) unfolding table_laws_def select_list by blast
  obtain t d where "\<bar>t - w_Timestamp r\<bar> < 1000" "comes_back unmarshal (VJson (w_Details r)) (Some (VJson d))"
    "sel alertColumns st = map Some (VText (rid st) # insert_values (r\<lparr>w_Timestamp := t, w_Details := d\<rparr>))"
    using all unfolding insert_columns insert_values_def
    by (cases "w_Details r") (auto simp: list_all2_Cons1)
  then show ?thesis by blast
qed

lemma scan_came_back:
  assumes "a_Details a \<noteq> [] \<Longrightarrow> \<exists>s. marshal (a_Details a) = Some s \<and> s \<noteq> [] \<and> unmarshal s = Some (a_Details a)"
    and "comes_back unmarshal (VJson (w_Details (toRow marshal a))) (Some (VJson d))"
  shows "scan_alert unmarshal (i, (toRow marshal a)\<lparr>w_Timestamp := t, w_Details := d\<rparr>) =
    a\<lparr>a_ID := i, a_Timestamp := t, a_Scope := scopeOrDefault a, a_KillChainPhase := [], a_RiskScore := 0\<rparr>"
proof (cases "a_Details a = []")
  case True
  with assms(2) show ?thesis
    by (simp add: scan_alert_def toRow_def scopeOrDefault_def empty_alert_def Let_def)
next
  case False
  with assms(1) obtain s where "marshal (a_Details a) = Some s" "s \<noteq> []" "unmarshal s = Some (a_Details a)" by blast
  with False assms(2) show ?thesis
    by (auto simp: scan_alert_def toRow_def scopeOrDefault_def empty_alert_def Let_def)
qed

lemma exec_all_result:
  "exec_all ok k stmts = (r, sent) \<Longrightarrow>
   (r \<longleftrightarrow> (\<forall>i < length stmts. ok (k + i))) \<and> prefix sent stmts \<and> (r \<longrightarrow> sent = stmts) \<and>
   (\<not> r \<longrightarrow> (\<exists>i. length sent = Suc i \<and> \<not> ok (k + i) \<and> (\<forall>j < i. ok (k + j))))"
proof (induction stmts arbitrary: k r sent)
  case (Cons stmt stmts)
  show ?case
  proof (cases "ok k")
    case True
    obtain sent' where s: "exec_all ok (Suc k) stmts = (r, sent')" "sent = stmt # sent'"
      using Cons.prems True by (auto split: prod.splits)
    note IH = Cons.IH [OF s(1)]
    have all: "(\<forall>i < length (stmt # stmts). ok (k + i)) \<longleftrightarrow> (\<forall>i < length stmts. ok (Suc k + i))"
      using True by (auto simp: less_Suc_eq_0_disj)
    show ?thesis
    proof (cases r)
      case True
      with IH all s(2) show ?thesis by simp
    next
      case False
      with IH obtain i where i: "length sent' = Suc i" "\<not> ok (Suc k + i)" "\<forall>j < i. ok (Suc k + j)" by blast
      have "length sent = Suc (Suc i) \<and> \<not> ok (k + Suc i) \<and> (\<forall>j < Suc i. ok (k + j))"
        using \<open>ok k\<close> i s(2) by (auto simp: less_Suc_eq_0_disj)
      moreover have "prefix sent (stmt # stmts)" using IH s(2) by simp
      ultimately show ?thesis using False IH all by blast
    qed
  next
    case False
    with Cons.prems show ?thesis by (auto intro!: exI [of _ 0])
  qed
qed simp

section \<open>Properties\<close>

text \<open>
  C34. The history gives back what was saved. Against any table that keeps what the types of its columns keep: when it
  accepts the insert of an alert, the row a query selects and scans by position is the alert again, with every text
  in its field; its time within a microsecond, its id the one of the row, its scope filled in, and without the
  kill-chain phase and risk score, which have no column. Its details must survive JSON.
\<close>

theorem saved_alert_reads_back:
  fixes ins :: "string \<Rightarrow> sql_value list \<Rightarrow> 'st option"
  assumes "table_laws unmarshal ins sel rid"
    and "ins insertSQL (insert_values (toRow marshal a)) = Some st"
    and "a_Details a \<noteq> [] \<Longrightarrow> \<exists>s. marshal (a_Details a) = Some s \<and> s \<noteq> [] \<and> unmarshal s = Some (a_Details a)"
  shows "\<exists>t. \<bar>t - a_Timestamp a\<bar> < 1000 \<and>
    map_option (scan_alert unmarshal) (scan_columns (sel alertColumns st)) =
      Some (a\<lparr>a_ID := rid st, a_Timestamp := t, a_Scope := scopeOrDefault a, a_KillChainPhase := [], a_RiskScore := 0\<rparr>)"
proof -
  have pid: "w_PID (toRow marshal a) = uint (a_PID a)" and ts: "w_Timestamp (toRow marshal a) = a_Timestamp a"
    by (simp_all add: toRow_def Let_def)
  have low: "- (2 ^ 63) \<le> w_PID (toRow marshal a)" unfolding pid by (rule order.trans [of _ 0]) simp_all
  have high: "w_PID (toRow marshal a) < 2 ^ 63" using uint_lt2p [of "a_PID a"] unfolding pid by simp
  from columns_come_back [OF assms(1,2) low high] obtain t d where
    "\<bar>t - a_Timestamp a\<bar> < 1000" "comes_back unmarshal (VJson (w_Details (toRow marshal a))) (Some (VJson d))"
    and cols: "sel alertColumns st = map Some (VText (rid st) # insert_values ((toRow marshal a)\<lparr>w_Timestamp := t, w_Details := d\<rparr>))"
    unfolding ts by blast
  with scan_came_back [where a = a and marshal = marshal and unmarshal = unmarshal and i = "rid st", OF assms(3)] show ?thesis unfolding cols scan_values by (intro exI [of _ t]) simp
qed

text \<open>A table that holds one row and cuts its times to microseconds.\<close>

fun cut_time :: "sql_value \<Rightarrow> sql_value" where
  "cut_time (VTime t) = VTime (t div 1000 * 1000)"
| "cut_time (VJson (Some [])) = VJson (Some [])"
| "cut_time v = v"

definition one_row_write :: "string \<Rightarrow> sql_value list \<Rightarrow> (string \<times> sql_value) list option" where
  "one_row_write sql vs = (if VJson (Some []) \<in> set vs then None else Some (zip (listed (parens sql)) (map cut_time vs)))"

definition one_row_read :: "string \<Rightarrow> (string \<times> sql_value) list \<Rightarrow> sql_value option list" where
  "one_row_read cols st = map (\<lambda>c. if c = ''id::text'' then Some (VText ''1'') else map_of st c) (listed cols)"

lemma cut_time_comes_back: "v \<noteq> VJson (Some []) \<Longrightarrow> comes_back unmarshal v (Some (cut_time v))"
proof (cases v)
  case (VTime t)
  have "t mod 1000 < 1000" "0 \<le> t mod 1000" by simp_all
  with VTime show ?thesis using minus_mod_eq_div_mult [of t 1000] by simp
next
  case (VJson j)
  assume "v \<noteq> VJson (Some [])"
  with VJson show ?thesis by (cases j) (simp, metis comes_back.simps(2) cut_time.simps(3,7) list.exhaust)
qed simp_all

lemma one_row_laws: "table_laws unmarshal one_row_write one_row_read (\<lambda>st. ''1'')"
proof -
  have "comes_back unmarshal v (map_of (zip ns (map cut_time vs)) c)"
    if "VJson (Some []) \<notin> set vs" "map_of (zip ns vs) c = Some v" for ns vs c v
  proof -
    have "map_of (zip ns (map cut_time vs)) c = Some (cut_time v)"
      using that(2) map_of_map [of cut_time "zip ns vs"] by (simp add: zip_map2)
    moreover have "v \<in> set vs" using that(2) by (meson map_of_SomeD set_zip_rightD)
    ultimately show ?thesis using cut_time_comes_back [of v unmarshal] that(1) by fastforce
  qed
  then show ?thesis
    by (auto simp: table_laws_def one_row_write_def one_row_read_def list.rel_map list_all2_same split: option.splits if_splits)
qed

theorem saved_alert_reads_back_witness:
  "\<exists>t. \<bar>t - 1005\<bar> < 1000 \<and> map_option (scan_alert (\<lambda>s. Some [(''file'', GStr s)]))
     (scan_columns (one_row_read alertColumns (the (one_row_write insertSQL (insert_values
       (toRow (\<lambda>d. Some ''/etc/passwd'')
         (empty_alert\<lparr>a_Timestamp := 1005, a_Details := [(''file'', GStr ''/etc/passwd'')], a_RiskScore := 7\<rparr>))))))) =
     Some (empty_alert\<lparr>a_Timestamp := t, a_Details := [(''file'', GStr ''/etc/passwd'')], a_ID := ''1'', a_Scope := ''container''\<rparr>)"
proof -
  let ?a = "empty_alert\<lparr>a_Timestamp := 1005, a_Details := [(''file'', GStr ''/etc/passwd'')], a_RiskScore := 7\<rparr>"
  let ?vs = "insert_values (toRow (\<lambda>d. Some ''/etc/passwd'') ?a)"
  have w: "one_row_write insertSQL ?vs = Some (the (one_row_write insertSQL ?vs))"
    by (simp add: one_row_write_def insert_values_def toRow_def Let_def)
  from saved_alert_reads_back [OF one_row_laws w, of "\<lambda>s. Some [(''file'', GStr s)]"]
  show ?thesis by (simp add: empty_alert_def scopeOrDefault_def ScopeContainerName_def)
qed

text \<open>
  \<open>ensureSchema\<close> reports success exactly when the pool can be had, the server answers and every statement
  succeeded, and then all statements were sent, in order; otherwise those up to the first that failed were, so a
  later retry starts from a prefix of the schema.
\<close>

theorem schema_complete:
  "case ensureSchema e p of (ok, sent, p') \<Rightarrow>
     (ok \<longleftrightarrow> (pl_open p \<or> pe_new e) \<and> pe_ping e \<and> list_all (pe_exec e) [0..<length (schemaStatements (pl_retention p))]) \<and>
     prefix sent (schemaStatements (pl_retention p)) \<and> (sent = schemaStatements (pl_retention p) \<or> \<not> ok)"
proof -
  obtain r sent where x: "exec_all (pe_exec e) 0 (schemaStatements (pl_retention p)) = (r, sent)" by fastforce
  note res = exec_all_result [OF x]
  show ?thesis
  proof (cases "(pl_open p \<or> pe_new e) \<and> pe_ping e")
    case True
    then have "ensureSchema e p = (r, sent, p\<lparr>pl_open := True\<rparr>)"
      by (auto simp: ensureSchema_def getPool_def x)
    with True res show ?thesis by (auto simp: list_all_iff)
  qed (auto simp: ensureSchema_def getPool_def Let_def)
qed

end
