(* ===== verification/RawEvents.thy ===== *)
theory RawEvents
  imports Events GoInt
begin

text \<open>
  The records of the ring buffer: \<open>struct event\<close> of \<open>ebpf/tracer.c\<close> with the layout the C rules give it,
  \<open>RawEvent\<close> of \<open>internal/collector/collector.go\<close> as \<open>binary.Read\<close> decodes it, and \<open>parseEvent\<close> with
  \<open>cstring\<close>. Bytes are characters, little-endian numbers are read and written by \<open>le_nat\<close> and \<open>le_bytes\<close>.
\<close>

section \<open>Little-endian numbers\<close>

fun le_bytes :: "nat \<Rightarrow> nat \<Rightarrow> string" where
  "le_bytes 0 n = []"
| "le_bytes (Suc k) n = char_of (n mod 256) # le_bytes k (n div 256)"

fun le_nat :: "string \<Rightarrow> nat" where
  "le_nat [] = 0"
| "le_nat (c # s) = code c + 256 * le_nat s"

lemma length_le_bytes [simp]: "length (le_bytes k n) = k"
  by (induction k arbitrary: n) auto

lemma le_nat_bytes: "n < 256 ^ k \<Longrightarrow> le_nat (le_bytes k n) = n"
proof (induction k arbitrary: n)
  case (Suc k)
  then have "n div 256 < 256 ^ k" by (simp add: less_mult_imp_div_less mult.commute)
  with Suc.IH show ?case by (simp add: code_char_of)
qed simp

section \<open>The record the kernel writes\<close>

record kernel_event =
  k_pid :: "32 word"
  k_tid :: "32 word"
  k_uid :: "32 word"
  k_event_type :: "8 word"
  k_comm :: string
  k_filename :: string
  k_dport :: "16 word"
  k_daddr :: "32 word"
  k_timestamp_ns :: "64 word"
  k_arg1 :: "64 word"
  k_arg2 :: "64 word"

text \<open>
  The C layout: each field, with its size and alignment, is placed at the next multiple of its alignment,
  and the whole is padded to the largest alignment. The padding bytes are whatever the buffer held.
\<close>

definition c_fields :: "(nat \<times> nat) list" where
  "c_fields = [(4, 4), (4, 4), (4, 4), (1, 1), (16, 1), (128, 1), (2, 2), (4, 4), (8, 8), (8, 8), (8, 8)]"

definition align_up :: "nat \<Rightarrow> nat \<Rightarrow> nat" where
  "align_up off a = (off + (a - 1)) div a * a"

fun layout_at :: "nat \<Rightarrow> (nat \<times> nat) list \<Rightarrow> (string \<times> nat) list \<Rightarrow> string" where
  "layout_at off [] fs = []"
| "layout_at off ((sz, al) # fds) [] = []"
| "layout_at off ((sz, al) # fds) ((bytes, pad) # fs) =
     le_bytes (align_up off al - off) pad @ bytes @ layout_at (align_up off al + sz) fds fs"

definition field_bytes :: "kernel_event \<Rightarrow> string list" where
  "field_bytes k =
     [le_bytes 4 (unat (k_pid k)), le_bytes 4 (unat (k_tid k)), le_bytes 4 (unat (k_uid k)),
      le_bytes 1 (unat (k_event_type k)), k_comm k, k_filename k, le_bytes 2 (unat (k_dport k)),
      le_bytes 4 (unat (k_daddr k)), le_bytes 8 (unat (k_timestamp_ns k)), le_bytes 8 (unat (k_arg1 k)),
      le_bytes 8 (unat (k_arg2 k))]"

definition kernel_record :: "(nat \<Rightarrow> nat) \<Rightarrow> kernel_event \<Rightarrow> string" where
  "kernel_record pads k = layout_at 0 c_fields (zip (field_bytes k) (map pads [0..<11]))"

definition kernel_ok :: "kernel_event \<Rightarrow> bool" where
  "kernel_ok k \<longleftrightarrow> length (k_comm k) = 16 \<and> length (k_filename k) = 128"

section \<open>The record Go reads\<close>

record raw_event =
  r_PID :: "32 word"
  r_TID :: "32 word"
  r_UID :: "32 word"
  r_EventType :: "8 word"
  r_Comm :: string
  r_Filename :: string
  r_DPort :: "16 word"
  r_DAddr :: "32 word"
  r_TimestampNS :: "64 word"
  r_Arg1 :: "64 word"
  r_Arg2 :: "64 word"

definition bytes_at :: "nat \<Rightarrow> nat \<Rightarrow> string \<Rightarrow> string" where
  "bytes_at off n bs = take n (List.drop off bs)"

text \<open>
  \<open>binary.Read\<close> takes the fields in their order without alignment, the blank ones included, and fails when
  the input is shorter than the struct.
\<close>

definition decode_raw :: "string \<Rightarrow> raw_event option" where
  "decode_raw bs =
     (if length bs < 192 then None
      else Some \<lparr>r_PID = word_of_nat (le_nat (bytes_at 0 4 bs)), r_TID = word_of_nat (le_nat (bytes_at 4 4 bs)),
        r_UID = word_of_nat (le_nat (bytes_at 8 4 bs)), r_EventType = word_of_nat (le_nat (bytes_at 12 1 bs)),
        r_Comm = bytes_at 16 16 bs, r_Filename = bytes_at 32 128 bs,
        r_DPort = word_of_nat (le_nat (bytes_at 160 2 bs)), r_DAddr = word_of_nat (le_nat (bytes_at 164 4 bs)),
        r_TimestampNS = word_of_nat (le_nat (bytes_at 168 8 bs)),
        r_Arg1 = word_of_nat (le_nat (bytes_at 176 8 bs)), r_Arg2 = word_of_nat (le_nat (bytes_at 184 8 bs))\<rparr>)"

definition cstring :: "string \<Rightarrow> string" where
  "cstring b = takeWhile (\<lambda>c. c \<noteq> CHR 0x00) b"

definition parseEvent :: "raw_event \<Rightarrow> time \<Rightarrow> event" where
  "parseEvent raw now =
     empty_event\<lparr>e_PID := r_PID raw, e_TID := r_TID raw, e_UID := r_UID raw, e_Type := r_EventType raw,
       e_ProcessName := cstring (r_Comm raw), e_Filename := cstring (r_Filename raw), e_DstPort := r_DPort raw,
       e_Timestamp := now, e_Arg1 := r_Arg1 raw, e_Arg2 := r_Arg2 raw,
       e_DstIP := (if r_DAddr raw \<noteq> 0
         then map (\<lambda>i. word_of_nat (unat (r_DAddr raw) div 256 ^ i mod 256)) [0..<4] else [])\<rparr>"

section \<open>Facts\<close>

lemma pads_index: "map f [0..<11] = [f 0, f 1, f 2, f 3, f 4, f 5, f 6, f 7, f 8, f 9, f (10 :: nat)]"
  by (simp add: upt_rec eval_nat_numeral)

lemma kernel_record_bytes:
  "kernel_record pads k =
     le_bytes 4 (unat (k_pid k)) @ le_bytes 4 (unat (k_tid k)) @ le_bytes 4 (unat (k_uid k)) @
     le_bytes 1 (unat (k_event_type k)) @ k_comm k @ k_filename k @ le_bytes 1 (pads 6) @
     le_bytes 2 (unat (k_dport k)) @ le_bytes 4 (unat (k_daddr k)) @ le_bytes 4 (pads 8) @
     le_bytes 8 (unat (k_timestamp_ns k)) @ le_bytes 8 (unat (k_arg1 k)) @ le_bytes 8 (unat (k_arg2 k))"
  by (simp add: kernel_record_def c_fields_def field_bytes_def align_up_def pads_index le_bytes.simps(1)
      del: le_bytes.simps(2))

lemma word_le_bytes:
  "word_of_nat (le_nat (le_bytes 4 (unat (a :: 32 word)))) = a"
  "word_of_nat (le_nat (le_bytes 8 (unat (b :: 64 word)))) = b"
  "word_of_nat (le_nat (le_bytes 1 (unat (c :: 8 word)))) = c"
  using unsigned_less [of a, where 'a = nat] unsigned_less [of b, where 'a = nat] unsigned_less [of c, where 'a = nat]
  by (simp_all add: le_nat_bytes)

lemma bytes_at_skip: "length a \<le> off \<Longrightarrow> bytes_at off n (a @ b) = bytes_at (off - length a) n b"
  by (simp add: bytes_at_def)

lemma bytes_at_take: "length a = n \<Longrightarrow> bytes_at 0 n (a @ b) = a"
  by (simp add: bytes_at_def)

lemma bytes_at_all: "length a = n \<Longrightarrow> bytes_at 0 n a = a"
  by (simp add: bytes_at_def)

lemmas bytes_at_simps = bytes_at_skip bytes_at_take bytes_at_all

lemma cstring_prefix: "CHR 0x00 \<notin> set s \<Longrightarrow> cstring (s @ CHR 0x00 # t) = s"
  unfolding cstring_def by (induction s) auto

lemma kernel_record_length: "kernel_ok k \<Longrightarrow> length (kernel_record pads k) = 192"
  by (simp add: kernel_record_bytes kernel_ok_def)

text \<open>Go reads the names three bytes later than the kernel wrote them.\<close>

lemma kernel_names:
  assumes "kernel_ok k"
  shows "bytes_at 16 16 (kernel_record pads k) = List.drop 3 (k_comm k) @ take 3 (k_filename k)"
    and "bytes_at 32 128 (kernel_record pads k) =
      List.drop 3 (k_filename k) @ le_bytes 1 (pads 6) @ le_bytes 2 (unat (k_dport k))"
  using assms by (simp_all add: kernel_record_bytes kernel_ok_def bytes_at_def)

lemma kernel_scalars:
  assumes "kernel_ok k"
  shows "bytes_at 0 4 (kernel_record pads k) = le_bytes 4 (unat (k_pid k))"
    "bytes_at 4 4 (kernel_record pads k) = le_bytes 4 (unat (k_tid k))"
    "bytes_at 8 4 (kernel_record pads k) = le_bytes 4 (unat (k_uid k))"
    "bytes_at 12 1 (kernel_record pads k) = le_bytes 1 (unat (k_event_type k))"
    "bytes_at 164 4 (kernel_record pads k) = le_bytes 4 (pads 8)"
    "bytes_at 168 8 (kernel_record pads k) = le_bytes 8 (unat (k_timestamp_ns k))"
    "bytes_at 176 8 (kernel_record pads k) = le_bytes 8 (unat (k_arg1 k))"
    "bytes_at 184 8 (kernel_record pads k) = le_bytes 8 (unat (k_arg2 k))"
  using assms by (simp_all add: kernel_record_bytes kernel_ok_def bytes_at_simps del: le_bytes.simps)

text \<open>The scalars survive, whatever the padding; the names move.\<close>

lemma kernel_record_decoded:
  assumes "kernel_ok k"
  shows "\<exists>raw. decode_raw (kernel_record pads k) = Some raw \<and> r_PID raw = k_pid k \<and> r_TID raw = k_tid k \<and>
    r_UID raw = k_uid k \<and> r_EventType raw = k_event_type k \<and> r_Arg1 raw = k_arg1 k \<and> r_Arg2 raw = k_arg2 k \<and>
    r_Comm raw = List.drop 3 (k_comm k) @ take 3 (k_filename k) \<and>
    r_Filename raw = List.drop 3 (k_filename k) @ le_bytes 1 (pads 6) @ le_bytes 2 (unat (k_dport k))"
  by (simp add: decode_raw_def kernel_record_length [OF assms] kernel_scalars [OF assms] kernel_names [OF assms] word_le_bytes
      del: le_bytes.simps One_nat_def)

definition c_string :: "nat \<Rightarrow> string \<Rightarrow> string \<Rightarrow> bool" where
  \<comment> \<open>a buffer of the given size that holds the text and its end mark\<close>
  "c_string n s buf \<longleftrightarrow> length buf = n \<and> CHR 0x00 \<notin> set s \<and> has_prefix buf (s @ [CHR 0x00])"

lemma cstring_late:
  assumes "c_string n s buf" and "3 \<le> length s"
  shows "cstring (List.drop 3 buf @ rest) = List.drop 3 s"
proof -
  obtain t where "buf = s @ CHR 0x00 # t" using assms(1) by (auto simp: c_string_def has_prefix_iff)
  then have "List.drop 3 buf @ rest = List.drop 3 s @ CHR 0x00 # (t @ rest)" using assms(2) by simp
  moreover have "CHR 0x00 \<notin> set (List.drop 3 s)" using assms(1) in_set_dropD by (fastforce simp: c_string_def)
  ultimately show ?thesis by (simp add: cstring_prefix)
qed

section \<open>Properties\<close>

text \<open>
  C17. The two layouts of the record do not agree: the C struct has no padding before its character arrays,
  the Go struct has three bytes. The identifiers, the type and the scalar arguments arrive, but every
  process name and file name reaches the detector without its first three bytes, so \<open>/etc/shadow\<close> is read
  as \<open>c/shadow\<close>, and the address of a connection is read from padding.
\<close>

theorem kernel_names_truncated:
  assumes "kernel_ok k" and "c_string 16 comm (k_comm k)" and "c_string 128 path (k_filename k)"
    and "3 \<le> length comm" and "3 \<le> length path"
  shows "\<exists>raw. decode_raw (kernel_record pads k) = Some raw \<and>
    (let e = parseEvent raw now in
       e_PID e = k_pid k \<and> e_TID e = k_tid k \<and> e_UID e = k_uid k \<and> e_Type e = k_event_type k \<and>
       e_Arg1 e = k_arg1 k \<and> e_Arg2 e = k_arg2 k \<and>
       e_ProcessName e = List.drop 3 comm \<and> e_Filename e = List.drop 3 path) \<and>
    r_DAddr raw = word_of_nat (le_nat (le_bytes 4 (pads 8)))"
  using cstring_late [OF assms(2,4)] cstring_late [OF assms(3,5)]
  by (simp add: decode_raw_def kernel_record_length [OF assms(1)] kernel_names [OF assms(1)]
      kernel_scalars [OF assms(1)] word_le_bytes parseEvent_def empty_event_def Let_def
      del: le_bytes.simps One_nat_def)

definition shadow_open :: kernel_event where
  "shadow_open = \<lparr>k_pid = 42, k_tid = 42, k_uid = 0, k_event_type = EventOpen,
     k_comm = ''bash'' @ replicate 12 CHR 0x00, k_filename = ''/etc/shadow'' @ replicate 117 CHR 0x00,
     k_dport = 0, k_daddr = 0, k_timestamp_ns = 5, k_arg1 = 1, k_arg2 = 0\<rparr>"

theorem kernel_names_truncated_witness:
  "\<exists>raw. decode_raw (kernel_record (\<lambda>i. 0) shadow_open) = Some raw \<and>
     e_ProcessName (parseEvent raw 0) = ''h'' \<and> e_Filename (parseEvent raw 0) = ''c/shadow''"
proof -
  have ok: "kernel_ok shadow_open" "c_string 16 ''bash'' (k_comm shadow_open)"
    "c_string 128 ''/etc/shadow'' (k_filename shadow_open)"
    by (simp_all add: kernel_ok_def c_string_def shadow_open_def eval_nat_numeral)
  have "List.drop 3 ''bash'' = ''h''" "List.drop 3 ''/etc/shadow'' = ''c/shadow''" by simp_all
  with kernel_names_truncated [OF ok, of "\<lambda>i. 0" 0] show ?thesis by (auto simp: Let_def)
qed

end
