(* ===== verification/Mapper.thy ===== *)
theory Mapper
  imports Events GoInt
begin

text \<open>
  From a process to its container, \<open>internal/container/mapper.go\<close> and \<open>docker.go\<close>: the parser of
  \<open>/proc/<pid>/cgroup\<close>, the cache \<open>Resolve\<close> fills and \<open>evictLoop\<close> prunes, and the Docker list with its
  refresh. The files of \<open>/proc\<close> are a function from paths to contents; the answer of the Docker socket is
  \<open>pe_response\<close> (\<open>None\<close> when the request fails, else the status and the body, if it can be read), \<open>pe_unmarshal\<close>
  is \<open>json.Unmarshal\<close>, and each reading of the clock is a field of the environment.
\<close>

section \<open>Strings\<close>

text \<open>\<open>strings.Index\<close>\<close>

fun str_index :: "string \<Rightarrow> string \<Rightarrow> nat option" where
  "str_index [] sub = (if sub = [] then Some 0 else None)"
| "str_index (c # s) sub =
     (if has_prefix (c # s) sub then Some 0 else map_option Suc (str_index s sub))"

definition trim_suffix :: "string \<Rightarrow> string \<Rightarrow> string" where
  "trim_suffix s suf = (if suffix suf s then take (length s - length suf) s else s)"

text \<open>\<open>strings.SplitN(s, sep, 2)[0]\<close> for a separator of one byte.\<close>

definition before :: "char \<Rightarrow> string \<Rightarrow> string" where
  "before sep s = takeWhile (\<lambda>c. c \<noteq> sep) s"

lemma str_index_lacks: "b \<in> set sub \<Longrightarrow> b \<notin> set s \<Longrightarrow> str_index s sub = None"
proof (induction s)
  case (Cons c s)
  then have "\<not> has_prefix (c # s) sub" by (metis Un_iff has_prefix_iff set_append)
  with Cons show ?case by simp
qed auto

lemma split_byte_first: "sep \<notin> set l \<Longrightarrow> split_byte sep (l @ sep # s) = l # split_byte sep s"
  by (induction l) auto

lemma update_entries: "x \<in> set (AList.update k v m) \<Longrightarrow> x = (k, v) \<or> x \<in> set m"
  by (induction m) (auto split: if_splits)

lemma delete_entries: "x \<in> set (AList.delete k m) \<Longrightarrow> x \<in> set m"
  by (simp add: AList.delete_eq)

section \<open>Container ids in cgroup files\<close>

definition hex_char :: "char \<Rightarrow> bool" where
  "hex_char c \<longleftrightarrow> (48 \<le> code c \<and> code c \<le> 57) \<or> (97 \<le> code c \<and> code c \<le> 102) \<or> (65 \<le> code c \<and> code c \<le> 70)"

definition isHex :: "string \<Rightarrow> bool" where
  "isHex s \<longleftrightarrow> list_all hex_char s"

definition id_after :: "string \<Rightarrow> string \<Rightarrow> (string \<Rightarrow> string) \<Rightarrow> string option" where
  "id_after line marker piece =
     (case str_index line marker of
        None \<Rightarrow> None
      | Some idx \<Rightarrow>
          (let i = piece (List.drop (idx + length marker) line)
           in if length i = 64 \<and> isHex i then Some i else None))"

fun scan_lines :: "string list \<Rightarrow> string" where
  "scan_lines [] = []"
| "scan_lines (l # ls) =
     (let line = trim_space l in
      if line = [] then scan_lines ls
      else (case id_after line ''/docker/'' (before CHR ''/'') of
              Some i \<Rightarrow> i
            | None \<Rightarrow>
                (case id_after line ''docker-'' (\<lambda>rest. trim_suffix (before CHR ''.'' rest) ''.scope'') of
                   Some i \<Rightarrow> i
                 | None \<Rightarrow> scan_lines ls)))"

definition extractContainerID :: "string \<Rightarrow> string" where
  "extractContainerID cgroupData = scan_lines (split_byte CHR 0x0A cgroupData)"

section \<open>The Docker list\<close>

record container_meta =
  cm_ID :: string
  cm_Name :: string
  cm_Image :: string

record docker_entry =
  de_ID :: string
  de_Names :: "string list"
  de_Image :: string

fun parse_entries :: "docker_entry list \<Rightarrow> (string \<times> container_meta) list \<Rightarrow> (string \<times> container_meta) list" where
  "parse_entries [] result = result"
| "parse_entries (c # cs) result =
     (let name = (if de_Names c \<noteq> [] then trim_prefix (hd (de_Names c)) ''/'' else []);
          meta = \<lparr>cm_ID = de_ID c, cm_Name = name, cm_Image = de_Image c\<rparr>;
          r1 = AList.update (de_ID c) meta result;
          r2 = (if 12 \<le> length (de_ID c) then AList.update (take 12 (de_ID c)) meta r1 else r1)
      in parse_entries cs r2)"

definition ParseDockerList :: "docker_entry list \<Rightarrow> (string \<times> container_meta) list" where
  "ParseDockerList cs = parse_entries cs []"

record docker =
  dk_cache :: "(string \<times> container_meta) list"
  dk_lastSync :: time
  dk_ttl :: duration

definition newDockerEnricher :: docker where
  "newDockerEnricher = \<lparr>dk_cache = [], dk_lastSync = 0, dk_ttl = 30 * 1000000000\<rparr>"

record proc_env =
  pe_files :: files
  pe_response :: "(nat \<times> string option) option"
  pe_unmarshal :: "string \<Rightarrow> docker_entry list option"
  pe_resolved :: time
  pe_since :: time
  pe_sync :: time

definition docker_get :: "proc_env \<Rightarrow> string option" where
  "docker_get e =
     (case pe_response e of
        None \<Rightarrow> None
      | Some (status, body) \<Rightarrow> if 400 \<le> status then None else body)"

definition docker_refresh :: "proc_env \<Rightarrow> docker \<Rightarrow> docker" where
  "docker_refresh e d =
     (case docker_get e of
        None \<Rightarrow> d\<lparr>dk_lastSync := pe_sync e\<rparr>
      | Some data \<Rightarrow>
          (case pe_unmarshal e data of
             None \<Rightarrow> d\<lparr>dk_lastSync := pe_sync e\<rparr>
           | Some cs \<Rightarrow> d\<lparr>dk_cache := ParseDockerList cs, dk_lastSync := pe_sync e\<rparr>))"

definition docker_lookup :: "proc_env \<Rightarrow> string \<Rightarrow> docker \<Rightarrow> docker \<times> container_meta option" where
  "docker_lookup e i d =
     (let meta = map_of (dk_cache d) i;
          fresh = time_sub (pe_since e) (dk_lastSync d) < dk_ttl d
      in if meta \<noteq> None \<and> fresh then (d, meta)
         else if \<not> fresh then (let d' = docker_refresh e d in (d', map_of (dk_cache d') i))
         else (d, meta))"

section \<open>Resolving\<close>

record mapper =
  m_cache :: "(32 word \<times> info option) list"
  m_ttl :: duration
  m_docker :: docker

definition mapper_New :: "duration \<Rightarrow> mapper" where
  "mapper_New cacheTTL = \<lparr>m_cache = [], m_ttl = cacheTTL, m_docker = newDockerEnricher\<rparr>"

definition proc_path :: "32 word \<Rightarrow> string \<Rightarrow> string" where
  "proc_path pid name = ''/proc/'' @ show_nat (unat pid) @ ''/'' @ name"

definition resolveFromProc :: "proc_env \<Rightarrow> 32 word \<Rightarrow> mapper \<Rightarrow> mapper \<times> info option" where
  "resolveFromProc e pid m =
     (case pe_files e (proc_path pid ''cgroup'') of
        None \<Rightarrow> (m, None)
      | Some data \<Rightarrow>
          (let i = extractContainerID data in
           if i = [] then (m, None)
           else (case docker_lookup e i (m_docker m) of
                   (d, meta) \<Rightarrow>
                     (let found = (case meta of Some c \<Rightarrow> cm_Name c \<noteq> [] | None \<Rightarrow> False)
                      in (m\<lparr>m_docker := d\<rparr>,
                          Some \<lparr>c_ID = i, c_ShortID = take 12 i,
                            c_Name = (if found then cm_Name (the meta) else take 12 i),
                            c_ImageName = (if found then cm_Image (the meta) else []),
                            c_ResolvedAt = pe_resolved e\<rparr>)))))"

definition Resolve :: "proc_env \<Rightarrow> 32 word \<Rightarrow> mapper \<Rightarrow> mapper \<times> info option" where
  "Resolve e pid m =
     (case map_of (m_cache m) pid of
        Some info \<Rightarrow> (m, info)
      | None \<Rightarrow>
          (case resolveFromProc e pid m of
             (m', info) \<Rightarrow> (m'\<lparr>m_cache := AList.update pid info (m_cache m')\<rparr>, info)))"

definition Invalidate :: "32 word \<Rightarrow> mapper \<Rightarrow> mapper" where
  "Invalidate pid m = m\<lparr>m_cache := AList.delete pid (m_cache m)\<rparr>"

text \<open>One tick of \<open>evictLoop\<close>.\<close>

definition evict_tick :: "time \<Rightarrow> mapper \<Rightarrow> mapper" where
  "evict_tick now m =
     m\<lparr>m_cache := filter (\<lambda>(pid, info).
         \<not> (case info of Some i \<Rightarrow> m_ttl m < time_sub now (c_ResolvedAt i) | None \<Rightarrow> False)) (m_cache m)\<rparr>"

section \<open>Facts\<close>

lemma id_after_shape: "id_after line marker piece = Some i \<Longrightarrow> length i = 64 \<and> isHex i"
  by (auto simp: id_after_def Let_def split: option.splits if_splits)

lemma scan_lines_shape: "scan_lines ls = [] \<or> length (scan_lines ls) = 64 \<and> isHex (scan_lines ls)"
  by (induction ls) (auto simp: Let_def split: option.splits dest: id_after_shape)

text \<open>The operations that change a mapper.\<close>

datatype mapper_op = OpResolve proc_env "32 word" | OpInvalidate "32 word" | OpEvict time

fun apply_op :: "mapper_op \<Rightarrow> mapper \<Rightarrow> mapper" where
  "apply_op (OpResolve e pid) m = fst (Resolve e pid m)"
| "apply_op (OpInvalidate pid) m = Invalidate pid m"
| "apply_op (OpEvict now) m = evict_tick now m"

definition apply_ops :: "mapper_op list \<Rightarrow> mapper \<Rightarrow> mapper" where
  "apply_ops ops m = fold apply_op ops m"

definition info_wf :: "info \<Rightarrow> bool" where
  "info_wf i \<longleftrightarrow> length (c_ID i) = 64 \<and> isHex (c_ID i) \<and> c_ShortID i = take 12 (c_ID i) \<and> c_Name i \<noteq> []"

definition mapper_wf :: "mapper \<Rightarrow> bool" where
  "mapper_wf m \<longleftrightarrow> distinct (map fst (m_cache m)) \<and> (\<forall>pid i. (pid, Some i) \<in> set (m_cache m) \<longrightarrow> info_wf i)"

lemma extract_shape: "extractContainerID data \<noteq> [] \<Longrightarrow> length (extractContainerID data) = 64 \<and> isHex (extractContainerID data)"
  using scan_lines_shape by (auto simp: extractContainerID_def)

lemma resolveFromProc_wf:
  "resolveFromProc e pid m = (m', info) \<Longrightarrow> m_cache m' = m_cache m \<and> m_ttl m' = m_ttl m \<and> (case info of Some i \<Rightarrow> info_wf i | None \<Rightarrow> True)"
  by (auto simp: resolveFromProc_def Let_def info_wf_def extract_shape take_eq_Nil
      split: option.splits prod.splits if_splits)

definition entry_wf :: "info option \<Rightarrow> bool" where
  "entry_wf info \<longleftrightarrow> (case info of Some i \<Rightarrow> info_wf i | None \<Rightarrow> True)"

lemma mapper_wf_entry: "mapper_wf m \<longleftrightarrow> distinct (map fst (m_cache m)) \<and> (\<forall>x \<in> set (m_cache m). entry_wf (snd x))"
  by (auto simp: mapper_wf_def entry_wf_def split: option.splits)

lemma Resolve_wf: "mapper_wf m \<Longrightarrow> mapper_wf (fst (Resolve e pid m)) \<and> entry_wf (snd (Resolve e pid m))"
proof (cases "map_of (m_cache m) pid")
  case None
  assume wf: "mapper_wf m"
  obtain m' info where r: "resolveFromProc e pid m = (m', info)" by fastforce
  with None wf resolveFromProc_wf [OF r] show ?thesis
    by (auto simp: Resolve_def mapper_wf_entry entry_wf_def distinct_update dest!: update_entries)
next
  case (Some info)
  assume "mapper_wf m"
  with Some show ?thesis
    using map_of_SomeD [OF Some] by (fastforce simp: Resolve_def mapper_wf_entry)
qed

lemma apply_op_wf: "mapper_wf m \<Longrightarrow> mapper_wf (apply_op op m)"
proof (cases op)
  case (OpResolve e pid)
  assume "mapper_wf m"
  then show ?thesis using OpResolve Resolve_wf by simp
next
  case (OpInvalidate pid)
  assume "mapper_wf m"
  then show ?thesis
    using OpInvalidate by (auto simp: Invalidate_def mapper_wf_entry distinct_delete dest!: delete_entries)
next
  case (OpEvict now)
  assume "mapper_wf m"
  then show ?thesis
    using OpEvict by (auto simp: evict_tick_def mapper_wf_entry distinct_map_filter)
qed

lemma apply_ops_wf: "mapper_wf m \<Longrightarrow> mapper_wf (apply_ops ops m)"
  by (induction ops arbitrary: m) (auto simp: apply_ops_def apply_op_wf)

lemma new_mapper_wf: "mapper_wf (mapper_New ttl)"
  by (simp add: mapper_wf_def mapper_New_def)

lemma evict_keeps_host: "map_of (m_cache m) pid = Some None \<Longrightarrow> map_of (m_cache (evict_tick now m)) pid = Some None"
proof -
  have "map_of c pid = Some None \<Longrightarrow> map_of (filter (\<lambda>(pid, info). \<not> (case info of Some i \<Rightarrow> P i | None \<Rightarrow> False)) c) pid = Some None"
    for P and c :: "(32 word \<times> info option) list"
    by (induction c) (auto split: if_splits)
  then show "map_of (m_cache m) pid = Some None \<Longrightarrow> ?thesis" by (simp add: evict_tick_def)
qed

section \<open>Properties\<close>

text \<open>
  Whatever files and Docker answers a mapper has seen, what it resolves a process to has a container id
  of 64 hexadecimal digits, the short id that begins it, and a name: a malformed cgroup line never yields
  a container.
\<close>

theorem resolved_wellformed:
  "case snd (Resolve e pid (apply_ops ops (mapper_New ttl))) of
     None \<Rightarrow> True
   | Some i \<Rightarrow> length (c_ID i) = 64 \<and> isHex (c_ID i) \<and> c_ShortID i = take 12 (c_ID i) \<and> c_Name i \<noteq> []"
  using Resolve_wf [OF apply_ops_wf [OF new_mapper_wf], THEN conjunct2]
  unfolding entry_wf_def info_wf_def .

text \<open>
  Both cgroup layouts of Docker are recognised: the v1 path and the v2 scope line give the container's id,
  for every id of 64 hexadecimal digits and whatever follows.
\<close>

theorem cgroup_formats_recognised:
  assumes "length cid = 64" and "isHex cid"
  shows "extractContainerID (''12:memory:/docker/'' @ cid @ CHR 0x0A # tail) = cid \<and>
    extractContainerID (''0::/system.slice/docker-'' @ cid @ ''.scope'' @ CHR 0x0A # tail) = cid"
proof -
  have h: "\<not> is_space c" "c \<noteq> CHR 0x0A" "c \<noteq> CHR ''/''" "c \<noteq> CHR ''.''" "c \<noteq> CHR ''-''" if "c \<in> set cid" for c
    using assms(2) that by (auto simp: isHex_def list_all_iff hex_char_def is_space_def)
  have ne: "cid \<noteq> []" using assms(1) by auto
  have nl: "CHR 0x0A \<notin> set cid" using h by blast
  let ?v1 = "''12:memory:/docker/'' @ cid" and ?v2 = "''0::/system.slice/docker-'' @ cid @ ''.scope''"
  have v1: "trim_space ?v1 = ?v1" "trim_space ?v2 = ?v2"
    using ne h(1) [OF last_in_set [OF ne]] by (simp_all add: trim_space_id is_space_def)
  have cut: "before CHR ''/'' cid = cid" "before CHR ''.'' (cid @ ''.scope'') = cid"
    using h by (auto simp: before_def takeWhile_eq_all_conv)
  have "\<not> suffix ''.scope'' cid"
  proof
    assume "suffix ''.scope'' cid"
    then have "CHR ''.'' \<in> set cid" by (auto simp: suffix_def)
    with h(4) show False by blast
  qed
  note cut = cut this
  have "id_after ?v1 ''/docker/'' (before CHR ''/'') = Some cid"
    using assms cut by (simp add: id_after_def)
  moreover have "str_index (cid @ ''.scope'') ''/docker/'' = None"
    using h by (intro str_index_lacks [of "CHR ''/''"]) auto
  then have "id_after ?v2 ''/docker/'' (before CHR ''/'') = None" by (simp add: id_after_def)
  moreover have "id_after ?v2 ''docker-'' (\<lambda>rest. trim_suffix (before CHR ''.'' rest) ''.scope'') = Some cid"
    using assms cut by (simp add: id_after_def trim_suffix_def)
  moreover have "split_byte CHR 0x0A (?v1 @ CHR 0x0A # tail) = ?v1 # split_byte CHR 0x0A tail"
    "split_byte CHR 0x0A (?v2 @ CHR 0x0A # tail) = ?v2 # split_byte CHR 0x0A tail"
    using nl by (intro split_byte_first; simp)+
  ultimately show ?thesis
    using v1 by (simp add: extractContainerID_def)
qed

text \<open>
  A process once seen on the host stays on the host: after a resolution without a container, no further
  resolution and no tick of the eviction loop changes the answer for that process id, so a container process
  that is later given the id is taken for a host process.
\<close>

theorem host_entry_sticks:
  assumes "map_of (m_cache m) pid = Some None" and "OpInvalidate pid \<notin> set ops"
  shows "snd (Resolve e pid (apply_ops ops m)) = None"
proof -
  have "map_of (m_cache (apply_ops ops m)) pid = Some None"
    using assms
  proof (induction ops arbitrary: m)
    case (Cons op ops)
    have "map_of (m_cache (apply_op op m)) pid = Some None"
    proof (cases op)
      case (OpResolve e' pid')
      obtain m' info where r: "resolveFromProc e' pid' m = (m', info)" by fastforce
      with Cons.prems(1) OpResolve show ?thesis
        using resolveFromProc_wf [OF r] by (auto simp: Resolve_def map_of_update_apply split: option.splits)
    next
      case (OpInvalidate pid')
      with Cons.prems show ?thesis by (auto simp: Invalidate_def map_of_delete_apply)
    next
      case (OpEvict now)
      with Cons.prems evict_keeps_host show ?thesis by simp
    qed
    with Cons show ?case by (simp add: apply_ops_def)
  qed (simp add: apply_ops_def)
  then show ?thesis by (simp add: Resolve_def)
qed

definition host_env :: proc_env where
  "host_env = \<lparr>pe_files = (\<lambda>p. if p = ''/proc/7/cgroup'' then Some (''12:memory:/docker/'' @ replicate 64 CHR ''a'') else None),
     pe_response = None, pe_unmarshal = (\<lambda>_. None), pe_resolved = 1, pe_since = 1, pe_sync = 1\<rparr>"

theorem host_entry_sticks_witness:
  "snd (Resolve host_env 7 (apply_ops [OpEvict (10 ^ 15), OpResolve host_env 7]
     ((mapper_New 300000000000)\<lparr>m_cache := [(7, None)]\<rparr>))) = None"
  by (rule host_entry_sticks) simp_all

theorem cgroup_formats_recognised_witness:
  "extractContainerID (''12:memory:/docker/'' @ replicate 64 CHR ''a'' @ CHR 0x0A # []) = replicate 64 CHR ''a''"
  using cgroup_formats_recognised [of "replicate 64 CHR ''a''" "[]"] by (simp add: isHex_def hex_char_def list_all_iff)

end
