(* ===== verification/Lineage.thy ===== *)
theory Lineage
  imports Mapper
begin

text \<open>
  Process ancestry, \<open>internal/container/parent.go\<close>: \<open>parentPID\<close> reads \<open>/proc/<pid>/stat\<close>, \<open>procComm\<close>
  reads \<open>/proc/<pid>/comm\<close>, and \<open>ResolveAncestry\<close> follows the parents up to a depth. The bound of the
  loop is the number of steps left.
\<close>

text \<open>\<open>strings.Fields\<close>: the maximal runs of bytes that are not white space.\<close>

fun fields_from :: "string \<Rightarrow> string \<Rightarrow> string list" where
  "fields_from w [] = (if w = [] then [] else [w])"
| "fields_from w (c # s) =
     (if is_space c then (if w = [] then fields_from [] s else w # fields_from [] s)
      else fields_from (w @ [c]) s)"

definition Fields :: "string \<Rightarrow> string list" where
  "Fields s = fields_from [] s"

text \<open>\<open>strconv.ParseUint(s, 10, 32)\<close>: digits only, within 32 bits.\<close>

definition parse_uint32 :: "string \<Rightarrow> 32 word option" where
  "parse_uint32 s =
     (if s = [] \<or> \<not> list_all is_digit s then None
      else (let n = nat_of_digits 0 s in if n < 2 ^ 32 then Some (word_of_nat n) else None))"

definition parentPID :: "files \<Rightarrow> 32 word \<Rightarrow> 32 word option" where
  "parentPID fs pid =
     (case fs (proc_path pid ''stat'') of
        None \<Rightarrow> None
      | Some s \<Rightarrow>
          (case last_index_byte s CHR '')'' of
             None \<Rightarrow> None
           | Some rparen \<Rightarrow>
               if length s \<le> rparen + 1 then None
               else (let fields = Fields (List.drop (rparen + 1) s)
                     in if length fields < 2 then None else parse_uint32 (fields ! 1))))"

definition procComm :: "files \<Rightarrow> 32 word \<Rightarrow> string" where
  "procComm fs pid = (case fs (proc_path pid ''comm'') of None \<Rightarrow> [] | Some d \<Rightarrow> trim_space d)"

fun ancestry_loop :: "files \<Rightarrow> nat \<Rightarrow> 32 word \<Rightarrow> string list" where
  "ancestry_loop fs 0 cur = []"
| "ancestry_loop fs (Suc i) cur =
     (case parentPID fs cur of
        None \<Rightarrow> []
      | Some ppid \<Rightarrow>
          if ppid = 0 then []
          else (let comm = procComm fs ppid; here = (if comm \<noteq> [] then [comm] else [])
                in if ppid \<le> 1 then here else here @ ancestry_loop fs i ppid))"

definition ResolveAncestry :: "files \<Rightarrow> 32 word \<Rightarrow> int \<Rightarrow> string list" where
  "ResolveAncestry fs pid maxDepth =
     ancestry_loop fs (nat (if maxDepth \<le> 0 then 5 else maxDepth)) pid"

section \<open>Facts\<close>

lemma last_index_byte_append:
  "b \<notin> set t \<Longrightarrow> last_index_byte (s @ b # t) b = Some (length s)"
  by (induction s) (simp_all add: last_index_byte_None [THEN iffD2])

lemma fields_word:
  "list_all (\<lambda>c. \<not> is_space c) w \<Longrightarrow> fields_from u (w @ s) = fields_from (u @ w) s"
  by (induction w arbitrary: u) auto

lemma fields_word_space:
  "list_all (\<lambda>c. \<not> is_space c) w \<Longrightarrow> w \<noteq> [] \<Longrightarrow> is_space c \<Longrightarrow> fields_from [] (w @ c # s) = w # fields_from [] s"
  by (simp add: fields_word)

lemma digits_no_space: "is_digit c \<Longrightarrow> \<not> is_space c"
  by (auto simp: is_digit_def is_space_def)

lemma parse_uint32_show: "parse_uint32 (show_nat (unat (w :: 32 word))) = Some w"
  using unsigned_less [of w, where 'a = nat] show_nat_digits
  by (auto simp: parse_uint32_def nat_of_digits_show_nat list_all_iff Let_def)

lemma ancestry_loop_length: "length (ancestry_loop fs n cur) \<le> n"
  by (induction n arbitrary: cur) (auto simp: Let_def le_SucI split: option.splits)

lemma ancestry_loop_comm:
  "x \<in> set (ancestry_loop fs n cur) \<Longrightarrow> \<exists>p. x = procComm fs p \<and> x \<noteq> []"
  by (induction n arbitrary: cur) (auto simp: Let_def split: option.splits if_splits)

lemma parentPID_split:
  "fs (proc_path pid ''stat'') = Some (x @ CHR '')'' # y) \<Longrightarrow> CHR '')'' \<notin> set y \<Longrightarrow> y \<noteq> [] \<Longrightarrow>
   parentPID fs pid = (if length (Fields y) < 2 then None else parse_uint32 (Fields y ! 1))"
  by (simp add: parentPID_def last_index_byte_append Let_def)

section \<open>Properties\<close>

text \<open>
  C40. The parent of a process is read right whatever the process calls itself: for every command name, with
  parentheses, blanks, newlines or text that imitates the fields after it, the stat line gives the parent
  the kernel wrote.
\<close>

theorem parent_pid_not_spoofed:
  assumes "fs (proc_path pid ''stat'') =
      Some (show_nat (unat pid) @ '' ('' @ comm @ '') '' @ [st] @ '' '' @ show_nat (unat ppid) @ '' '' @ tail)"
    and "CHR '')'' \<notin> set tail" and "\<not> is_space st" and "st \<noteq> CHR '')''"
  shows "parentPID fs pid = Some ppid"
proof -
  let ?y = "'' '' @ [st] @ '' '' @ show_nat (unat ppid) @ '' '' @ tail"
  have digits: "list_all (\<lambda>c. \<not> is_space c) (show_nat (unat ppid))" "CHR '')'' \<notin> set (show_nat (unat ppid))"
    using show_nat_digits digits_no_space by (fastforce simp: list_all_iff is_digit_def)+
  have stat: "fs (proc_path pid ''stat'') = Some ((show_nat (unat pid) @ '' ('' @ comm) @ CHR '')'' # ?y)"
    using assms(1) by simp
  have "CHR '')'' \<notin> set ?y" using assms(2,4) digits(2) by simp
  moreover have "Fields ?y = [st] # show_nat (unat ppid) # fields_from [] tail"
    using assms(3) digits(1) fields_word_space [of "show_nat (unat ppid)" "CHR '' ''" tail]
    by (simp add: Fields_def is_space_def)
  ultimately show ?thesis
    using parentPID_split [where fs = fs and pid = pid, OF stat] by (simp add: parse_uint32_show)
qed

definition spoof_files :: files where
  "spoof_files p = (if p = ''/proc/7/stat'' then Some ''7 (x) S 1 (sshd) S 42 7 7 0'' else None)"

theorem parent_pid_not_spoofed_witness: "parentPID spoof_files 7 = Some 42"
proof (rule parent_pid_not_spoofed [of _ _ "''x) S 1 (sshd''" "CHR ''S''" _ "''7 7 0''"])
  show "spoof_files (proc_path 7 ''stat'') = Some (show_nat (unat (7 :: 32 word)) @ '' ('' @ ''x) S 1 (sshd'' @ '') '' @
      [CHR ''S''] @ '' '' @ show_nat (unat (42 :: 32 word)) @ '' '' @ ''7 7 0'')"
    by code_simp
qed (simp_all add: is_space_def)

text \<open>
  The ancestry is bounded: at most \<open>maxDepth\<close> names (five when it is not positive), each the trimmed,
  non-empty command name of some process.
\<close>

theorem ancestry_bounded:
  "int (length (ResolveAncestry fs pid depth)) \<le> (if depth \<le> 0 then 5 else depth) \<and>
   list_all (\<lambda>x. x \<noteq> [] \<and> trim_space x = x) (ResolveAncestry fs pid depth)"
  using ancestry_loop_length [of fs "nat (if depth \<le> 0 then 5 else depth)" pid] ancestry_loop_comm
  by (fastforce simp: ResolveAncestry_def procComm_def list_all_iff split: option.splits)

end
