(* ===== verification/Collector.thy ===== *)
theory Collector
  imports RawEvents Lineage Config Channel
begin

text \<open>
  The event stream, \<open>internal/collector/collector.go\<close> and \<open>hostfilter.go\<close>: the host allowlist, the noisy
  container paths, \<open>readCmdline\<close>, and one round of \<open>readLoop\<close> with the counters. The channel is the list of
  the events waiting in it, with the capacity \<open>Start\<close> gives it. The eBPF library is not modelled: a round
  takes the bytes of the record it read.
\<close>

section \<open>The host filter\<close>

record host_filter =
  hf_selfPID :: "32 word"
  hf_execExclude :: "string list"
  hf_openExtra :: "string list"

definition newHostFilter :: "32 word \<Rightarrow> config \<Rightarrow> host_filter" where
  "newHostFilter pid cfg =
     \<lparr>hf_selfPID = pid,
      hf_execExclude = filter (\<lambda>s. s \<noteq> []) (map (\<lambda>c. to_lower (trim_space c)) (cfg_HostExecExclude cfg)),
      hf_openExtra = cfg_HostOpenWatchExtra cfg\<rparr>"

definition hostOpenWatchPrefixes :: "string list" where
  "hostOpenWatchPrefixes =
     [''/etc/cron'', ''/var/spool/cron'', ''/etc/systemd/'', ''/lib/systemd/system/'', ''/usr/lib/systemd/system/'',
      ''/etc/init.d/'', ''/etc/rc.local'', ''/etc/update-motd.d/'', ''/etc/profile.d/'', ''/etc/ld.so.preload'',
      ''/etc/ld.so.conf'', ''/etc/ssh/'', ''/etc/sudoers'', ''/etc/pam.d/'', ''/etc/modules-load.d/'',
      ''/etc/passwd'', ''/etc/shadow'', ''/etc/group'', ''/etc/gshadow'', ''/root/.ssh'', ''/var/log'',
      ''/var/run/docker.sock'', ''/run/docker.sock'']"

definition hostOpenWatchSubstrings :: "string list" where
  "hostOpenWatchSubstrings =
     [''/.ssh/authorized_keys'', ''/.aws/credentials'', ''/.gcloud/credentials'', ''/.kube/config'']"

definition hf_containsAny :: "string \<Rightarrow> string list \<Rightarrow> bool" where
  "hf_containsAny s subs = list_ex (\<lambda>sub. sub \<noteq> [] \<and> contains s sub) subs"

definition HostOpenWatched :: "string \<Rightarrow> bool" where
  "HostOpenWatched path \<longleftrightarrow>
     list_ex (\<lambda>p. has_prefix path p) hostOpenWatchPrefixes \<or> hf_containsAny path hostOpenWatchSubstrings"

definition baseNameHF :: "string \<Rightarrow> string" where
  "baseNameHF path = (case last_index_byte path CHR ''/'' of Some i \<Rightarrow> List.drop (i + 1) path | None \<Rightarrow> path)"

definition keep :: "host_filter \<Rightarrow> event \<Rightarrow> bool" where
  "keep h e =
     (if e_PID e = hf_selfPID h then False
      else if e_Type e = EventOpen
        then HostOpenWatched (e_Filename e) \<or> hf_containsAny (e_Filename e) (hf_openExtra h)
      else if e_Type e = EventConnect \<or> e_Type e = EventClone then False
      else if e_Type e = EventExecve
        then \<not> (to_lower (e_ProcessName e) \<in> set (hf_execExclude h) \<or>
                to_lower (baseNameHF (e_Filename e)) \<in> set (hf_execExclude h))
      else True)"

section \<open>Enrichment\<close>

definition isNoisyPath :: "string \<Rightarrow> bool" where
  "isNoisyPath path =
     list_ex (\<lambda>p. has_prefix path p)
       [''/proc/'', ''/sys/'', ''/dev/null'', ''/dev/urandom'', ''/etc/localtime'', ''/usr/share/zoneinfo'']"

definition needsEnrichment :: "8 word \<Rightarrow> bool" where
  "needsEnrichment t \<longleftrightarrow> t = EventExecve \<or> t = EventPtrace \<or> t = EventModule \<or> t = EventBPF"

definition readCmdline :: "files \<Rightarrow> 32 word \<Rightarrow> string list \<times> string" where
  "readCmdline fs pid =
     (case fs (proc_path pid ''cmdline'') of
        None \<Rightarrow> ([], [])
      | Some data \<Rightarrow>
          if data = [] then ([], [])
          else (let args = filter (\<lambda>p. p \<noteq> []) (split_byte CHR 0x00 data) in (args, join '' '' args)))"

section \<open>The read loop\<close>

record collector =
  co_cfg :: config
  co_filter :: host_filter
  co_mapper :: mapper
  co_out :: "event list"
  co_channelDrops :: "64 word"
  co_missArgv :: "64 word"
  co_missAncestry :: "64 word"

definition channel_capacity :: nat where
  "channel_capacity = 1000"

record loop_env =
  le_proc :: proc_env
  le_now :: time
  le_ancestry :: files
  le_cmdline :: files

definition enrich :: "loop_env \<Rightarrow> event \<Rightarrow> collector \<Rightarrow> collector \<times> event" where
  "enrich le e c =
     (let anc = ResolveAncestry (le_ancestry le) (e_PID e) (cfg_AncestryDepth (co_cfg c));
          (args, cmd) = readCmdline (le_cmdline le) (e_PID e);
          c1 = (if cmd = [] then c\<lparr>co_missArgv := co_missArgv c + 1\<rparr> else c);
          c2 = (if anc = [] then c1\<lparr>co_missAncestry := co_missAncestry c1 + 1\<rparr> else c1)
      in (c2, e\<lparr>e_Ancestry := anc, e_Args := args, e_CmdLine := cmd\<rparr>))"

definition send_event :: "event \<Rightarrow> collector \<Rightarrow> collector" where
  "send_event e c =
     (if length (co_out c) < channel_capacity then c\<lparr>co_out := co_out c @ [e]\<rparr>
      else c\<lparr>co_channelDrops := co_channelDrops c + 1\<rparr>)"

interpretation chan: lossy_channel co_out co_channelDrops send_event channel_capacity
  by unfold_locales (simp_all add: send_event_def)

text \<open>The conditions under which a round stops before the enrichment.\<close>

definition skipped :: "collector \<Rightarrow> event \<Rightarrow> bool" where
  "skipped c e =
     (case e_Container e of
        None \<Rightarrow> \<not> cfg_MonitorHost (co_cfg c) \<or> \<not> keep (co_filter c) e
      | Some info \<Rightarrow> \<not> IsMonitored (co_cfg c) (c_Name info) \<or>
          e_Type e = EventOpen \<and> isNoisyPath (e_Filename e))"

definition loop_step :: "loop_env \<Rightarrow> string \<Rightarrow> collector \<Rightarrow> collector" where
  "loop_step le rawSample c =
     (case decode_raw rawSample of
        None \<Rightarrow> c
      | Some raw \<Rightarrow>
          (let e0 = parseEvent raw (le_now le);
               (m, info) = Resolve (le_proc le) (e_PID e0) (co_mapper c);
               c1 = c\<lparr>co_mapper := m\<rparr>;
               e = e0\<lparr>e_Container := info\<rparr>
           in if skipped c1 e then c1
              else (let (c2, e2) = (if needsEnrichment (e_Type e) \<or> info = None \<and> e_Type e = EventOpen
                                    then enrich le e c1 else (c1, e))
                    in send_event e2 c2)))"

text \<open>The main loop takes the oldest event out of the channel.\<close>

definition receive :: "collector \<Rightarrow> (event \<times> collector) option" where
  "receive c = (case co_out c of [] \<Rightarrow> None | e # es \<Rightarrow> Some (e, c\<lparr>co_out := es\<rparr>))"

inductive collect :: "collector \<Rightarrow> collector \<Rightarrow> bool" where
  read: "collect c (loop_step le bs c)"
| receive: "receive c = Some (e, c') \<Longrightarrow> collect c c'"

inductive_cases collectE: "collect c c'"

definition collector_New :: "config \<Rightarrow> 32 word \<Rightarrow> duration \<Rightarrow> collector" where
  "collector_New cfg pid ttl =
     \<lparr>co_cfg = cfg, co_filter = newHostFilter pid cfg, co_mapper = mapper_New ttl, co_out = [],
      co_channelDrops = 0, co_missArgv = 0, co_missAncestry = 0\<rparr>"

section \<open>Facts\<close>

text \<open>What reaches the detector.\<close>

definition deliverable :: "config \<Rightarrow> host_filter \<Rightarrow> event \<Rightarrow> bool" where
  "deliverable cfg h e =
     (case e_Container e of
        None \<Rightarrow> cfg_MonitorHost cfg \<and> keep h e
      | Some info \<Rightarrow> info_wf info \<and> IsMonitored cfg (c_Name info) \<and>
          \<not> (e_Type e = EventOpen \<and> isNoisyPath (e_Filename e)))"

definition collector_inv :: "collector \<Rightarrow> bool" where
  "collector_inv c \<longleftrightarrow> mapper_wf (co_mapper c) \<and> length (co_out c) \<le> channel_capacity \<and>
     list_all (deliverable (co_cfg c) (co_filter c)) (co_out c)"

lemma deliverable_enriched [simp]:
  "deliverable cfg h (e\<lparr>e_Ancestry := anc, e_Args := args, e_CmdLine := cmd\<rparr>) = deliverable cfg h e"
  by (cases "e_Container e") (simp_all add: deliverable_def keep_def)

lemma enrich_keeps:
  "enrich le e c = (c', e') \<Longrightarrow> co_cfg c' = co_cfg c \<and> co_filter c' = co_filter c \<and> co_mapper c' = co_mapper c \<and>
     co_out c' = co_out c \<and> deliverable cfg h e' = deliverable cfg h e"
  by (auto simp: enrich_def Let_def split: prod.splits if_splits)

lemma send_event_inv:
  "collector_inv c \<Longrightarrow> deliverable (co_cfg c) (co_filter c) e \<Longrightarrow> collector_inv (send_event e c)"
  using chan.put_bounded [of c e] chan.put_subset [of e c]
  by (auto simp: collector_inv_def list_all_iff send_event_def)

lemma not_skipped_deliverable:
  "\<not> skipped c e \<Longrightarrow> entry_wf (e_Container e) \<Longrightarrow> deliverable (co_cfg c) (co_filter c) e"
  by (auto simp: skipped_def deliverable_def entry_wf_def split: option.splits)

lemma loop_step_inv:
  assumes inv: "collector_inv c"
  shows "collector_inv (loop_step le bs c)"
proof (cases "decode_raw bs")
  case (Some raw)
  let ?e0 = "parseEvent raw (le_now le)"
  obtain m info where r: "Resolve (le_proc le) (e_PID ?e0) (co_mapper c) = (m, info)" by fastforce
  let ?c = "c\<lparr>co_mapper := m\<rparr>" and ?e = "?e0\<lparr>e_Container := info\<rparr>"
  have wf: "mapper_wf m" "entry_wf info"
    using Resolve_wf [of "co_mapper c" "le_proc le" "e_PID ?e0"] inv r by (simp_all add: collector_inv_def)
  then have c: "collector_inv ?c" using inv by (simp add: collector_inv_def)
  show ?thesis
  proof (cases "skipped ?c ?e")
    case True
    with Some r c show ?thesis by (simp add: loop_step_def Let_def)
  next
    case False
    with wf have d: "deliverable (co_cfg c) (co_filter c) ?e"
      using not_skipped_deliverable [of ?c ?e] by simp
    obtain c2 e2 where en: "(if needsEnrichment (e_Type ?e) \<or> info = None \<and> e_Type ?e = EventOpen
        then enrich le ?e ?c else (?c, ?e)) = (c2, e2)" by fastforce
    have "collector_inv c2 \<and> deliverable (co_cfg c2) (co_filter c2) e2"
      using en c d enrich_keeps [of le ?e ?c c2 e2] by (auto simp: collector_inv_def split: if_splits)
    with send_event_inv have "collector_inv (send_event e2 c2)" by blast
    moreover have "loop_step le bs c = send_event e2 c2"
      using Some r False en by (simp add: loop_step_def Let_def)
    ultimately show ?thesis by simp
  qed
qed (simp add: loop_step_def inv)

lemma collect_inv: "collect c c' \<Longrightarrow> collector_inv c \<Longrightarrow> collector_inv c'"
proof (erule collectE)
  fix e
  assume "receive c = Some (e, c')" "collector_inv c"
  then show "collector_inv c'" by (cases "co_out c") (auto simp: receive_def collector_inv_def)
qed (simp add: loop_step_inv)

lemma send_event_cfg [simp]: "co_cfg (send_event e c) = co_cfg c" "co_filter (send_event e c) = co_filter c"
  by (simp_all add: send_event_def)

lemma loop_step_cfg: "co_cfg (loop_step le bs c) = co_cfg c \<and> co_filter (loop_step le bs c) = co_filter c"
  by (auto simp: loop_step_def Let_def dest!: enrich_keeps split: option.splits prod.splits if_splits)

lemma collect_cfg: "collect c c' \<Longrightarrow> co_cfg c' = co_cfg c \<and> co_filter c' = co_filter c"
  by (erule collectE) (auto simp: loop_step_cfg receive_def split: list.splits)

lemma collect_run:
  "collect\<^sup>*\<^sup>* c c' \<Longrightarrow> collector_inv c \<Longrightarrow> collector_inv c' \<and> co_cfg c' = co_cfg c \<and> co_filter c' = co_filter c"
  by (induction rule: rtranclp_induct) (auto dest: collect_inv collect_cfg)

section \<open>Properties\<close>

text \<open>
  Only what the configuration asks for reaches the detector: in every state of the stream, each waiting
  event is a host event while the host is monitored and the filter keeps it, or an event of a well-formed,
  monitored container that does not open a noisy path; and at most 1000 wait.
\<close>

theorem delivered_events_wanted:
  assumes "collect\<^sup>*\<^sup>* (collector_New cfg pid ttl) c"
  shows "list_all (deliverable cfg (newHostFilter pid cfg)) (co_out c) \<and> length (co_out c) \<le> 1000"
  using collect_run [OF assms]
  by (auto simp: collector_inv_def collector_New_def new_mapper_wf channel_capacity_def)

text \<open>
  No event is lost without a trace: a round that reads a record which is not filtered out either puts
  one event in the channel or counts one drop, and a round never does both.
\<close>

theorem loss_is_counted:
  assumes "decode_raw bs = Some raw" and "Resolve (le_proc le) (r_PID raw) (co_mapper c) = (m, info)"
    and "\<not> skipped (c\<lparr>co_mapper := m\<rparr>) ((parseEvent raw (le_now le))\<lparr>e_Container := info\<rparr>)"
  shows "(\<exists>e. co_out (loop_step le bs c) = co_out c @ [e] \<and> e_PID e = r_PID raw \<and> e_Type e = r_EventType raw \<and>
      co_channelDrops (loop_step le bs c) = co_channelDrops c) \<or>
    channel_capacity \<le> length (co_out c) \<and> co_out (loop_step le bs c) = co_out c \<and>
      co_channelDrops (loop_step le bs c) = co_channelDrops c + 1"
proof -
  let ?c = "c\<lparr>co_mapper := m\<rparr>" and ?e = "(parseEvent raw (le_now le))\<lparr>e_Container := info\<rparr>"
  obtain c2 e2 where en: "(if needsEnrichment (e_Type ?e) \<or> info = None \<and> e_Type ?e = EventOpen
      then enrich le ?e ?c else (?c, ?e)) = (c2, e2)" by fastforce
  have "e_PID (parseEvent raw (le_now le)) = r_PID raw" by (simp add: parseEvent_def)
  then have "loop_step le bs c = send_event e2 c2"
    using assms en by (simp add: loop_step_def Let_def)
  moreover have "co_out c2 = co_out c \<and> co_channelDrops c2 = co_channelDrops c \<and> e_PID e2 = r_PID raw \<and>
      e_Type e2 = r_EventType raw"
    using en by (auto simp: enrich_def Let_def parseEvent_def split: prod.splits if_splits)
  ultimately show ?thesis using chan.put_cases [of e2 c2] by auto
qed

definition host_cfg :: config where
  "host_cfg = (load_fields (\<lambda>_. []))\<lparr>cfg_MonitorHost := True\<rparr>"

definition quiet_env :: loop_env where
  "quiet_env = \<lparr>le_proc = \<lparr>pe_files = (\<lambda>p. None), pe_response = None, pe_unmarshal = (\<lambda>_. None), pe_resolved = 1, pe_since = 1, pe_sync = 1\<rparr>,
     le_now = 1, le_ancestry = (\<lambda>p. None), le_cmdline = (\<lambda>p. None)\<rparr>"

abbreviation zero_record :: string where
  "zero_record \<equiv> replicate 192 CHR 0x00"

lemma zero_record_decoded:
  "\<exists>raw. decode_raw zero_record = Some raw \<and> r_PID raw = 0 \<and> r_EventType raw = 0"
  by (simp add: decode_raw_def bytes_at_def eval_nat_numeral)

lemma zero_event: "\<exists>e. co_out (loop_step quiet_env zero_record (collector_New host_cfg 7 1)) = [e]"
  using zero_record_decoded
  by (auto simp: loop_step_def collector_New_def mapper_New_def Resolve_def resolveFromProc_def quiet_env_def
      skipped_def host_cfg_def keep_def newHostFilter_def parseEvent_def send_event_def channel_capacity_def
      event_type_defs needsEnrichment_def Let_def)

theorem loss_is_counted_witness:
  "\<exists>e. co_out (loop_step quiet_env zero_record (collector_New host_cfg 7 1)) = [e] \<and> e_PID e = 0"
proof -
  obtain raw where raw: "decode_raw zero_record = Some raw" "r_PID raw = 0" "r_EventType raw = 0"
    using zero_record_decoded by blast
  let ?c = "collector_New host_cfg 7 1"
  have "Resolve (le_proc quiet_env) (r_PID raw) (co_mapper ?c) =
      ((mapper_New 1)\<lparr>m_cache := [(0, None)]\<rparr>, None)"
    by (simp add: raw collector_New_def mapper_New_def Resolve_def resolveFromProc_def quiet_env_def)
  from loss_is_counted [OF raw(1) this] raw show ?thesis
    by (simp add: skipped_def collector_New_def host_cfg_def keep_def newHostFilter_def parseEvent_def
        channel_capacity_def event_type_defs) blast
qed

theorem delivered_events_wanted_witness:
  "\<exists>c. collect\<^sup>*\<^sup>* (collector_New host_cfg 7 1) c \<and> co_out c \<noteq> [] \<and>
     list_all (deliverable host_cfg (newHostFilter 7 host_cfg)) (co_out c)"
proof -
  let ?c = "loop_step quiet_env zero_record (collector_New host_cfg 7 1)"
  have run: "collect\<^sup>*\<^sup>* (collector_New host_cfg 7 1) ?c" by (simp add: collect.read r_into_rtranclp)
  obtain e where "co_out ?c = [e]"
    using zero_event by blast
  with delivered_events_wanted [OF run] run show ?thesis by (intro exI [of _ ?c]) simp
qed

end
