(* ===== verification/Lifecycle.thy ===== *)
theory Lifecycle
  imports Collector
begin

text \<open>
  Starting and stopping the collector, \<open>collector.go\<close>: \<open>Start\<close> with its error paths, \<open>Stop\<close>, \<open>cleanup\<close> and \<open>Stats\<close>. The
  record \<open>lifecycle\<close> has the fields of the collector that hold handles and what the kernel holds on their
  account; whether each call of the eBPF library succeeds is a parameter. The loading of the program cannot
  be read here: a loaded specification is the size of its map \<open>events\<close>, if it has one.
\<close>

section \<open>Handles\<close>

type_synonym tracepoint = "string \<times> string"

record lifecycle =
  lf_links :: "tracepoint list"
  lf_reader :: bool
  lf_loaded :: bool
  lf_attached :: "tracepoint list"
  lf_reading :: bool
  lf_ringbuf :: "32 word option"
  lf_loop :: bool

definition idle :: lifecycle where
  "idle = \<lparr>lf_links = [], lf_reader = False, lf_loaded = False, lf_attached = [], lf_reading = False,
     lf_ringbuf = None, lf_loop = False\<rparr>"

record bpf_env =
  be_memlock :: bool
  be_spec :: "32 word option option"
  be_load :: "32 word option \<Rightarrow> bool"
  be_attach :: "tracepoint \<Rightarrow> bool"
  be_ringbuf :: bool

datatype start_err = RemoveMemlock | LoadSpec | LoadObjects | NoTracepoints | OpenRingbuf

definition tracepoints :: "tracepoint list" where
  "tracepoints =
     [(''syscalls'', ''sys_enter_execve''), (''syscalls'', ''sys_enter_openat''), (''syscalls'', ''sys_enter_connect''),
      (''syscalls'', ''sys_enter_clone''), (''syscalls'', ''sys_enter_ptrace''), (''syscalls'', ''sys_enter_init_module''),
      (''syscalls'', ''sys_enter_finit_module''), (''syscalls'', ''sys_enter_bpf'')]"

section \<open>Start and Stop\<close>

text \<open>The size of the ring buffer to load: the configured one replaces that of the specification.\<close>

definition ringbuf_size :: "config \<Rightarrow> 32 word option \<Rightarrow> 32 word option" where
  "ringbuf_size cfg events =
     (if 0 < cfg_EBPFRingbufSize cfg then map_option (\<lambda>_. word_of_int (cfg_EBPFRingbufSize cfg)) events else events)"

fun attach_all :: "(tracepoint \<Rightarrow> bool) \<Rightarrow> tracepoint list \<Rightarrow> lifecycle \<Rightarrow> lifecycle" where
  "attach_all ok [] l = l"
| "attach_all ok (tp # tps) l =
     (if ok tp then attach_all ok tps (l\<lparr>lf_links := lf_links l @ [tp], lf_attached := lf_attached l @ [tp]\<rparr>)
      else attach_all ok tps l)"

definition cleanup :: "lifecycle \<Rightarrow> lifecycle" where
  "cleanup l = l\<lparr>lf_attached := filter (\<lambda>tp. tp \<notin> set (lf_links l)) (lf_attached l), lf_loaded := False\<rparr>"

definition Start :: "bpf_env \<Rightarrow> config \<Rightarrow> lifecycle \<Rightarrow> (start_err, nat) res \<times> lifecycle" where
  "Start be cfg l =
     (if \<not> be_memlock be then (Inl RemoveMemlock, l)
      else (case be_spec be of
          None \<Rightarrow> (Inl LoadSpec, l)
        | Some events \<Rightarrow>
            (let size = ringbuf_size cfg events
             in if \<not> be_load be size then (Inl LoadObjects, l)
                else (let l1 = attach_all (be_attach be) tracepoints (l\<lparr>lf_loaded := True, lf_ringbuf := size\<rparr>)
                      in if lf_links l1 = [] then (Inl NoTracepoints, cleanup l1)
                         else if \<not> be_ringbuf be then (Inl OpenRingbuf, cleanup l1)
                         else (Inr channel_capacity, l1\<lparr>lf_reader := True, lf_reading := True, lf_loop := True\<rparr>)))))"

definition Stop :: "lifecycle \<Rightarrow> lifecycle" where
  "Stop l = cleanup (if lf_reader l then l\<lparr>lf_reading := False\<rparr> else l)"

section \<open>Counters\<close>

record stats =
  ss_KernelDrops :: "64 word"
  ss_ChannelDrops :: "64 word"
  ss_EnrichMissArgv :: "64 word"
  ss_EnrichMissAncestry :: "64 word"

text \<open>\<open>dropcount\<close> is the map of the kernel's drop counter, \<open>None\<close> before the objects are loaded; a failed lookup leaves 0.\<close>

definition Stats :: "64 word option option \<Rightarrow> collector \<Rightarrow> stats" where
  "Stats dropcount c =
     \<lparr>ss_KernelDrops = (case dropcount of Some (Some n) \<Rightarrow> n | _ \<Rightarrow> 0), ss_ChannelDrops = co_channelDrops c,
      ss_EnrichMissArgv = co_missArgv c, ss_EnrichMissAncestry = co_missAncestry c\<rparr>"

section \<open>Property\<close>

definition released :: "lifecycle \<Rightarrow> bool" where
  "released l \<longleftrightarrow> \<not> lf_loaded l \<and> lf_attached l = [] \<and> \<not> lf_reading l"

lemma attach_all_fields [simp]:
  "lf_links (attach_all ok tps l) = lf_links l @ filter ok tps"
  "lf_attached (attach_all ok tps l) = lf_attached l @ filter ok tps"
  "lf_reader (attach_all ok tps l) = lf_reader l" "lf_reading (attach_all ok tps l) = lf_reading l"
  "lf_loop (attach_all ok tps l) = lf_loop l" "lf_loaded (attach_all ok tps l) = lf_loaded l"
  "lf_ringbuf (attach_all ok tps l) = lf_ringbuf l"
  by (induction ok tps l rule: attach_all.induct) simp_all

text \<open>
  C30. Starting holds everything or nothing: a start that fails, at whatever point, leaves no program loaded, no
  tracepoint attached, no reader open and no loop running; one that succeeds has every tracepoint the kernel
  accepted, at least one, with the ring buffer of the configured size, and stopping it releases all of them.
\<close>

theorem start_all_or_nothing:
  "case Start be cfg idle of
     (Inl e, l) \<Rightarrow> released l \<and> \<not> lf_loop l
   | (Inr cap, l) \<Rightarrow>
       cap = 1000 \<and> lf_loaded l \<and> lf_reading l \<and> lf_loop l \<and>
       lf_attached l = filter (be_attach be) tracepoints \<and> lf_attached l \<noteq> [] \<and>
       (\<exists>events. be_spec be = Some events \<and> lf_ringbuf l = ringbuf_size cfg events) \<and> released (Stop l)"
  by (auto simp: Start_def Stop_def cleanup_def released_def idle_def channel_capacity_def Let_def filter_empty_conv
      split: option.splits)

end
