(* ===== verification/Correlator.thy ===== *)
theory Correlator
  imports Alerts Window GoInt "HOL-Library.Product_Lexorder"
begin

text \<open>
  Attack-chain correlation, \<open>internal/correlator/correlator.go\<close>: the per-container window of
  contributions, \<open>Observe\<close>, its garbage collection, the summary and the incident built. The map of
  chains is an association list. The clock read for a finding without a timestamp is a parameter. The
  additions and products of configured numbers wrap at 64 bits (\<open>wrap64\<close>), as Go's \<open>int\<close> does.
\<close>

definition IncidentRuleID :: string where
  "IncidentRuleID = ''attack_chain''"

definition severityRisk :: "severity \<Rightarrow> int" where
  "severityRisk s =
     (if s = SeverityLow then 10 else if s = SeverityMedium then 25
      else if s = SeverityHigh then 50 else if s = SeverityCritical then 100 else 0)"

record corr_config =
  cc_Window :: duration
  cc_MinStages :: int
  cc_MinScore :: int
  cc_Cooldown :: duration
  cc_HostMinStages :: int
  cc_HostMinScore :: int

record contribution =
  ct_at :: time
  ct_ruleID :: string
  ct_tactic :: string
  ct_score :: int

record chain =
  ch_contribs :: "contribution list"
  ch_last :: alert
  ch_lastSig :: string
  ch_lastEmit :: time
  ch_lastSeen :: time

record correlator =
  k_cfg :: corr_config
  k_by :: "(string \<times> chain) list"
  k_lastGC :: time

definition corr_New :: "corr_config \<Rightarrow> correlator" where
  "corr_New cfg =
     (let c1 = (if cc_Window cfg \<le> 0 then cfg\<lparr>cc_Window := 300 * 1000000000\<rparr> else cfg);
          c2 = (if cc_MinStages c1 \<le> 0 then c1\<lparr>cc_MinStages := 3\<rparr> else c1);
          c3 = (if cc_MinScore c2 \<le> 0 then c2\<lparr>cc_MinScore := 120\<rparr> else c2);
          c4 = (if cc_Cooldown c3 < 0 then c3\<lparr>cc_Cooldown := 0\<rparr> else c3);
          c5 = (if cc_HostMinStages c4 \<le> 0 then c4\<lparr>cc_HostMinStages := cc_MinStages c4\<rparr> else c4);
          c6 = (if cc_HostMinScore c5 \<le> 0 then c5\<lparr>cc_HostMinScore := cc_MinScore c5\<rparr> else c5)
      in \<lparr>k_cfg = c6, k_by = [], k_lastGC = 0\<rparr>)"

definition chainKey :: "alert \<Rightarrow> string" where
  "chainKey a =
     (if a_ContainerID a \<noteq> [] then a_ContainerID a
      else if a_Scope a = ScopeHostName then ''host:'' @ a_ServerName a
      else [])"

section \<open>Summary\<close>

text \<open>
  The stages are the keys of a set, sorted by kill-chain rank and then by name; the order of the
  comparison in \<open>sort.Slice\<close> is linear on distinct names, so the result does not depend on the
  order in which the set is read.
\<close>

definition stage_names :: "contribution list \<Rightarrow> string list" where
  "stage_names cs = remdups (filter (\<lambda>t. t \<noteq> []) (map (\<lambda>ct. trim_space (ct_tactic ct)) cs))"

definition rule_names :: "contribution list \<Rightarrow> string list" where
  "rule_names cs = remdups (filter (\<lambda>r. r \<noteq> []) (map ct_ruleID cs))"

definition summarize :: "contribution list \<Rightarrow> string list \<times> int \<times> string list" where
  "summarize cs =
     (sort_key (\<lambda>s. (KillChainRank s, s)) (stage_names cs), sum_list (map ct_score cs), sort (rule_names cs))"

section \<open>Incidents\<close>

definition arrow :: string where
  "arrow = [CHR '' '', CHR 0xE2, CHR 0x86, CHR 0x92, CHR '' '']"

definition dash :: string where
  "dash = [CHR '' '', CHR 0xE2, CHR 0x80, CHR 0x94, CHR '' '']"

definition buildIncident :: "corr_config \<Rightarrow> chain \<Rightarrow> string list \<Rightarrow> int \<Rightarrow> string list \<Rightarrow> time \<Rightarrow> int \<Rightarrow> int \<Rightarrow> alert" where
  "buildIncident cfg st stages score ruleIDs now minStages minScore =
     (let sev = (if wrap64 (minStages + 1) \<le> int (length stages) \<or> wrap64 (minScore * 2) \<le> score
                 then SeverityCritical else SeverityHigh);
          last = ch_last st;
          reason = ''attack chain detected across '' @ show_int (int (length stages)) @
            '' kill-chain stages ('' @ join arrow stages @ '')'' @ dash @ ''risk '' @ show_int score @
            '' from '' @ show_int (int (length (ch_contribs st))) @ '' findings'';
          tactic = (if stages \<noteq> [] then List.last stages else [])
      in empty_alert\<lparr>a_RuleID := IncidentRuleID, a_Severity := sev, a_Scope := a_Scope last,
           a_Reason := reason, a_MITRETactic := tactic, a_KillChainPhase := tactic,
           a_Tags := [TagAttackChain, ''incident'', ''correlation''], a_RiskScore := score,
           a_ContainerID := a_ContainerID last, a_ContainerName := a_ContainerName last,
           a_ImageName := a_ImageName last, a_ServerName := a_ServerName last, a_PID := a_PID last,
           a_ProcessName := a_ProcessName last, a_ParentName := a_ParentName last,
           a_Ancestry := a_Ancestry last, a_CmdLine := a_CmdLine last, a_Timestamp := now,
           a_Details := [(''risk_score'', GInt score), (''stages'', GStrs stages),
             (''finding_count'', GInt (int (length (ch_contribs st)))), (''rules'', GStrs ruleIDs),
             (''window_seconds'', GInt (cc_Window cfg div 1000000000)),
             (''last_finding'', GStr (a_Reason last))]\<rparr>)"

section \<open>Observe\<close>

definition gcLocked :: "correlator \<Rightarrow> time \<Rightarrow> correlator" where
  "gcLocked c now =
     (if k_lastGC c \<noteq> 0 \<and> time_sub now (k_lastGC c) < cc_Window (k_cfg c) then c
      else (let ttl = wrap64 (cc_Window (k_cfg c) + cc_Cooldown (k_cfg c))
            in c\<lparr>k_lastGC := now,
                 k_by := filter (\<lambda>(key, st). \<not> ttl < time_sub now (ch_lastSeen st)) (k_by c)\<rparr>))"

definition new_chain :: chain where
  "new_chain = \<lparr>ch_contribs = [], ch_last = empty_alert, ch_lastSig = [], ch_lastEmit = 0, ch_lastSeen = 0\<rparr>"

text \<open>The eviction loop.\<close>

fun evict :: "duration \<Rightarrow> time \<Rightarrow> contribution list \<Rightarrow> contribution list" where
  "evict window now [] = []"
| "evict window now (ct # cts) =
     (if time_after (ct_at ct) (now - window) then ct # evict window now cts else evict window now cts)"

text \<open>What \<open>Observe\<close> does to the chain of the finding: the updated chain and the incident, if any.\<close>

definition add_finding :: "corr_config \<Rightarrow> alert \<Rightarrow> time \<Rightarrow> chain \<Rightarrow> chain" where
  "add_finding cfg a now st =
     st\<lparr>ch_last := a, ch_lastSeen := now,
        ch_contribs := evict (cc_Window cfg) now
          (ch_contribs st @ [\<lparr>ct_at = now, ct_ruleID = a_RuleID a, ct_tactic = a_MITRETactic a,
             ct_score = severityRisk (a_Severity a)\<rparr>])\<rparr>"

definition thresholds :: "corr_config \<Rightarrow> alert \<Rightarrow> int \<times> int" where
  "thresholds cfg a =
     (if a_Scope a = ScopeHostName then (cc_HostMinStages cfg, cc_HostMinScore cfg)
      else (cc_MinStages cfg, cc_MinScore cfg))"

definition chain_step :: "corr_config \<Rightarrow> alert \<Rightarrow> time \<Rightarrow> chain \<Rightarrow> alert option \<times> chain" where
  "chain_step cfg a now st0 =
     (let st = add_finding cfg a now st0;
          (minStages, minScore) = thresholds cfg a;
          (stages, score, ruleIDs) = summarize (ch_contribs st)
      in if \<not> (minStages \<le> int (length stages) \<or> minScore \<le> score) then (None, st)
         else if join ''>'' stages = ch_lastSig st then (None, st)
         else if ch_lastEmit st \<noteq> 0 \<and> time_sub now (ch_lastEmit st) < cc_Cooldown cfg then (None, st)
         else (let st' = st\<lparr>ch_lastSig := join ''>'' stages, ch_lastEmit := now\<rparr>
               in (Some (buildIncident cfg st' stages score ruleIDs now minStages minScore), st')))"

definition Observe :: "correlator \<Rightarrow> alert option \<Rightarrow> time \<Rightarrow> alert option \<times> correlator" where
  "Observe c oa clock =
     (case oa of
        None \<Rightarrow> (None, c)
      | Some a \<Rightarrow>
          if IsIncident a then (None, c)
          else if chainKey a = [] then (None, c)
          else (let now = (if is_zero_time (a_Timestamp a) then clock else a_Timestamp a);
                    c1 = gcLocked c now;
                    st = (case map_of (k_by c1) (chainKey a) of Some st \<Rightarrow> st | None \<Rightarrow> new_chain);
                    (inc, st') = chain_step (k_cfg c) a now st
                in (inc, c1\<lparr>k_by := AList.update (chainKey a) st' (k_by c1)\<rparr>)))"

section \<open>The window of contributions\<close>

interpretation contribs: sliding_window "evict w" ct_at w for w
  by unfold_locales (simp_all add: time_after_def)


section \<open>Runs of the correlator\<close>

text \<open>
  A run from a new correlator: findings are observed in the order of their timestamps. The trace holds
  each finding with the incident it raised, the latest one last.
\<close>

definition relevant :: "alert \<Rightarrow> bool" where
  "relevant a \<longleftrightarrow> \<not> IsIncident a \<and> chainKey a \<noteq> []"

definition mark :: "alert \<Rightarrow> contribution" where
  "mark a = \<lparr>ct_at = a_Timestamp a, ct_ruleID = a_RuleID a, ct_tactic = a_MITRETactic a,
     ct_score = severityRisk (a_Severity a)\<rparr>"

definition marks :: "string \<Rightarrow> (alert \<times> alert option) list \<Rightarrow> contribution list" where
  "marks k tr = map (mark \<circ> fst) (filter (\<lambda>x. relevant (fst x) \<and> chainKey (fst x) = k) tr)"

definition emitted :: "string \<Rightarrow> (alert \<times> alert option) list \<Rightarrow> time list" where
  "emitted k tr = map (a_Timestamp \<circ> fst) (filter (\<lambda>x. snd x \<noteq> None \<and> chainKey (fst x) = k) tr)"

definition now_of :: "(alert \<times> alert option) list \<Rightarrow> time" where
  "now_of tr = (if tr = [] then 0 else a_Timestamp (fst (List.last tr)))"

inductive corr_run :: "corr_config \<Rightarrow> correlator \<Rightarrow> (alert \<times> alert option) list \<Rightarrow> bool" for cfg where
  start: "corr_run cfg (corr_New cfg) []"
| observe: "corr_run cfg c tr \<Longrightarrow> now_of tr \<le> a_Timestamp a \<Longrightarrow> 0 < a_Timestamp a \<Longrightarrow>
    Observe c (Some a) clock = (inc, c') \<Longrightarrow> corr_run cfg c' (tr @ [(a, inc)])"

inductive_cases corr_run_snocE: "corr_run cfg c (tr @ [x])"

lemma marks_simps [simp]:
  "marks k [] = []"
  "marks k (tr @ [(a, inc)]) = marks k tr @ (if relevant a \<and> chainKey a = k then [mark a] else [])"
  by (simp_all add: marks_def)

lemma emitted_simps [simp]:
  "emitted k [] = []"
  "emitted k (tr @ [(a, inc)]) = emitted k tr @ (if inc \<noteq> None \<and> chainKey a = k then [a_Timestamp a] else [])"
  by (simp_all add: emitted_def)

lemma now_of_simps [simp]: "now_of [] = 0" "now_of (tr @ [(a, inc)]) = a_Timestamp a"
  by (simp_all add: now_of_def)

text \<open>The configuration in force: positive windows and thresholds, and a sum that does not wrap.\<close>

definition conf_ok :: "corr_config \<Rightarrow> bool" where
  "conf_ok K \<longleftrightarrow> 0 < cc_Window K \<and> 0 \<le> cc_Cooldown K \<and> cc_Window K + cc_Cooldown K < max_duration \<and>
     0 < cc_MinStages K \<and> 0 < cc_MinScore K \<and> 0 < cc_HostMinStages K \<and> 0 < cc_HostMinScore K"

lemma corr_New_defaults:
  "0 < cc_Window (k_cfg (corr_New cfg)) \<and> 0 \<le> cc_Cooldown (k_cfg (corr_New cfg)) \<and>
   0 < cc_MinStages (k_cfg (corr_New cfg)) \<and> 0 < cc_MinScore (k_cfg (corr_New cfg)) \<and>
   0 < cc_HostMinStages (k_cfg (corr_New cfg)) \<and> 0 < cc_HostMinScore (k_cfg (corr_New cfg))"
  by (simp add: corr_New_def Let_def)

lemma conf_ok_New:
  "cc_Window (k_cfg (corr_New cfg)) + cc_Cooldown (k_cfg (corr_New cfg)) < max_duration \<Longrightarrow>
   conf_ok (k_cfg (corr_New cfg))"
  using corr_New_defaults [of cfg] by (simp add: conf_ok_def)

section \<open>The invariant of a chain\<close>

text \<open>
  A chain holds the part of its history that is in the window; a chain that was collected or never
  existed has no finding in the window and no incident in the cooldown.
\<close>

definition chain_inv :: "corr_config \<Rightarrow> chain option \<Rightarrow> contribution list \<Rightarrow> time list \<Rightarrow> time \<Rightarrow> bool" where
  "chain_inv K ost ms es now \<longleftrightarrow>
     (case ost of
        None \<Rightarrow> evict (cc_Window K) now ms = [] \<and> (\<forall>t \<in> set es. 0 < t \<and> cc_Cooldown K < now - t)
      | Some st \<Rightarrow>
          ch_contribs st = evict (cc_Window K) (ch_lastSeen st) ms \<and> ch_lastSeen st \<le> now \<and>
          ch_lastEmit st \<le> ch_lastSeen st \<and> (\<forall>m \<in> set ms. ct_at m \<le> ch_lastSeen st) \<and>
          (\<forall>t \<in> set es. 0 < t \<and> (t \<le> ch_lastEmit st \<or> cc_Cooldown K < ch_lastSeen st - t)) \<and>
          (es = [] \<longrightarrow> ch_lastEmit st = 0 \<and> ch_lastSig st = []))"

definition chain_of :: "chain option \<Rightarrow> chain" where
  "chain_of ost = (case ost of Some st \<Rightarrow> st | None \<Rightarrow> new_chain)"

definition corr_inv :: "corr_config \<Rightarrow> correlator \<Rightarrow> (alert \<times> alert option) list \<Rightarrow> bool" where
  "corr_inv K c tr \<longleftrightarrow> k_cfg c = K \<and> distinct (map fst (k_by c)) \<and>
     (\<forall>k. chain_inv K (map_of (k_by c) k) (marks k tr) (emitted k tr) (now_of tr))"

lemma chain_inv_later:
  "chain_inv K ost ms es now \<Longrightarrow> now \<le> now' \<Longrightarrow> chain_inv K ost ms es now'"
  using contribs.prune_later [of now now' "cc_Window K" ms]
  by (auto simp: chain_inv_def contribs.prune_Nil split: option.splits)

text \<open>Collection forgets only chains that nothing in the window or the cooldown depends on.\<close>

lemma chain_inv_collected:
  assumes "conf_ok K" and "chain_inv K (Some st) ms es now0" and "now0 \<le> now"
    and "cc_Window K + cc_Cooldown K < now - ch_lastSeen st"
  shows "chain_inv K None ms es now"
proof -
  have "ct_at m \<le> now - cc_Window K" if "m \<in> set ms" for m
    using assms that by (auto simp: chain_inv_def conf_ok_def)
  then have "set (evict (cc_Window K) now ms) = {}" unfolding contribs.prune_set by fastforce
  moreover have "0 < t \<and> cc_Cooldown K < now - t" if "t \<in> set es" for t
    using assms that by (fastforce simp: chain_inv_def conf_ok_def)
  ultimately show ?thesis by (simp add: chain_inv_def)
qed

lemma map_of_filter_distinct:
  "distinct (map fst xs) \<Longrightarrow>
   map_of (filter (\<lambda>(k, v). P v) xs) k = (case map_of xs k of Some v \<Rightarrow> if P v then Some v else None | None \<Rightarrow> None)"
proof (induction xs)
  case (Cons x xs)
  then have "map_of (filter (\<lambda>(k, v). P v) xs) (fst x) = None"
    by (force simp: map_of_eq_None_iff)
  with Cons show ?case by (cases x) (auto split: option.splits)
qed simp

lemma gcLocked_inv:
  assumes "conf_ok K" and "corr_inv K c tr" and "now_of tr \<le> now"
  shows "k_cfg (gcLocked c now) = K \<and> distinct (map fst (k_by (gcLocked c now))) \<and>
    chain_inv K (map_of (k_by (gcLocked c now)) k) (marks k tr) (emitted k tr) now"
proof -
  have inv: "k_cfg c = K" "distinct (map fst (k_by c))"
    "chain_inv K (map_of (k_by c) k) (marks k tr) (emitted k tr) (now_of tr)"
    using assms(2) by (auto simp: corr_inv_def)
  note later = chain_inv_later [OF inv(3) assms(3)]
  have ttl: "wrap64 (cc_Window K + cc_Cooldown K) = cc_Window K + cc_Cooldown K"
    using assms(1) by (intro wrap64_id) (auto simp: conf_ok_def max_duration_def)
  have gt: "cc_Window K + cc_Cooldown K < time_sub now t \<longleftrightarrow> cc_Window K + cc_Cooldown K < now - t" for t
    using assms(1) by (intro time_sub_greater_iff) (auto simp: conf_ok_def min_duration_def)
  show ?thesis
  proof (cases "k_lastGC c \<noteq> 0 \<and> time_sub now (k_lastGC c) < cc_Window (k_cfg c)")
    case True
    with inv later show ?thesis by (simp add: gcLocked_def)
  next
    case False
    have "chain_inv K (case map_of (k_by c) k of Some st \<Rightarrow>
        if \<not> cc_Window K + cc_Cooldown K < now - ch_lastSeen st then Some st else None | None \<Rightarrow> None)
        (marks k tr) (emitted k tr) now"
      using later chain_inv_collected [OF assms(1) _ assms(3), of _ "marks k tr" "emitted k tr"] inv(3)
      by (cases "map_of (k_by c) k") auto
    with False inv show ?thesis
      by (auto simp: gcLocked_def Let_def ttl gt distinct_map_filter
          map_of_filter_distinct [of "k_by c" "\<lambda>st. \<not> cc_Window K + cc_Cooldown K < now - ch_lastSeen st"])
  qed
qed


section \<open>One observation\<close>

definition qualifies :: "corr_config \<Rightarrow> alert \<Rightarrow> contribution list \<Rightarrow> bool" where
  "qualifies K a cs \<longleftrightarrow> fst (thresholds K a) \<le> int (length (fst (summarize cs))) \<or>
     snd (thresholds K a) \<le> fst (snd (summarize cs))"

definition signature :: "contribution list \<Rightarrow> string" where
  "signature cs = join ''>'' (fst (summarize cs))"

lemma add_finding_contribs:
  assumes "chain_inv K ost ms es now"
  shows "ch_contribs (add_finding K a now (chain_of ost)) =
    evict (cc_Window K) now (ms @ [(mark a)\<lparr>ct_at := now\<rparr>])"
proof (cases ost)
  case None
  with assms show ?thesis
    by (simp add: add_finding_def chain_of_def new_chain_def chain_inv_def mark_def
        contribs.prune_append contribs.prune_Cons)
next
  case (Some st)
  with assms have "ch_contribs st = evict (cc_Window K) (ch_lastSeen st) ms" "ch_lastSeen st \<le> now"
    by (simp_all add: chain_inv_def)
  from contribs.prune_add_first [OF this] Some show ?thesis
    by (simp add: add_finding_def chain_of_def mark_def)
qed

lemma add_finding_keeps [simp]:
  "ch_lastSig (add_finding K a now st) = ch_lastSig st"
  "ch_lastEmit (add_finding K a now st) = ch_lastEmit st"
  "ch_lastSeen (add_finding K a now st) = now"
  "ch_last (add_finding K a now st) = a"
  by (simp_all add: add_finding_def)

text \<open>The decision: an incident needs the thresholds, a new signature and the cooldown to have passed.\<close>

lemma chain_step_iff:
  assumes "conf_ok K" and st: "st = add_finding K a now st0"
  shows "chain_step K a now st0 =
    (if qualifies K a (ch_contribs st) \<and> signature (ch_contribs st) \<noteq> ch_lastSig st0 \<and>
        (ch_lastEmit st0 = 0 \<or> cc_Cooldown K \<le> now - ch_lastEmit st0)
     then (let st' = st\<lparr>ch_lastSig := signature (ch_contribs st), ch_lastEmit := now\<rparr>
           in (Some (buildIncident K st' (fst (summarize (ch_contribs st))) (fst (snd (summarize (ch_contribs st))))
                 (snd (snd (summarize (ch_contribs st)))) now (fst (thresholds K a)) (snd (thresholds K a))), st'))
     else (None, st))"
proof -
  have "time_sub now t < cc_Cooldown K \<longleftrightarrow> now - t < cc_Cooldown K" for t
    using assms(1) by (intro time_sub_less_iff) (auto simp: conf_ok_def min_duration_def)
  then show ?thesis
    by (auto simp: chain_step_def qualifies_def signature_def Let_def st split: prod.splits)
qed



lemma chain_step_inv:
  assumes ok: "conf_ok K" and inv: "chain_inv K ost ms es now" and "0 < now"
    and ms: "\<forall>m \<in> set ms. ct_at m \<le> now"
    and step: "chain_step K a now (chain_of ost) = (inc, st')" and stamp: "a_Timestamp a = now"
  shows "chain_inv K (Some st') (ms @ [mark a]) (es @ (if inc \<noteq> None then [now] else [])) now"
proof -
  define st where "st = add_finding K a now (chain_of ost)"
  have m: "(mark a)\<lparr>ct_at := now\<rparr> = mark a" using stamp by (simp add: mark_def)
  have cs: "ch_contribs st = evict (cc_Window K) now (ms @ [mark a])"
    using add_finding_contribs [OF inv, of a] by (simp add: st_def m)
  have old: "ch_lastEmit (chain_of ost) \<le> now"
    using inv assms(3) by (auto simp: chain_inv_def chain_of_def new_chain_def split: option.splits)
  have es: "0 < t \<and> (t \<le> ch_lastEmit (chain_of ost) \<or> cc_Cooldown K < now - t)" if "t \<in> set es" for t
    using inv that by (fastforce simp: chain_inv_def chain_of_def split: option.splits)
  have fresh: "es = [] \<Longrightarrow> ch_lastEmit (chain_of ost) = 0 \<and> ch_lastSig (chain_of ost) = []"
    using inv by (auto simp: chain_inv_def chain_of_def new_chain_def split: option.splits)
  have at: "ct_at (mark a) = now" using stamp by (simp add: mark_def)
  have seen: "ch_lastSeen st = now" "ch_lastEmit st = ch_lastEmit (chain_of ost)" "ch_lastSig st = ch_lastSig (chain_of ost)"
    by (simp_all add: st_def)
  show ?thesis
  proof (cases inc)
    case None
    then have "st' = st"
      using step unfolding chain_step_iff [OF ok st_def] by (auto simp: Let_def split: if_splits)
    with None cs seen old es fresh ms at show ?thesis by (auto simp: chain_inv_def)
  next
    case (Some x)
    then obtain sig where "st' = st\<lparr>ch_lastSig := sig, ch_lastEmit := now\<rparr>"
      using step unfolding chain_step_iff [OF ok st_def] by (auto simp: Let_def split: if_splits)
    with Some cs seen old es ms at assms(3) show ?thesis by (fastforce simp: chain_inv_def)
  qed
qed

text \<open>The chain \<open>Observe\<close> works on, after collection.\<close>

definition chain_at :: "correlator \<Rightarrow> string \<Rightarrow> time \<Rightarrow> chain" where
  "chain_at c k now = chain_of (map_of (k_by (gcLocked c now)) k)"

lemma Observe_relevant:
  assumes "relevant a" and "a_Timestamp a \<noteq> 0"
  shows "Observe c (Some a) clock =
    (let (inc, st') = chain_step (k_cfg c) a (a_Timestamp a) (chain_at c (chainKey a) (a_Timestamp a));
         c1 = gcLocked c (a_Timestamp a)
     in (inc, c1\<lparr>k_by := AList.update (chainKey a) st' (k_by c1)\<rparr>))"
  using assms by (simp add: Observe_def relevant_def is_zero_time_def chain_at_def chain_of_def Let_def split: prod.splits)

lemma Observe_irrelevant: "\<not> relevant a \<Longrightarrow> Observe c (Some a) clock = (None, c)"
  by (auto simp: Observe_def relevant_def)

lemma marks_le_now: "corr_run cfg c tr \<Longrightarrow> \<forall>x \<in> set tr. a_Timestamp (fst x) \<le> now_of tr"
  by (induction rule: corr_run.induct) fastforce+

lemma corr_run_inv:
  assumes "corr_run cfg c tr" and ok: "conf_ok (k_cfg (corr_New cfg))"
  shows "corr_inv (k_cfg (corr_New cfg)) c tr"
  using assms(1)
proof (induction rule: corr_run.induct)
  case start
  then show ?case
    by (simp add: corr_inv_def chain_inv_def contribs.prune_Nil) (simp add: corr_New_def Let_def)
next
  case (observe c tr a clock inc c')
  let ?K = "k_cfg (corr_New cfg)" and ?now = "a_Timestamp a"
  have K: "k_cfg c = ?K" using observe.IH by (simp add: corr_inv_def)
  show ?case
  proof (cases "relevant a")
    case False
    with observe have "inc = None" "c' = c" by (simp_all add: Observe_irrelevant)
    with False observe.IH observe.hyps(2) show ?thesis
      by (auto simp: corr_inv_def intro: chain_inv_later)
  next
    case True
    obtain st' where st': "chain_step ?K a ?now (chain_at c (chainKey a) ?now) = (inc, st')"
      "c' = (gcLocked c ?now)\<lparr>k_by := AList.update (chainKey a) st' (k_by (gcLocked c ?now))\<rparr>"
      using observe.hyps(3,4) True K by (auto simp: Observe_relevant Let_def split: prod.splits)
    have gc: "k_cfg (gcLocked c ?now) = ?K" "distinct (map fst (k_by (gcLocked c ?now)))"
      "chain_inv ?K (map_of (k_by (gcLocked c ?now)) k) (marks k tr) (emitted k tr) ?now" for k
      using gcLocked_inv [OF ok observe.IH observe.hyps(2)] by blast+
    have "\<forall>m \<in> set (marks (chainKey a) tr). ct_at m \<le> ?now"
      using marks_le_now [OF observe.hyps(1)] observe.hyps(2) by (fastforce simp: marks_def mark_def)
    note step = chain_step_inv [OF ok gc(3) observe.hyps(3) this st'(1) [unfolded chain_at_def] refl]
    show ?thesis
      using gc step True unfolding corr_inv_def st'(2)
      by (auto simp: map_of_update_apply distinct_update)
  qed
qed


lemma corr_run_snoc:
  assumes "corr_run cfg c' (tr @ [(a, inc)])"
  obtains c clock where "corr_run cfg c tr" "now_of tr \<le> a_Timestamp a" "0 < a_Timestamp a"
    "Observe c (Some a) clock = (inc, c')"
  using assms by (auto elim: corr_run_snocE)

lemma gc_chain_inv:
  assumes "corr_run cfg c tr" and "conf_ok (k_cfg (corr_New cfg))" and "now_of tr \<le> now"
  shows "chain_inv (k_cfg (corr_New cfg)) (map_of (k_by (gcLocked c now)) k) (marks k tr) (emitted k tr) now"
  using gcLocked_inv [OF assms(2) corr_run_inv [OF assms(1,2)] assms(3)] by blast

text \<open>The findings of the chain of \<open>a\<close> that are in the window when \<open>a\<close> is observed after \<open>tr\<close>.\<close>

definition window_marks :: "corr_config \<Rightarrow> (alert \<times> alert option) list \<Rightarrow> alert \<Rightarrow> contribution list" where
  "window_marks K tr a =
     filter (\<lambda>m. a_Timestamp a - cc_Window K < ct_at m) (marks (chainKey a) tr @ [mark a])"

lemma observe_contribs:
  assumes "corr_run cfg c tr" and "conf_ok (k_cfg (corr_New cfg))" and "now_of tr \<le> a_Timestamp a"
  shows "ch_contribs (add_finding (k_cfg (corr_New cfg)) a (a_Timestamp a) (chain_at c (chainKey a) (a_Timestamp a))) =
    window_marks (k_cfg (corr_New cfg)) tr a"
proof -
  have "(mark a)\<lparr>ct_at := a_Timestamp a\<rparr> = mark a" by (simp add: mark_def)
  with add_finding_contribs [OF gc_chain_inv [OF assms, of "chainKey a"], of a] show ?thesis
    by (simp add: chain_at_def window_marks_def contribs.prune_filter)
qed

lemma observe_step:
  assumes "corr_run cfg c tr" and ok: "conf_ok (k_cfg (corr_New cfg))" and "now_of tr \<le> a_Timestamp a"
    and "0 < a_Timestamp a" and "relevant a"
  shows "fst (Observe c (Some a) clock) =
    fst (chain_step (k_cfg (corr_New cfg)) a (a_Timestamp a) (chain_at c (chainKey a) (a_Timestamp a)))"
proof -
  have "k_cfg c = k_cfg (corr_New cfg)"
    using corr_run_inv [OF assms(1) ok] by (simp add: corr_inv_def)
  with assms show ?thesis by (simp add: Observe_relevant Let_def split: prod.splits)
qed

lemma signature_Nil: "signature cs = [] \<longleftrightarrow> stage_names cs = []"
proof -
  have "[] \<notin> set (stage_names cs)" by (auto simp: stage_names_def)
  then have "[] \<notin> set (fst (summarize cs))" by (simp add: summarize_def)
  moreover have "join sep xs = [] \<longleftrightarrow> xs = []" if "[] \<notin> set xs" for sep :: string and xs
    using that by (induction sep xs rule: join.induct) simp_all
  moreover have "fst (summarize cs) = [] \<longleftrightarrow> stage_names cs = []"
    by (simp add: summarize_def flip: length_0_conv)
  ultimately show ?thesis by (simp add: signature_def)
qed

lemma stage_names_blank: "stage_names cs = [] \<longleftrightarrow> (\<forall>m \<in> set cs. trim_space (ct_tactic m) = [])"
  by (auto simp: stage_names_def filter_empty_conv)

section \<open>A concrete run\<close>

text \<open>Observing a list of findings, for evaluation.\<close>

fun observe_all :: "correlator \<Rightarrow> (alert \<times> alert option) list \<Rightarrow> alert list \<Rightarrow> correlator \<times> (alert \<times> alert option) list" where
  "observe_all c tr [] = (c, tr)"
| "observe_all c tr (a # as) = (let (inc, c') = Observe c (Some a) 0 in observe_all c' (tr @ [(a, inc)]) as)"

lemma observe_all_run:
  "corr_run cfg c tr \<Longrightarrow> sorted (now_of tr # map a_Timestamp as) \<Longrightarrow> list_all (\<lambda>a. 0 < a_Timestamp a) as \<Longrightarrow>
   corr_run cfg (fst (observe_all c tr as)) (snd (observe_all c tr as))"
proof (induction c tr as rule: observe_all.induct)
  case (2 c tr a as)
  obtain inc c' where o: "Observe c (Some a) 0 = (inc, c')" by fastforce
  have "corr_run cfg c' (tr @ [(a, inc)])"
    using "2.prems" o by (auto intro: corr_run.observe)
  with "2.IH" [OF o [symmetric] refl] "2.prems" o show ?case by simp
qed simp

lemma observe_all_shape:
  "\<exists>incs. snd (observe_all c tr as) = tr @ zip as incs \<and> length incs = length as"
proof (induction c tr as rule: observe_all.induct)
  case (2 c tr a as)
  obtain inc c' where o: "Observe c (Some a) 0 = (inc, c')" by fastforce
  from "2.IH" [OF o [symmetric] refl] obtain incs where
    "snd (observe_all c' (tr @ [(a, inc)]) as) = (tr @ [(a, inc)]) @ zip as incs" "length incs = length as" by blast
  with o show ?case by (intro exI [of _ "inc # incs"]) simp
qed simp

definition ex_cfg :: corr_config where
  "ex_cfg = \<lparr>cc_Window = 0, cc_MinStages = 0, cc_MinScore = 0, cc_Cooldown = 500000000,
     cc_HostMinStages = 0, cc_HostMinScore = 0\<rparr>"

definition ex_finding :: "string \<Rightarrow> time \<Rightarrow> alert" where
  "ex_finding tactic t = empty_alert\<lparr>a_ContainerID := ''c1'', a_MITRETactic := tactic,
     a_Severity := SeverityCritical, a_Timestamp := t\<rparr>"

definition ex_findings :: "alert list" where
  "ex_findings = [ex_finding ''Execution'' 1000000000, ex_finding ''Persistence'' 2000000000,
     ex_finding ''Discovery'' 3000000000]"

lemma ex_cfg_sum: "cc_Window (k_cfg (corr_New ex_cfg)) + cc_Cooldown (k_cfg (corr_New ex_cfg)) < max_duration"
  by code_simp

lemma ex_run_raised:
  "map (\<lambda>x. snd x = None) (snd (observe_all (corr_New ex_cfg) [] ex_findings)) = [True, False, False]"
  by code_simp

lemma ex_run:
  "\<exists>c i j. corr_run ex_cfg c [(ex_finding ''Execution'' 1000000000, None),
     (ex_finding ''Persistence'' 2000000000, Some i), (ex_finding ''Discovery'' 3000000000, Some j)]"
proof -
  obtain incs where incs: "snd (observe_all (corr_New ex_cfg) [] ex_findings) = zip ex_findings incs"
    "length incs = 3"
    using observe_all_shape [of "corr_New ex_cfg" "[]" ex_findings] by (auto simp: ex_findings_def)
  then obtain x y z where xyz: "incs = [x, y, z]"
    by (auto simp: numeral_eq_Suc length_Suc_conv)
  with ex_run_raised incs(1) obtain i j where "incs = [None, Some i, Some j]"
    by (auto simp: ex_findings_def)
  moreover have "corr_run ex_cfg (fst (observe_all (corr_New ex_cfg) [] ex_findings))
      (snd (observe_all (corr_New ex_cfg) [] ex_findings))"
    by (rule observe_all_run [OF corr_run.start]) (simp_all add: ex_findings_def ex_finding_def empty_alert_def)
  ultimately show ?thesis using incs(1) by (auto simp: ex_findings_def)
qed

lemma ex_run2:
  "\<exists>c i. corr_run ex_cfg c [(ex_finding ''Execution'' 1000000000, None), (ex_finding ''Persistence'' 2000000000, Some i)]"
proof -
  obtain c i j where "corr_run ex_cfg c ([(ex_finding ''Execution'' 1000000000, None),
     (ex_finding ''Persistence'' 2000000000, Some i)] @ [(ex_finding ''Discovery'' 3000000000, Some j)])"
    using ex_run by auto
  then show ?thesis by (rule corr_run_snoc) blast
qed

lemma ex_run1: "\<exists>c. corr_run ex_cfg c [(ex_finding ''Execution'' 1000000000, None)]"
proof -
  obtain c i where "corr_run ex_cfg c ([(ex_finding ''Execution'' 1000000000, None)] @
     [(ex_finding ''Persistence'' 2000000000, Some i)])"
    using ex_run2 by auto
  then show ?thesis by (rule corr_run_snoc) blast
qed

section \<open>Properties\<close>

text \<open>
  C7. Every incident is justified by exactly the findings of its chain in the window: they reach the
  stage or the score threshold of the scope, the risk score is the sum of their severities' points, and
  the stages reported are their distinct tactics in kill-chain order. Garbage collection and the chains
  of other containers have no influence.
\<close>

theorem incident_justified:
  assumes "corr_run cfg c (tr @ [(a, Some inc)])"
    and "cc_Window (k_cfg (corr_New cfg)) + cc_Cooldown (k_cfg (corr_New cfg)) < max_duration"
  shows "let win = window_marks (k_cfg (corr_New cfg)) tr a
    in qualifies (k_cfg (corr_New cfg)) a win \<and> a_RiskScore inc = sum_list (map ct_score win) \<and>
       map_of (a_Details inc) ''stages'' =
         Some (GStrs (sort_key (\<lambda>s. (KillChainRank s, s)) (stage_names win))) \<and>
       a_ContainerID inc = a_ContainerID a \<and> a_Severity inc \<in> {SeverityHigh, SeverityCritical}"
proof -
  let ?K = "k_cfg (corr_New cfg)" and ?now = "a_Timestamp a"
  note ok = conf_ok_New [OF assms(2)]
  obtain c0 clock where c0: "corr_run cfg c0 tr" "now_of tr \<le> ?now" "0 < ?now"
    "Observe c0 (Some a) clock = (Some inc, c)" using assms(1) by (rule corr_run_snoc)
  then have rel: "relevant a" using Observe_irrelevant by fastforce
  define st where "st = add_finding ?K a ?now (chain_at c0 (chainKey a) ?now)"
  have win: "ch_contribs st = window_marks ?K tr a"
    using observe_contribs [OF c0(1) ok c0(2)] by (simp add: st_def)
  from c0(4) observe_step [OF c0(1) ok c0(2,3) rel, of clock]
  have "fst (chain_step ?K a ?now (chain_at c0 (chainKey a) ?now)) = Some inc" by simp
  then have "qualifies ?K a (ch_contribs st)" and
    "\<exists>sig mS mC. inc = buildIncident ?K (st\<lparr>ch_lastSig := sig, ch_lastEmit := ?now\<rparr>)
       (fst (summarize (ch_contribs st))) (fst (snd (summarize (ch_contribs st)))) (snd (snd (summarize (ch_contribs st))))
       ?now mS mC"
    unfolding chain_step_iff [OF ok st_def] by (auto simp: Let_def split: if_splits)
  then show ?thesis
    unfolding win by (auto simp: Let_def buildIncident_def summarize_def st_def)
qed

theorem incident_justified_witness:
  "\<exists>inc :: alert. let win = window_marks (k_cfg (corr_New ex_cfg)) [(ex_finding ''Execution'' 1000000000, None)]
       (ex_finding ''Persistence'' 2000000000)
    in qualifies (k_cfg (corr_New ex_cfg)) (ex_finding ''Persistence'' 2000000000) win \<and> a_RiskScore inc = 200 \<and>
       map_of (a_Details inc) ''stages'' = Some (GStrs [''Execution'', ''Persistence''])"
proof -
  let ?win = "window_marks (k_cfg (corr_New ex_cfg)) [(ex_finding ''Execution'' 1000000000, None)]
      (ex_finding ''Persistence'' 2000000000)"
  obtain c i where "corr_run ex_cfg c ([(ex_finding ''Execution'' 1000000000, None)] @
      [(ex_finding ''Persistence'' 2000000000, Some i)])"
    using ex_run2 by auto
  note just = incident_justified [OF this ex_cfg_sum, unfolded Let_def]
  have sum: "sum_list (map ct_score ?win) = 200" by code_simp
  have stages: "sort_key (\<lambda>s. (KillChainRank s, s)) (stage_names ?win) = [''Execution'', ''Persistence'']" by code_simp
  show ?thesis unfolding Let_def
    by (rule exI [of _ i]) (intro conjI just [THEN conjunct1]
      just [THEN conjunct2, THEN conjunct1, unfolded sum]
      just [THEN conjunct2, THEN conjunct2, THEN conjunct1, unfolded stages])
qed

text \<open>
  C18. Two incidents of one chain are at least the cooldown apart, even when the chain was collected in
  between and its last emission forgotten.
\<close>

theorem incidents_spaced:
  assumes "corr_run cfg c (tr @ [(a, Some inc)])" and "t \<in> set (emitted (chainKey a) tr)"
    and "cc_Window (k_cfg (corr_New cfg)) + cc_Cooldown (k_cfg (corr_New cfg)) < max_duration"
  shows "cc_Cooldown (k_cfg (corr_New cfg)) \<le> a_Timestamp a - t"
proof -
  let ?K = "k_cfg (corr_New cfg)" and ?now = "a_Timestamp a"
  note ok = conf_ok_New [OF assms(3)]
  obtain c0 clock where c0: "corr_run cfg c0 tr" "now_of tr \<le> ?now" "0 < ?now"
    "Observe c0 (Some a) clock = (Some inc, c)" using assms(1) by (rule corr_run_snoc)
  then have rel: "relevant a" using Observe_irrelevant by fastforce
  from c0(4) observe_step [OF c0(1) ok c0(2,3) rel, of clock]
  have "fst (chain_step ?K a ?now (chain_at c0 (chainKey a) ?now)) = Some inc" by simp
  then have emit: "ch_lastEmit (chain_at c0 (chainKey a) ?now) = 0 \<or>
      cc_Cooldown ?K \<le> ?now - ch_lastEmit (chain_at c0 (chainKey a) ?now)"
    unfolding chain_step_iff [OF ok refl] by (auto simp: Let_def split: if_splits)
  have "0 < t \<and> (t \<le> ch_lastEmit (chain_at c0 (chainKey a) ?now) \<or> cc_Cooldown ?K < ?now - t)"
    using gc_chain_inv [OF c0(1) ok c0(2), of "chainKey a"] assms(2)
    by (fastforce simp: chain_inv_def chain_at_def chain_of_def split: option.splits)
  with emit show ?thesis by linarith
qed

theorem incidents_spaced_witness:
  "cc_Cooldown (k_cfg (corr_New ex_cfg)) = 500000000 \<and>
   cc_Cooldown (k_cfg (corr_New ex_cfg)) \<le> a_Timestamp (ex_finding ''Discovery'' 3000000000) - 2000000000"
proof -
  obtain c i j where run: "corr_run ex_cfg c ([(ex_finding ''Execution'' 1000000000, None),
      (ex_finding ''Persistence'' 2000000000, Some i)] @ [(ex_finding ''Discovery'' 3000000000, Some j)])"
    using ex_run by auto
  have "2000000000 \<in> set (emitted (chainKey (ex_finding ''Discovery'' 3000000000))
      [(ex_finding ''Execution'' 1000000000, None), (ex_finding ''Persistence'' 2000000000, Some i)])"
    by (simp add: emitted_def ex_finding_def chainKey_def)
  from incidents_spaced [OF run this ex_cfg_sum] show ?thesis
    by (simp add: corr_New_def ex_cfg_def Let_def)
qed

text \<open>
  C8. A chain that qualifies is reported: the first time the findings of a container reach a threshold
  within the window, and at least one of them has a tactic, the observation raises an incident.
\<close>

theorem first_chain_reported:
  assumes "corr_run cfg c tr" and "emitted (chainKey a) tr = []" and "relevant a"
    and "now_of tr \<le> a_Timestamp a" and "0 < a_Timestamp a"
    and "cc_Window (k_cfg (corr_New cfg)) + cc_Cooldown (k_cfg (corr_New cfg)) < max_duration"
    and "qualifies (k_cfg (corr_New cfg)) a (window_marks (k_cfg (corr_New cfg)) tr a)"
    and "stage_names (window_marks (k_cfg (corr_New cfg)) tr a) \<noteq> []"
  shows "\<exists>inc. fst (Observe c (Some a) clock) = Some inc"
proof -
  let ?K = "k_cfg (corr_New cfg)" and ?now = "a_Timestamp a"
  note ok = conf_ok_New [OF assms(6)]
  have fresh: "ch_lastEmit (chain_at c (chainKey a) ?now) = 0 \<and> ch_lastSig (chain_at c (chainKey a) ?now) = []"
    using gc_chain_inv [OF assms(1) ok assms(4), of "chainKey a"] assms(2)
    by (auto simp: chain_inv_def chain_at_def chain_of_def new_chain_def split: option.splits)
  have "fst (Observe c (Some a) clock) = fst (chain_step ?K a ?now (chain_at c (chainKey a) ?now))"
    using assms observe_step [OF assms(1) ok] by blast
  with fresh assms(7,8) observe_contribs [OF assms(1) ok assms(4)] show ?thesis
    by (simp add: chain_step_iff [OF ok refl] signature_Nil Let_def)
qed

theorem first_chain_reported_witness:
  "\<exists>c inc. corr_run ex_cfg c [(ex_finding ''Execution'' 1000000000, None)] \<and>
     fst (Observe c (Some (ex_finding ''Persistence'' 2000000000)) 0) = Some inc"
proof -
  let ?a = "ex_finding ''Persistence'' 2000000000" and ?tr = "[(ex_finding ''Execution'' 1000000000, None)]"
  obtain c where run: "corr_run ex_cfg c ?tr"
    using ex_run1 by blast
  have "emitted (chainKey ?a) ?tr = []" "relevant ?a" "now_of ?tr \<le> a_Timestamp ?a" "0 < a_Timestamp ?a"
    by (simp_all add: emitted_def ex_finding_def now_of_def relevant_def IsIncident_def chainKey_def empty_alert_def)
  moreover have "qualifies (k_cfg (corr_New ex_cfg)) ?a (window_marks (k_cfg (corr_New ex_cfg)) ?tr ?a)"
    "stage_names (window_marks (k_cfg (corr_New ex_cfg)) ?tr ?a) \<noteq> []" by code_simp+
  ultimately show ?thesis using first_chain_reported [OF run _ _ _ _ ex_cfg_sum] run by blast
qed

text \<open>
  A gap: findings without a tactic never raise an incident, whatever their score, because the
  signature of no stages is the empty text every new chain starts from.
\<close>

theorem stageless_chain_never_reported:
  assumes "corr_run cfg c tr" and "\<forall>m \<in> set (marks k tr). trim_space (ct_tactic m) = []"
    and "cc_Window (k_cfg (corr_New cfg)) + cc_Cooldown (k_cfg (corr_New cfg)) < max_duration"
  shows "emitted k tr = []"
  using assms(1,2)
proof (induction rule: corr_run.induct)
  case (observe c tr a clock inc c')
  let ?K = "k_cfg (corr_New cfg)" and ?now = "a_Timestamp a"
  note ok = conf_ok_New [OF assms(3)]
  from observe have none: "emitted k tr = []" by (auto split: if_splits)
  have "inc = None" if k: "chainKey a = k"
  proof (cases "relevant a")
    case False
    with observe.hyps(4) show ?thesis by (simp add: Observe_irrelevant)
  next
    case True
    have "ch_lastSig (chain_at c k ?now) = []"
      using gc_chain_inv [OF observe.hyps(1) ok observe.hyps(2), of k] none
      by (auto simp: chain_inv_def chain_at_def chain_of_def new_chain_def split: option.splits)
    moreover have "signature (window_marks ?K tr a) = []"
      using observe.prems True k by (auto simp: signature_Nil stage_names_blank window_marks_def)
    ultimately have "fst (chain_step ?K a ?now (chain_at c k ?now)) = None"
      using observe_contribs [OF observe.hyps(1) ok observe.hyps(2)] k
      by (simp add: chain_step_iff [OF ok refl])
    with observe_step [OF observe.hyps(1) ok observe.hyps(2,3) True, of clock] k observe.hyps(4) show ?thesis by simp
  qed
  with none show ?case by auto
qed simp

definition ex_stageless :: "alert list" where
  "ex_stageless = [ex_finding [] 1000000000, ex_finding [] 2000000000, ex_finding [] 3000000000]"

theorem stageless_chain_never_reported_witness:
  "let tr = snd (observe_all (corr_New ex_cfg) [] ex_stageless)
   in sum_list (map ct_score (marks ''c1'' tr)) = 300 \<and> emitted ''c1'' tr = []"
proof -
  let ?tr = "snd (observe_all (corr_New ex_cfg) [] ex_stageless)"
  have run: "corr_run ex_cfg (fst (observe_all (corr_New ex_cfg) [] ex_stageless)) ?tr"
    by (rule observe_all_run [OF corr_run.start]) (simp_all add: ex_stageless_def ex_finding_def empty_alert_def)
  have blank: "list_all (\<lambda>m. trim_space (ct_tactic m) = []) (marks ''c1'' ?tr)" by code_simp
  have "sum_list (map ct_score (marks ''c1'' ?tr)) = 300" by code_simp
  with stageless_chain_never_reported [OF run _ ex_cfg_sum, of "''c1''"] blank show ?thesis
    by (simp add: list_all_iff)
qed

end
