(* ===== verification/ECS.thy ===== *)
theory ECS
  imports Alerts
begin

text \<open>
  The Elastic Common Schema form of an alert, \<open>internal/alerter/ecs.go\<close>: \<open>ECS\<close>, \<open>ecsSeverity\<close> and
  \<open>ecsEventType\<close>. A \<open>map[string]any\<close> is an association list; the timestamp is formatted with the
  layout \<open>2006-01-02T15:04:05.000Z07:00\<close> in UTC. The second half shows which fields of an alert can be
  read back from its document.
\<close>

section \<open>Formatting a time in UTC\<close>

text \<open>The proleptic Gregorian date of a day counted from 1 January of year 1 (day 0).\<close>

definition civil :: "int \<Rightarrow> int \<times> int \<times> int" where
  "civil day =
     (let z = day + 306; era = z div 146097; doe = z mod 146097;
          yoe = (doe - doe div 1460 + doe div 36524 - doe div 146096) div 365;
          doy = doe - (365 * yoe + yoe div 4 - yoe div 100);
          mp = (5 * doy + 2) div 153;
          d = doy - (153 * mp + 2) div 5 + 1;
          m = (if mp < 10 then mp + 3 else mp - 9);
          y = yoe + era * 400
      in (if m \<le> 2 then y + 1 else y, m, d))"

definition pad :: "nat \<Rightarrow> int \<Rightarrow> string" where
  "pad w n = (let s = show_int n in replicate (w - length s) CHR ''0'' @ s)"

definition format_utc_millis :: "time \<Rightarrow> string" where
  "format_utc_millis t =
     (let s = t div 1000000000; (y, m, d) = civil (s div 86400); r = s mod 86400
      in pad 4 y @ ''-'' @ pad 2 m @ ''-'' @ pad 2 d @ ''T'' @ pad 2 (r div 3600) @ '':'' @
         pad 2 (r div 60 mod 60) @ '':'' @ pad 2 (r mod 60) @ ''.'' @
         pad 3 (t mod 1000000000 div 1000000) @ ''Z'')"

lemma format_examples:
  "format_utc_millis 0 = ''0001-01-01T00:00:00.000Z''"
  "format_utc_millis (62135596800 * 1000000000) = ''1970-01-01T00:00:00.000Z''"
  "format_utc_millis ((62135596800 + 1709210096) * 1000000000 + 789654321) = ''2024-02-29T12:34:56.789Z''"
  by code_simp+

section \<open>The document\<close>

definition ecsSeverity :: "severity \<Rightarrow> int" where
  "ecsSeverity s =
     (if s = SeverityCritical then 99 else if s = SeverityHigh then 73
      else if s = SeverityMedium then 47 else if s = SeverityLow then 21 else 0)"

definition ecsEventType :: "alert \<Rightarrow> string" where
  "ecsEventType a =
     (if IsIncident a then ''indicator''
      else (let s = to_lower (a_Syscall a) in
        if s = ''open'' \<or> s = ''openat'' then ''access''
        else if s = ''connect'' then ''connection''
        else ''start''))"

text \<open>\<open>if cond { m[k] = v }\<close> for a key not in the map yet\<close>

definition put_if :: "bool \<Rightarrow> string \<Rightarrow> gval \<Rightarrow> (string \<times> gval) list" where
  "put_if c k v = (if c then [(k, v)] else [])"

definition ecs_container :: "alert \<Rightarrow> (string \<times> gval) list" where
  "ecs_container a =
     put_if (a_ContainerID a \<noteq> []) ''id'' (GStr (a_ContainerID a)) @
     put_if (a_ContainerName a \<noteq> []) ''name'' (GStr (a_ContainerName a)) @
     put_if (a_ImageName a \<noteq> []) ''image'' (GMap [(''name'', GStr (a_ImageName a))])"

definition ecs_process :: "alert \<Rightarrow> (string \<times> gval) list" where
  "ecs_process a =
     put_if (a_PID a \<noteq> 0) ''pid'' (GInt (uint (a_PID a))) @
     put_if (a_ProcessName a \<noteq> []) ''name'' (GStr (a_ProcessName a)) @
     put_if (a_CmdLine a \<noteq> []) ''command_line'' (GStr (a_CmdLine a)) @
     put_if (a_ParentName a \<noteq> []) ''parent'' (GMap [(''name'', GStr (a_ParentName a))])"

definition ecs_threat :: "alert \<Rightarrow> (string \<times> gval) list" where
  "ecs_threat a =
     [(''framework'', GStr ''MITRE ATT&CK'')] @
     put_if (a_MITRETactic a \<noteq> []) ''tactic'' (GMap [(''name'', GStr (a_MITRETactic a))]) @
     put_if (a_MITRETTP a \<noteq> []) ''technique'' (GMap [(''id'', GStr (a_MITRETTP a))])"

definition ecs_vendor :: "alert \<Rightarrow> (string \<times> gval) list" where
  "ecs_vendor a =
     [(''rule_id'', GStr (a_RuleID a)), (''scope'', GStr (scopeOrDefault a))] @
     put_if (a_Syscall a \<noteq> []) ''syscall'' (GStr (a_Syscall a)) @
     put_if (a_Ancestry a \<noteq> []) ''ancestry'' (GStrs (a_Ancestry a)) @
     put_if (a_KillChainPhase a \<noteq> []) ''kill_chain_phase'' (GStr (a_KillChainPhase a)) @
     put_if (0 < a_RiskScore a) ''risk_score'' (GInt (a_RiskScore a)) @
     put_if (a_Details a \<noteq> []) ''details'' (GMap (a_Details a))"

definition ECS :: "alert \<Rightarrow> (string \<times> gval) list" where
  "ECS a =
     [(''@timestamp'', GStr (format_utc_millis (a_Timestamp a))),
      (''message'', GStr (a_Reason a)),
      (''ecs'', GMap [(''version'', GStr ''8.11.0'')]),
      (''event'', GMap [(''kind'', GStr ''alert''), (''category'', GStrs [''intrusion_detection'']),
         (''type'', GStrs [ecsEventType a]), (''severity'', GInt (ecsSeverity (a_Severity a))),
         (''action'', GStr (a_RuleID a)), (''reason'', GStr (a_Reason a)),
         (''module'', GStr ''kernelwatch''), (''provider'', GStr ''ebpf'')]),
      (''host'', GMap [(''name'', GStr (a_ServerName a))]),
      (''observer'', GMap [(''product'', GStr ''KernelWatch''), (''type'', GStr ''hids''),
         (''vendor'', GStr ''KernelWatch'')])] @
     put_if (ecs_container a \<noteq> []) ''container'' (GMap (ecs_container a)) @
     put_if (ecs_process a \<noteq> []) ''process'' (GMap (ecs_process a)) @
     put_if (a_MITRETTP a \<noteq> [] \<or> a_MITRETactic a \<noteq> []) ''threat'' (GMap (ecs_threat a)) @
     put_if (a_Tags a \<noteq> []) ''tags'' (GStrs (a_Tags a)) @
     [(''kernelwatch'', GMap (ecs_vendor a))]"

section \<open>Reading a document\<close>

fun lookup_path :: "string list \<Rightarrow> (string \<times> gval) list \<Rightarrow> gval option" where
  "lookup_path [] m = None"
| "lookup_path [k] m = map_of m k"
| "lookup_path (k # k' # ks) m =
     (case map_of m k of Some (GMap m') \<Rightarrow> lookup_path (k' # ks) m' | _ \<Rightarrow> None)"

definition read_str :: "string list \<Rightarrow> (string \<times> gval) list \<Rightarrow> string" where
  "read_str p m = (case lookup_path p m of Some (GStr s) \<Rightarrow> s | _ \<Rightarrow> [])"

definition read_strs :: "string list \<Rightarrow> (string \<times> gval) list \<Rightarrow> string list" where
  "read_strs p m = (case lookup_path p m of Some (GStrs s) \<Rightarrow> s | _ \<Rightarrow> [])"

definition read_int :: "string list \<Rightarrow> (string \<times> gval) list \<Rightarrow> int" where
  "read_int p m = (case lookup_path p m of Some (GInt n) \<Rightarrow> n | _ \<Rightarrow> 0)"

definition read_map :: "string list \<Rightarrow> (string \<times> gval) list \<Rightarrow> (string \<times> gval) list" where
  "read_map p m = (case lookup_path p m of Some (GMap n) \<Rightarrow> n | _ \<Rightarrow> [])"

lemmas read_defs = read_str_def read_strs_def read_int_def read_map_def

lemma map_of_put_if [simp]:
  "map_of (put_if c k v @ m) l = (if c \<and> k = l then Some v else map_of m l)"
  "map_of (put_if c k v) l = (if c \<and> k = l then Some v else None)"
  by (simp_all add: put_if_def)

declare map_of_append [simp del]

text \<open>The severity band, read back.\<close>

definition severity_of_band :: "int \<Rightarrow> severity" where
  "severity_of_band n =
     (if n = 99 then SeverityCritical else if n = 73 then SeverityHigh
      else if n = 47 then SeverityMedium else SeverityLow)"

text \<open>The alert a consumer can rebuild from a document.\<close>

definition alert_of_ECS :: "(string \<times> gval) list \<Rightarrow> alert" where
  "alert_of_ECS m = empty_alert\<lparr>
     a_RuleID := read_str [''event'', ''action''] m, a_ServerName := read_str [''host'', ''name''] m,
     a_Severity := severity_of_band (read_int [''event'', ''severity''] m),
     a_Scope := read_str [''kernelwatch'', ''scope''] m,
     a_ContainerID := read_str [''container'', ''id''] m,
     a_ContainerName := read_str [''container'', ''name''] m,
     a_ImageName := read_str [''container'', ''image'', ''name''] m,
     a_Syscall := read_str [''kernelwatch'', ''syscall''] m,
     a_PID := word_of_int (read_int [''process'', ''pid''] m),
     a_ProcessName := read_str [''process'', ''name''] m, a_Reason := read_str [''message''] m,
     a_Details := read_map [''kernelwatch'', ''details''] m,
     a_ParentName := read_str [''process'', ''parent'', ''name''] m,
     a_Ancestry := read_strs [''kernelwatch'', ''ancestry''] m,
     a_CmdLine := read_str [''process'', ''command_line''] m,
     a_MITRETTP := read_str [''threat'', ''technique'', ''id''] m,
     a_MITRETactic := read_str [''threat'', ''tactic'', ''name''] m,
     a_Tags := read_strs [''tags''] m,
     a_KillChainPhase := read_str [''kernelwatch'', ''kill_chain_phase''] m,
     a_RiskScore := read_int [''kernelwatch'', ''risk_score''] m\<rparr>"

lemma ECS_sections:
  "map_of (ECS a) ''container'' = (if ecs_container a = [] then None else Some (GMap (ecs_container a)))"
  "map_of (ECS a) ''process'' = (if ecs_process a = [] then None else Some (GMap (ecs_process a)))"
  "map_of (ECS a) ''threat'' = (if a_MITRETTP a = [] \<and> a_MITRETactic a = [] then None else Some (GMap (ecs_threat a)))"
  "map_of (ECS a) ''tags'' = (if a_Tags a = [] then None else Some (GStrs (a_Tags a)))"
  "map_of (ECS a) ''kernelwatch'' = Some (GMap (ecs_vendor a))"
  by (simp_all add: ECS_def)

lemma ECS_top:
  "read_str [''event'', ''action''] (ECS a) = a_RuleID a"
  "read_int [''event'', ''severity''] (ECS a) = ecsSeverity (a_Severity a)"
  "read_str [''message''] (ECS a) = a_Reason a"
  "read_str [''host'', ''name''] (ECS a) = a_ServerName a"
  "read_strs [''tags''] (ECS a) = a_Tags a"
  by (simp_all add: read_defs ECS_def)

lemma ECS_container:
  "read_str [''container'', ''id''] (ECS a) = a_ContainerID a"
  "read_str [''container'', ''name''] (ECS a) = a_ContainerName a"
  "read_str [''container'', ''image'', ''name''] (ECS a) = a_ImageName a"
  by (auto simp: read_defs ECS_sections ecs_container_def) (auto simp: put_if_def)

lemma ECS_process:
  "word_of_int (read_int [''process'', ''pid''] (ECS a)) = a_PID a"
  "read_str [''process'', ''name''] (ECS a) = a_ProcessName a"
  "read_str [''process'', ''command_line''] (ECS a) = a_CmdLine a"
  "read_str [''process'', ''parent'', ''name''] (ECS a) = a_ParentName a"
  by (auto simp: read_defs ECS_sections ecs_process_def) (auto simp: put_if_def split: if_splits)

lemma ECS_threat:
  "read_str [''threat'', ''technique'', ''id''] (ECS a) = a_MITRETTP a"
  "read_str [''threat'', ''tactic'', ''name''] (ECS a) = a_MITRETactic a"
  by (auto simp: read_defs ECS_sections ecs_threat_def)

lemma ECS_vendor:
  "read_str [''kernelwatch'', ''scope''] (ECS a) = scopeOrDefault a"
  "read_str [''kernelwatch'', ''syscall''] (ECS a) = a_Syscall a"
  "read_strs [''kernelwatch'', ''ancestry''] (ECS a) = a_Ancestry a"
  "read_str [''kernelwatch'', ''kill_chain_phase''] (ECS a) = a_KillChainPhase a"
  "read_int [''kernelwatch'', ''risk_score''] (ECS a) = max 0 (a_RiskScore a)"
  "read_map [''kernelwatch'', ''details''] (ECS a) = a_Details a"
  by (auto simp: read_defs ECS_sections ecs_vendor_def)

lemma severity_band:
  "s \<in> {SeverityLow, SeverityMedium, SeverityHigh, SeverityCritical} \<Longrightarrow> severity_of_band (ecsSeverity s) = s"
  by (auto simp: severity_of_band_def ecsSeverity_def severity_defs)

section \<open>Property\<close>

text \<open>
  C33. The ECS form keeps the alert: from the document of an alert with one of the four severities and a
  risk score that is not negative a SIEM can rebuild the alert, up to its id and the exact time; an
  empty scope reads as \<open>container\<close>.
\<close>

theorem ECS_keeps_alert:
  assumes "a_Severity a \<in> {SeverityLow, SeverityMedium, SeverityHigh, SeverityCritical}" and "0 \<le> a_RiskScore a"
  shows "alert_of_ECS (ECS a) = a\<lparr>a_ID := [], a_Timestamp := 0, a_Scope := scopeOrDefault a\<rparr>"
  using assms severity_band [OF assms(1)]
  by (cases a) (simp add: alert_of_ECS_def empty_alert_def ECS_top ECS_container ECS_process ECS_threat ECS_vendor)

theorem ECS_keeps_alert_witness:
  "alert_of_ECS (ECS (empty_alert\<lparr>a_Severity := SeverityHigh, a_PID := 7, a_Tags := [''ssh'']\<rparr>)) =
   empty_alert\<lparr>a_Severity := SeverityHigh, a_PID := 7, a_Tags := [''ssh''], a_Scope := ''container''\<rparr>"
  using ECS_keeps_alert [of "empty_alert\<lparr>a_Severity := SeverityHigh, a_PID := 7, a_Tags := [''ssh'']\<rparr>"]
  by (simp add: empty_alert_def scopeOrDefault_def ScopeContainerName_def)


declare map_of_append [simp]

end
