(* ===== verification/Alerter.thy ===== *)
theory Alerter
  imports ECS RateLimit
begin

text \<open>
  The dispatcher of \<open>internal/alerter/alerter.go\<close>: \<open>New\<close>, \<open>Send\<close> with the severity filter and the
  rate limiter, the log file and its rotation, and \<open>genID\<close>. The clock readings, the random bytes, the
  success of the file operations and \<open>json.Marshal\<close> are parameters. The goroutines \<open>Send\<close> starts are
  the values of type \<open>dispatch\<close> it returns; its locks are not modelled. The log on standard output is
  left out.
\<close>

datatype payload_doc = DocAlert alert | DocECS "(string \<times> gval) list"

datatype dispatch = ToSink alert | ToWebhook alert | ToSlack alert

datatype alerter_err = CreateLogDir | OpenLogFile

record alerter =
  al_cfg :: config
  al_sink :: bool
  al_logOpen :: bool
  al_logBytes :: int
  al_rateMap :: "(string \<times> time list) list"
  al_fs :: files

definition alerter_New :: "config \<Rightarrow> bool \<Rightarrow> bool \<Rightarrow> bool \<Rightarrow> files \<Rightarrow> (alerter_err, alerter) res" where
  "alerter_New cfg sink mkdirOk openOk fs =
     (let a = \<lparr>al_cfg = cfg, al_sink = sink, al_logOpen = False, al_logBytes = 0, al_rateMap = [], al_fs = fs\<rparr>
      in if cfg_LogEnabled cfg then
           (if \<not> mkdirOk then Inl CreateLogDir
            else if \<not> openOk then Inl OpenLogFile
            else (let fs' = create_file (cfg_LogPath cfg) fs
                  in Inr (a\<lparr>al_logOpen := True, al_fs := fs',
                       al_logBytes := int (length (the (fs' (cfg_LogPath cfg))))\<rparr>)))
         else Inr a)"

section \<open>Log rotation\<close>

definition backup :: "string \<Rightarrow> nat \<Rightarrow> string" where
  "backup path i = path @ ''.'' @ show_nat i"

text \<open>The loop \<open>for i := N - 1; i >= 1; i--\<close>.\<close>

fun shift_backups :: "string \<Rightarrow> nat \<Rightarrow> files \<Rightarrow> files" where
  "shift_backups path 0 fs = fs"
| "shift_backups path (Suc i) fs =
     shift_backups path i (rename_file (backup path (Suc i)) (backup path (Suc (Suc i))) fs)"

definition rotate_files :: "string \<Rightarrow> int \<Rightarrow> files \<Rightarrow> files" where
  "rotate_files path maxBackups fs =
     (if 0 < maxBackups then
        rename_file path (backup path 1)
          (shift_backups path (nat maxBackups - 1) (remove_file (backup path (nat maxBackups)) fs))
      else remove_file path fs)"

definition rotateIfNeeded :: "bool \<Rightarrow> alerter \<Rightarrow> alerter" where
  "rotateIfNeeded openOk a =
     (let maxBytes = wrap64 (wrap64 (cfg_LogMaxMB (al_cfg a) * 1024) * 1024)
      in if maxBytes \<le> 0 \<or> al_logBytes a < maxBytes \<or> \<not> al_logOpen a then a
         else (let path = cfg_LogPath (al_cfg a);
                   fs = rotate_files path (cfg_LogMaxBackups (al_cfg a)) (al_fs a)
               in if \<not> openOk then a\<lparr>al_logOpen := False, al_fs := fs\<rparr>
                  else a\<lparr>al_logBytes := 0, al_fs := create_file path fs\<rparr>))"

section \<open>Send\<close>

definition payload :: "config \<Rightarrow> (payload_doc \<Rightarrow> string option) \<Rightarrow> alert \<Rightarrow> string option" where
  "payload cfg marshal al =
     (if equal_fold (cfg_AlertFormat cfg) ''ecs'' then marshal (DocECS (ECS al)) else marshal (DocAlert al))"

definition writeLog :: "(payload_doc \<Rightarrow> string option) \<Rightarrow> bool \<Rightarrow> alert \<Rightarrow> alerter \<Rightarrow> alerter" where
  "writeLog marshal openOk al a =
     (case payload (al_cfg a) marshal al of
        None \<Rightarrow> a
      | Some data \<Rightarrow>
          if al_logOpen a then
            rotateIfNeeded openOk
              (a\<lparr>al_fs := append_file (cfg_LogPath (al_cfg a)) (data @ [CHR 0x0A]) (al_fs a),
                 al_logBytes := wrap64 (al_logBytes a + int (length data + 1))\<rparr>)
          else a)"

definition genID :: "8 word list option \<Rightarrow> time \<Rightarrow> string" where
  "genID random now =
     (case random of
        Some bs \<Rightarrow> hex_encode bs
      | None \<Rightarrow> ''ts-'' @ show_int (now - 62135596800 * 1000000000))"

definition stamp_alert :: "config \<Rightarrow> 8 word list option \<Rightarrow> time \<Rightarrow> alert \<Rightarrow> alert" where
  "stamp_alert cfg random now al =
     (let al1 = al\<lparr>a_ServerName := cfg_ServerName cfg\<rparr>;
          al2 = (if is_zero_time (a_Timestamp al1) then al1\<lparr>a_Timestamp := now\<rparr> else al1)
      in if a_ID al2 = [] then al2\<lparr>a_ID := genID random now\<rparr> else al2)"

text \<open>The part of \<open>Send\<close> that decides: whether the alert is dropped, and the rate map after.\<close>

definition send_filter :: "alerter \<Rightarrow> alert \<Rightarrow> time \<Rightarrow> time \<Rightarrow> bool \<times> alerter" where
  "send_filter a al now1 now2 =
     (if IsIncident al then (False, a)
      else if severityRank (a_Severity al) < severityRank (cfg_AlertMinSeverity (al_cfg a)) then (True, a)
      else (let (lim, rm) = isRateLimited (al_cfg a) (al_rateMap a) (a_ContainerID al) now1 now2
            in (lim, a\<lparr>al_rateMap := rm\<rparr>)))"

definition Send :: "(payload_doc \<Rightarrow> string option) \<Rightarrow> bool \<Rightarrow> 8 word list option \<Rightarrow> (nat \<Rightarrow> time) \<Rightarrow>
    alert \<Rightarrow> alerter \<Rightarrow> dispatch list \<times> alert \<times> alerter" where
  "Send marshal openOk random clock al0 a =
     (let al = stamp_alert (al_cfg a) random (clock 0) al0;
          (dropped, a1) = send_filter a al (clock 1) (clock 2)
      in if dropped then ([], al, a1)
         else (let a2 = (if cfg_LogEnabled (al_cfg a1) then writeLog marshal openOk al a1 else a1);
                   sink = (if al_sink a2 then [ToSink al] else [])
               in if cfg_Mode (al_cfg a2) = ''monitor'' then (sink, al, a2)
                  else (sink @ (if cfg_WebhookEnabled (al_cfg a2) then [ToWebhook al] else []) @
                        (if cfg_SlackEnabled (al_cfg a2) then [ToSlack al] else []), al, a2)))"

lemma writeLog_keeps [simp]:
  "al_cfg (writeLog marshal openOk x b) = al_cfg b" "al_sink (writeLog marshal openOk x b) = al_sink b"
  "al_rateMap (writeLog marshal openOk x b) = al_rateMap b"
  by (simp_all add: writeLog_def rotateIfNeeded_def Let_def split: option.splits)

section \<open>Facts on rotation\<close>

lemma backup_inj [simp]: "backup path i = backup path j \<longleftrightarrow> i = j"
  by (simp add: backup_def show_nat_inj)

lemma backup_neq [simp]: "backup path i \<noteq> path" "path \<noteq> backup path i"
  by (simp_all add: backup_def)

lemma rename_file_apply:
  "p \<noteq> q \<Longrightarrow> rename_file p q fs r =
    (if fs p = None then fs r else if r = q then fs p else if r = p then None else fs r)"
  by (auto simp: rename_file_def split: option.splits)

lemma shift_backups_all:
  "fs (backup path (Suc n)) = None \<Longrightarrow>
   (\<forall>i. 1 \<le> i \<and> i \<le> n \<longrightarrow> shift_backups path n fs (backup path (Suc i)) = fs (backup path i)) \<and>
   (0 < n \<longrightarrow> shift_backups path n fs (backup path 1) = None) \<and>
   (\<forall>r. (\<forall>j. 1 \<le> j \<and> j \<le> Suc n \<longrightarrow> r \<noteq> backup path j) \<longrightarrow> shift_backups path n fs r = fs r)"
proof (induction n arbitrary: fs)
  case (Suc n)
  let ?f = "rename_file (backup path (Suc n)) (backup path (Suc (Suc n))) fs"
  have f: "?f s = (if s = backup path (Suc (Suc n)) then fs (backup path (Suc n))
      else if s = backup path (Suc n) then None else fs s)" for s
    using Suc.prems by (auto simp: rename_file_apply)
  have none: "?f (backup path (Suc n)) = None" by (simp add: f)
  note IH = Suc.IH [where fs = ?f, OF none]
  have other: "shift_backups path n ?f r = ?f r" if "\<forall>j. 1 \<le> j \<and> j \<le> Suc n \<longrightarrow> r \<noteq> backup path j" for r
    using IH that by blast
  have "shift_backups path n ?f (backup path (Suc i)) = fs (backup path i)" if "1 \<le> i" "i \<le> Suc n" for i
  proof (cases "i = Suc n")
    case True
    with other [of "backup path (Suc (Suc n))"] show ?thesis by (simp add: f)
  next
    case False
    with that have "shift_backups path n ?f (backup path (Suc i)) = ?f (backup path i)" using IH by simp
    with False that show ?thesis by (simp add: f)
  qed
  moreover have "shift_backups path n ?f (backup path 1) = None"
    using IH none by (cases "n = 0") simp_all
  moreover have "shift_backups path n ?f r = fs r" if "\<forall>j. 1 \<le> j \<and> j \<le> Suc (Suc n) \<longrightarrow> r \<noteq> backup path j" for r
    using other [of r] that by (simp add: f)
  ultimately show ?case by simp
qed simp

lemma shift_backups_apply:
  assumes "fs (backup path (Suc n)) = None"
  shows "1 \<le> i \<Longrightarrow> i \<le> n \<Longrightarrow> shift_backups path n fs (backup path (Suc i)) = fs (backup path i)"
    and "0 < n \<Longrightarrow> shift_backups path n fs (backup path 1) = None"
    and "(\<And>j. 1 \<le> j \<Longrightarrow> j \<le> Suc n \<Longrightarrow> r \<noteq> backup path j) \<Longrightarrow> shift_backups path n fs r = fs r"
  using shift_backups_all [where fs = fs and path = path and n = n, OF assms] by blast+

text \<open>The files after a rotation with backups.\<close>

lemma rotate_files_apply:
  assumes "0 < maxBackups"
  defines "n \<equiv> nat maxBackups"
  shows "rotate_files path maxBackups fs path = None"
    and "fs path \<noteq> None \<Longrightarrow> rotate_files path maxBackups fs (backup path 1) = fs path"
    and "1 \<le> i \<Longrightarrow> i < n \<Longrightarrow> rotate_files path maxBackups fs (backup path (Suc i)) = fs (backup path i)"
    and "r \<noteq> path \<Longrightarrow> (\<And>i. 1 \<le> i \<Longrightarrow> i \<le> n \<Longrightarrow> r \<noteq> backup path i) \<Longrightarrow> rotate_files path maxBackups fs r = fs r"
proof -
  have n: "0 < n" using assms by simp
  define f1 where "f1 = remove_file (backup path n) fs"
  define f2 where "f2 = shift_backups path (n - 1) f1"
  have rot: "rotate_files path maxBackups fs = rename_file path (backup path 1) f2"
    using assms(1) by (simp add: rotate_files_def f1_def f2_def n_def)
  have f1: "f1 r = (if r = backup path n then None else fs r)" for r by (simp add: f1_def remove_file_def)
  have "f1 (backup path (Suc (n - 1))) = None" using n by (simp add: f1)
  note shift = shift_backups_apply [where fs = f1 and n = "n - 1" and path = path, OF this, folded f2_def]
  have "f2 path = fs path" using shift(3) [of path] by (simp add: f1)
  moreover have "f2 (backup path (Suc i)) = fs (backup path i)" if "1 \<le> i" "i < n" for i
    using shift(1) [of i] that by (simp add: f1)
  moreover have "f2 r = fs r" if "\<And>i. 1 \<le> i \<Longrightarrow> i \<le> n \<Longrightarrow> r \<noteq> backup path i" for r
    using shift(3) [of r] that n by (simp add: f1)
  ultimately show "rotate_files path maxBackups fs path = None"
    and "fs path \<noteq> None \<Longrightarrow> rotate_files path maxBackups fs (backup path 1) = fs path"
    and "1 \<le> i \<Longrightarrow> i < n \<Longrightarrow> rotate_files path maxBackups fs (backup path (Suc i)) = fs (backup path i)"
    and "r \<noteq> path \<Longrightarrow> (\<And>i. 1 \<le> i \<Longrightarrow> i \<le> n \<Longrightarrow> r \<noteq> backup path i) \<Longrightarrow> rotate_files path maxBackups fs r = fs r"
    unfolding rot using n by (auto simp: rename_file_apply)
qed


section \<open>Sequences of alerts\<close>

text \<open>\<open>Send\<close> on each alert of a list; the environment gives the random bytes and the clock of each call.\<close>

fun send_all :: "(payload_doc \<Rightarrow> string option) \<Rightarrow> (nat \<Rightarrow> 8 word list option) \<Rightarrow> (nat \<Rightarrow> nat \<Rightarrow> time) \<Rightarrow>
    nat \<Rightarrow> alert list \<Rightarrow> alerter \<Rightarrow> dispatch list \<times> alerter" where
  "send_all marshal random clock n [] a = ([], a)"
| "send_all marshal random clock n (al # als) a =
     (let (ds, _, a1) = Send marshal True (random n) (clock n) al a;
          (ds', a2) = send_all marshal random clock (Suc n) als a1
      in (ds @ ds', a2))"

definition persisted :: "dispatch list \<Rightarrow> alert list" where
  "persisted ds = concat (map (\<lambda>d. case d of ToSink al \<Rightarrow> [al] | _ \<Rightarrow> []) ds)"

definition log_line :: "config \<Rightarrow> (payload_doc \<Rightarrow> string option) \<Rightarrow> alert \<Rightarrow> string" where
  "log_line cfg marshal al = the (payload cfg marshal al) @ [CHR 0x0A]"

lemma persisted_simps [simp]:
  "persisted [] = []" "persisted (ToSink al # ds) = al # persisted ds"
  "persisted (ToWebhook al # ds) = persisted ds" "persisted (ToSlack al # ds) = persisted ds"
  "persisted (ds @ ds') = persisted ds @ persisted ds'"
  by (simp_all add: persisted_def)

lemma send_filter_keeps:
  "send_filter a al t1 t2 = (dropped, a1) \<Longrightarrow>
   al_cfg a1 = al_cfg a \<and> al_sink a1 = al_sink a \<and> al_logOpen a1 = al_logOpen a \<and> al_fs a1 = al_fs a"
  by (auto simp: send_filter_def split: if_splits prod.splits)

lemma writeLog_no_rotation:
  assumes "al_logOpen a" and "cfg_LogMaxMB (al_cfg a) = 0" and "payload (al_cfg a) marshal al = Some data"
  shows "writeLog marshal openOk al a =
    a\<lparr>al_fs := append_file (cfg_LogPath (al_cfg a)) (data @ [CHR 0x0A]) (al_fs a),
      al_logBytes := wrap64 (al_logBytes a + int (length data + 1))\<rparr>"
  using assms by (simp add: writeLog_def rotateIfNeeded_def wrap64_def)

lemma send_logged:
  assumes "cfg_LogEnabled (al_cfg a)" and "al_logOpen a" and "al_sink a" and "cfg_LogMaxMB (al_cfg a) = 0"
    and "\<And>al. payload (al_cfg a) marshal al \<noteq> None" and "al_fs a (cfg_LogPath (al_cfg a)) = Some content"
    and "Send marshal openOk random clock al0 a = (ds, al, a')"
  shows "al_cfg a' = al_cfg a \<and> al_sink a' \<and> al_logOpen a' \<and>
    al_fs a' (cfg_LogPath (al_cfg a)) =
      Some (content @ concat (map (log_line (al_cfg a) marshal) (persisted ds)))"
proof -
  obtain dropped a1 where f: "send_filter a (stamp_alert (al_cfg a) random (clock 0) al0) (clock 1) (clock 2) = (dropped, a1)"
    by fastforce
  note keep = send_filter_keeps [OF f]
  show ?thesis
  proof (cases dropped)
    case True
    with assms f keep show ?thesis by (simp add: Send_def Let_def)
  next
    case False
    obtain data where data: "payload (al_cfg a) marshal (stamp_alert (al_cfg a) random (clock 0) al0) = Some data"
      using assms(5) by blast
    with keep assms have w: "writeLog marshal openOk (stamp_alert (al_cfg a) random (clock 0) al0) a1 =
        a1\<lparr>al_fs := append_file (cfg_LogPath (al_cfg a)) (data @ [CHR 0x0A]) (al_fs a),
          al_logBytes := wrap64 (al_logBytes a1 + int (length data + 1))\<rparr>"
      using writeLog_no_rotation [of a1 marshal "stamp_alert (al_cfg a) random (clock 0) al0" data openOk] by simp
    from False assms f keep data show ?thesis
      by (auto simp: Send_def Let_def w append_file_def log_line_def split: if_splits)
  qed
qed

lemma send_all_logged:
  assumes "cfg_LogEnabled (al_cfg a)" and "al_logOpen a" and "al_sink a" and "cfg_LogMaxMB (al_cfg a) = 0"
    and "\<And>al. payload (al_cfg a) marshal al \<noteq> None" and "al_fs a (cfg_LogPath (al_cfg a)) = Some content"
  shows "al_fs (snd (send_all marshal random clock n als a)) (cfg_LogPath (al_cfg a)) =
    Some (content @ concat (map (log_line (al_cfg a) marshal) (persisted (fst (send_all marshal random clock n als a)))))"
  using assms
proof (induction als arbitrary: n a content)
  case (Cons al als)
  obtain ds al' a1 where s: "Send marshal True (random n) (clock n) al a = (ds, al', a1)" by (metis prod_cases3)
  note first = send_logged [OF Cons.prems s]
  obtain ds' a2 where r: "send_all marshal random clock (Suc n) als a1 = (ds', a2)" by fastforce
  have "al_fs (snd (send_all marshal random clock (Suc n) als a1)) (cfg_LogPath (al_cfg a1)) =
      Some ((content @ concat (map (log_line (al_cfg a) marshal) (persisted ds))) @
        concat (map (log_line (al_cfg a1) marshal) (persisted (fst (send_all marshal random clock (Suc n) als a1)))))"
    by (rule Cons.IH) (use first Cons.prems in simp_all)
  with first s r show ?case by simp
qed simp

section \<open>Properties\<close>

text \<open>
  The log is a complete record: with the log on and no rotation, after any sequence of alerts the file
  holds, after its old content, one line for each alert handed to the database and to the external
  destinations, in that order, and nothing else.
\<close>

theorem log_records_sent:
  assumes "cfg_LogEnabled (al_cfg a)" and "al_logOpen a" and "al_sink a" and "cfg_LogMaxMB (al_cfg a) = 0"
    and "\<And>al. payload (al_cfg a) marshal al \<noteq> None" and "al_fs a (cfg_LogPath (al_cfg a)) = Some content"
  shows "al_fs (snd (send_all marshal random clock n als a)) (cfg_LogPath (al_cfg a)) =
    Some (content @ concat (map (log_line (al_cfg a) marshal) (persisted (fst (send_all marshal random clock n als a)))))"
  by (rule send_all_logged [OF assms])

definition ex_alerter :: alerter where
  "ex_alerter = \<lparr>al_cfg = (load_fields (\<lambda>_. []))\<lparr>cfg_LogEnabled := True, cfg_LogPath := ''log'', cfg_LogMaxMB := 0\<rparr>,
     al_sink = True, al_logOpen = True, al_logBytes = 4, al_rateMap = [], al_fs = (\<lambda>p. if p = ''log'' then Some ''old'' else None)\<rparr>"

theorem log_records_sent_witness:
  "let r = send_all (\<lambda>_. Some ''{}'') (\<lambda>_. Some [1]) (\<lambda>_ _. 9) 0 [empty_alert\<lparr>a_Severity := SeverityCritical\<rparr>] ex_alerter
   in al_fs (snd r) ''log'' = Some (''old'' @ concat (map (log_line (al_cfg ex_alerter) (\<lambda>_. Some ''{}'')) (persisted (fst r)))) \<and>
      length (persisted (fst r)) = 1"
proof -
  let ?als = "[empty_alert\<lparr>a_Severity := SeverityCritical\<rparr>]"
  let ?r = "send_all (\<lambda>_. Some ''{}'') (\<lambda>_. Some [1]) (\<lambda>_ _. 9) 0 ?als ex_alerter"
  have path: "cfg_LogPath (al_cfg ex_alerter) = ''log''" by (simp add: ex_alerter_def)
  have "al_fs (snd ?r) (cfg_LogPath (al_cfg ex_alerter)) =
      Some (''old'' @ concat (map (log_line (al_cfg ex_alerter) (\<lambda>_. Some ''{}'')) (persisted (fst ?r))))"
    by (rule log_records_sent) (simp_all add: ex_alerter_def payload_def)
  moreover have "length (persisted (fst ?r)) = 1" by code_simp
  ultimately show ?thesis unfolding path Let_def by blast
qed

text \<open>
  Correlated incidents are never dropped and never throttle findings: whatever the configured minimum
  severity and the rate map, an incident goes to the database and, except in monitor mode, to every
  destination that is on, with its identity stamped, and the rate map stays as it is. In monitor mode
  nothing leaves for an external destination.
\<close>

theorem incident_always_sent:
  assumes "IsIncident al0" and "Send marshal openOk random clock al0 a = (ds, al, a')"
  shows "al = stamp_alert (al_cfg a) random (clock 0) al0 \<and> al_rateMap a' = al_rateMap a \<and>
    (al_sink a \<longrightarrow> ToSink al \<in> set ds) \<and>
    (if cfg_Mode (al_cfg a) = ''monitor'' then set ds \<subseteq> {ToSink al}
     else (cfg_WebhookEnabled (al_cfg a) \<longrightarrow> ToWebhook al \<in> set ds) \<and>
          (cfg_SlackEnabled (al_cfg a) \<longrightarrow> ToSlack al \<in> set ds))"
proof -
  have inc: "IsIncident (stamp_alert (al_cfg a) random (clock 0) al0)"
    using assms(1) by (simp add: IsIncident_def stamp_alert_def Let_def)
  from assms(2) inc show ?thesis
    by (auto simp: Send_def send_filter_def Let_def split: if_splits)
qed

theorem incident_always_sent_witness:
  "ToSlack (stamp_alert ((al_cfg ex_alerter)\<lparr>cfg_SlackEnabled := True\<rparr>) None 9 (empty_alert\<lparr>a_Tags := [TagAttackChain]\<rparr>)) \<in>
   set (fst (Send (\<lambda>_. None) True None (\<lambda>_. 9) (empty_alert\<lparr>a_Tags := [TagAttackChain]\<rparr>)
     (ex_alerter\<lparr>al_cfg := (al_cfg ex_alerter)\<lparr>cfg_SlackEnabled := True\<rparr>\<rparr>)))"
proof -
  let ?a = "ex_alerter\<lparr>al_cfg := (al_cfg ex_alerter)\<lparr>cfg_SlackEnabled := True\<rparr>\<rparr>"
  let ?al = "empty_alert\<lparr>a_Tags := [TagAttackChain]\<rparr>"
  obtain ds al a' where s: "Send (\<lambda>_. None) True None (\<lambda>_. 9) ?al ?a = (ds, al, a')" by (metis prod_cases3)
  have "IsIncident ?al" by (simp add: IsIncident_def)
  moreover have "cfg_Mode (al_cfg ex_alerter) = ''alert''" by code_simp
  ultimately show ?thesis using incident_always_sent [OF _ s] s by auto
qed

text \<open>
  Rotation loses only the oldest backup: when the log has reached its limit, the log becomes backup 1,
  each backup below the configured number moves up by one, no other file is touched, and a new empty log
  is open.
\<close>

theorem rotation_shifts_backups:
  assumes "al_logOpen a" and "0 < cfg_LogMaxBackups (al_cfg a)" and "0 < cfg_LogMaxMB (al_cfg a)"
    and "cfg_LogMaxMB (al_cfg a) < 2 ^ 43" and "cfg_LogMaxMB (al_cfg a) * 1048576 \<le> al_logBytes a"
    and "al_fs a (cfg_LogPath (al_cfg a)) = Some content"
  shows "let path = cfg_LogPath (al_cfg a); n = nat (cfg_LogMaxBackups (al_cfg a)); a' = rotateIfNeeded True a
    in al_fs a' path = Some [] \<and> al_logBytes a' = 0 \<and> al_logOpen a' \<and> al_fs a' (backup path 1) = Some content \<and>
       (\<forall>i. 1 \<le> i \<and> i < n \<longrightarrow> al_fs a' (backup path (Suc i)) = al_fs a (backup path i)) \<and>
       (\<forall>r. r \<noteq> path \<and> r \<notin> backup path ` {1..n} \<longrightarrow> al_fs a' r = al_fs a r)"
proof -
  let ?path = "cfg_LogPath (al_cfg a)" and ?m = "cfg_LogMaxBackups (al_cfg a)"
  have "wrap64 (wrap64 (cfg_LogMaxMB (al_cfg a) * 1024) * 1024) = cfg_LogMaxMB (al_cfg a) * 1048576"
    using assms(3,4) by (simp add: wrap64_id)
  then have r: "rotateIfNeeded True a =
      a\<lparr>al_logBytes := 0, al_fs := create_file ?path (rotate_files ?path ?m (al_fs a))\<rparr>"
    using assms by (simp add: rotateIfNeeded_def Let_def)
  note files = rotate_files_apply [OF assms(2), where path = ?path and fs = "al_fs a"]
  have "create_file ?path (rotate_files ?path ?m (al_fs a)) = (rotate_files ?path ?m (al_fs a))(?path \<mapsto> [])"
    by (simp add: create_file_def files(1))
  moreover have "rotate_files ?path ?m (al_fs a) r = al_fs a r"
    if "r \<noteq> ?path" "r \<notin> backup ?path ` {1..nat ?m}" for r
    using that by (intro files(4)) auto
  ultimately show ?thesis using r files(2,3) assms(1,6) by (auto simp: Let_def)
qed

theorem rotation_shifts_backups_witness:
  "let a = ex_alerter\<lparr>al_cfg := (al_cfg ex_alerter)\<lparr>cfg_LogMaxMB := 1, cfg_LogMaxBackups := 2\<rparr>, al_logBytes := 1048576\<rparr>
   in al_fs (rotateIfNeeded True a) (backup ''log'' 1) = Some ''old'' \<and> al_fs (rotateIfNeeded True a) ''log'' = Some []"
  using rotation_shifts_backups [of "ex_alerter\<lparr>al_cfg := (al_cfg ex_alerter)\<lparr>cfg_LogMaxMB := 1, cfg_LogMaxBackups := 2\<rparr>,
     al_logBytes := 1048576\<rparr>" "''old''"]
  by (simp add: ex_alerter_def Let_def)

end
