(* ===== verification/Delivery.thy ===== *)
theory Delivery
  imports Alerter
begin

text \<open>
  External delivery, the webhook and Slack parts of \<open>internal/alerter/alerter.go\<close>: \<open>sendWebhook\<close> with its
  signature, \<open>postWithRetry\<close>, \<open>escapeSlack\<close> and the message \<open>sendSlack\<close> builds. The HTTP client is the
  function from the number of an attempt to its response; \<open>json.Marshal\<close> and HMAC-SHA256 are parameters.
\<close>

section \<open>Retries\<close>

datatype response = TransportError | Status nat

datatype post_err = BadURL | Transport | HTTPStatus nat

definition deliveryAttempts :: nat where
  "deliveryAttempts = 3"

text \<open>
  The loop, with the number of attempts left; it returns the error, if any, and the pause before each
  attempt made with its response.
\<close>

fun post_loop :: "bool \<Rightarrow> (nat \<Rightarrow> response) \<Rightarrow> nat \<Rightarrow> nat \<Rightarrow> post_err option \<Rightarrow>
    post_err option \<times> (duration \<times> response) list" where
  "post_loop urlOk resp 0 attempt lastErr = (lastErr, [])"
| "post_loop urlOk resp (Suc n) attempt lastErr =
     (let pause = (if 0 < attempt then int attempt * 500000000 else 0) in
      if \<not> urlOk then (Some BadURL, [])
      else
        (case resp attempt of
           TransportError \<Rightarrow>
             (let (err, tr) = post_loop urlOk resp n (Suc attempt) (Some Transport)
              in (err, (pause, TransportError) # tr))
         | Status st \<Rightarrow>
             if st < 400 then (None, [(pause, Status st)])
             else if st < 500 \<and> st \<noteq> 429 then (Some (HTTPStatus st), [(pause, Status st)])
             else (let (err, tr) = post_loop urlOk resp n (Suc attempt) (Some (HTTPStatus st))
                   in (err, (pause, Status st) # tr))))"

definition postWithRetry :: "bool \<Rightarrow> (nat \<Rightarrow> response) \<Rightarrow> post_err option \<times> (duration \<times> response) list" where
  "postWithRetry urlOk resp = post_loop urlOk resp deliveryAttempts 0 None"

section \<open>Webhook\<close>

record post =
  p_URL :: string
  p_Body :: string
  p_Header :: "(string \<times> string) list"

text \<open>The request of \<open>sendWebhook\<close>; nothing is sent when marshalling or the URL fails.\<close>

definition sendWebhook :: "config \<Rightarrow> (payload_doc \<Rightarrow> string option) \<Rightarrow> (string \<Rightarrow> bool) \<Rightarrow>
    (string \<Rightarrow> string \<Rightarrow> 8 word list) \<Rightarrow> alert \<Rightarrow> post option" where
  "sendWebhook cfg marshal urlOk hmac al =
     (case payload cfg marshal al of
        None \<Rightarrow> None
      | Some data \<Rightarrow>
          if \<not> urlOk (cfg_WebhookURL cfg) then None
          else Some \<lparr>p_URL = cfg_WebhookURL cfg, p_Body = data,
            p_Header = [(''Content-Type'', ''application/json''), (''User-Agent'', ''KernelWatch/1.0'')] @
              (if cfg_WebhookSecret cfg \<noteq> []
               then [(''X-KernelWatch-Signature'', ''sha256='' @ hex_encode (hmac (cfg_WebhookSecret cfg) data))]
               else [])\<rparr>)"

section \<open>Slack\<close>

text \<open>A replacer whose old strings are single bytes replaces each byte on its own.\<close>

definition slack_byte :: "char \<Rightarrow> string" where
  "slack_byte c =
     (if c = CHR ''&'' then ''&amp;'' else if c = CHR ''<'' then ''&lt;'' else if c = CHR ''>'' then ''&gt;''
      else if c = CHR 0x60 then [CHR 0xCA, CHR 0xBB]
      else if c = CHR 0x0A \<or> c = CHR 0x0D \<or> c = CHR 0x09 then '' ''
      else [c])"

definition escapeSlack :: "string \<Rightarrow> string" where
  "escapeSlack s = concat (map slack_byte s)"

definition slack_emoji :: "severity \<Rightarrow> string" where
  "slack_emoji s =
     (if s = SeverityLow then '':information_source:'' else if s = SeverityMedium then '':warning:''
      else if s = SeverityHigh then '':rotating_light:'' else if s = SeverityCritical then '':skull:''
      else [])"

definition tick :: string where
  "tick = [CHR 0x60]"

definition newline :: string where
  "newline = [CHR 0x0A]"

definition slack_text :: "alert \<Rightarrow> string" where
  "slack_text al =
     slack_emoji (a_Severity al) @ '' *['' @ to_upper (a_Severity al) @ '']* '' @ escapeSlack (a_Reason al) @
     newline @ ''>*Server:* '' @ escapeSlack (a_ServerName al) @ '' | *Container:* '' @
     tick @ escapeSlack (a_ContainerName al) @ tick @ '' ('' @ tick @ escapeSlack (a_ImageName al) @ tick @ '')'' @
     newline @ ''>*Process:* '' @ tick @ escapeSlack (a_ProcessName al) @ tick @
     '' (PID '' @ show_nat (unat (a_PID al)) @ '')'' @
     (if a_ParentName al \<noteq> [] then newline @ ''>*Parent:* '' @ tick @ escapeSlack (a_ParentName al) @ tick else []) @
     (if a_CmdLine al \<noteq> [] then newline @ ''>*Command:* '' @ tick @ escapeSlack (a_CmdLine al) @ tick else []) @
     (if a_MITRETTP al \<noteq> [] then newline @ ''>*MITRE:* '' @ escapeSlack (a_MITRETTP al) @ '' '' @
        [CHR 0xE2, CHR 0x80, CHR 0x94] @ '' '' @ escapeSlack (a_MITRETactic al) else [])"

record slack_payload =
  sp_Channel :: string
  sp_Username :: string
  sp_IconEmoji :: string
  sp_Blocks :: "(string \<times> (string \<times> string) option) list"

definition sendSlack :: "config \<Rightarrow> (slack_payload \<Rightarrow> string option) \<Rightarrow> alert \<Rightarrow> post option" where
  "sendSlack cfg marshal al =
     (case marshal \<lparr>sp_Channel = cfg_SlackChannel cfg, sp_Username = ''KernelWatch'', sp_IconEmoji = '':shield:'',
          sp_Blocks = [(''section'', Some (''mrkdwn'', slack_text al))]\<rparr> of
        None \<Rightarrow> None
      | Some data \<Rightarrow> Some \<lparr>p_URL = cfg_SlackWebhookURL cfg, p_Body = data,
          p_Header = [(''Content-Type'', ''application/json'')]\<rparr>)"

section \<open>Facts\<close>

definition slack_special :: "char set" where
  "slack_special = {CHR ''<'', CHR ''>'', CHR 0x60, CHR 0x0A, CHR 0x0D, CHR 0x09}"

lemma slack_byte_safe: "set (slack_byte c) \<inter> slack_special = {}"
  by (auto simp: slack_byte_def slack_special_def)

lemma escapeSlack_safe: "c \<in> slack_special \<Longrightarrow> c \<notin> set (escapeSlack s)"
  using slack_byte_safe by (fastforce simp: escapeSlack_def)

lemma escapeSlack_count [simp]: "c \<in> slack_special \<Longrightarrow> count_list (escapeSlack s) c = 0"
  by (simp add: count_list_0_iff escapeSlack_safe)

lemma show_nat_count [simp]: "c \<in> slack_special \<Longrightarrow> count_list (show_nat n) c = 0"
  by (auto simp: count_list_0_iff slack_special_def is_digit_def dest!: show_nat_digits)

definition plain_bytes :: "string \<Rightarrow> bool" where
  "plain_bytes s = list_all (\<lambda>c. c \<notin> {CHR ''<'', CHR ''>'', CHR 0x60, CHR 0x0A, CHR 0x0D, CHR 0x09}) s"

lemma severity_plain:
  "plain_bytes (slack_emoji SeverityLow)" "plain_bytes (to_upper SeverityLow)"
  "plain_bytes (slack_emoji SeverityMedium)" "plain_bytes (to_upper SeverityMedium)"
  "plain_bytes (slack_emoji SeverityHigh)" "plain_bytes (to_upper SeverityHigh)"
  "plain_bytes (slack_emoji SeverityCritical)" "plain_bytes (to_upper SeverityCritical)"
  by code_simp+

lemma plain_bytes_count: "plain_bytes s \<Longrightarrow> c \<in> slack_special \<Longrightarrow> count_list s c = 0"
  unfolding plain_bytes_def slack_special_def list_all_iff count_list_0_iff by blast

lemma severity_count:
  "s \<in> {SeverityLow, SeverityMedium, SeverityHigh, SeverityCritical} \<Longrightarrow> c \<in> slack_special \<Longrightarrow>
   count_list (slack_emoji s) c = 0 \<and> count_list (to_upper s) c = 0"
  using severity_plain by (elim insertE emptyE) (simp_all add: plain_bytes_count)

text \<open>What a retry is made for.\<close>

definition retryable :: "response \<Rightarrow> bool" where
  "retryable r = (case r of TransportError \<Rightarrow> True | Status c \<Rightarrow> 500 \<le> c \<or> c = 429)"

definition accepted :: "response \<Rightarrow> bool" where
  "accepted r = (case r of TransportError \<Rightarrow> False | Status c \<Rightarrow> c < 400)"

lemma post_loop_trace:
  "post_loop True resp n k e = (err, tr) \<Longrightarrow>
   length tr \<le> n \<and> (0 < n \<longrightarrow> tr \<noteq> []) \<and>
   tr = map (\<lambda>i. (int (k + i) * 500000000, resp (k + i))) [0..<length tr] \<and>
   list_all (\<lambda>x. retryable (snd x)) (butlast tr) \<and>
   (length tr < n \<longrightarrow> \<not> retryable (snd (last tr))) \<and>
   (tr \<noteq> [] \<longrightarrow> (err = None \<longleftrightarrow> accepted (snd (last tr))))"
proof (induction n arbitrary: k e err tr)
  case (Suc n)
  show ?case
  proof (cases "retryable (resp k)")
    case False
    with Suc.prems show ?thesis
      by (auto simp: retryable_def accepted_def not_less Let_def split: response.splits if_splits)
  next
    case True
    have pause: "(if 0 < k then int k * 500000000 else 0) = int k * 500000000" by simp
    from True obtain e' where e': "post_loop True resp (Suc n) k e =
        (let (err, tr) = post_loop True resp n (Suc k) (Some e') in (err, (int k * 500000000, resp k) # tr))"
      unfolding post_loop.simps pause Let_def
      by (cases "resp k") (auto simp: retryable_def)
    obtain err1 tr1 where p: "post_loop True resp n (Suc k) (Some e') = (err1, tr1)" by fastforce
    with e' Suc.prems have tr: "err = err1" "tr = (int k * 500000000, resp k) # tr1" by simp_all
    note IH = Suc.IH [OF p]
    have shape: "tr1 = map (\<lambda>i. (int (Suc k + i) * 500000000, resp (Suc k + i))) [0..<length tr1]" using IH by blast
    have "tr = map (\<lambda>i. (int (k + i) * 500000000, resp (k + i))) [0..<length tr]"
      unfolding tr(2) by (subst shape) (simp add: upt_conv_Cons map_Suc_upt [symmetric] o_def algebra_simps del: upt_Suc)
    moreover have "err = None \<longleftrightarrow> accepted (snd (last tr))"
    proof (cases "tr1 = []")
      case True
      then have "n = 0" using IH by blast
      with p have "err1 = Some e'" by simp
      with True tr \<open>retryable (resp k)\<close> show ?thesis
        by (auto simp: accepted_def retryable_def split: response.splits)
    next
      case False
      with IH tr show ?thesis by simp
    qed
    moreover have "list_all (\<lambda>x. retryable (snd x)) (butlast tr)" "length tr \<le> Suc n"
      "length tr < Suc n \<longrightarrow> \<not> retryable (snd (last tr))"
      using IH True unfolding tr(2) by (cases "tr1 = []"; simp)+
    moreover have "tr \<noteq> []" using tr(2) by simp
    ultimately show ?thesis by blast
  qed
qed simp

section \<open>Properties\<close>

text \<open>
  Delivery is bounded and retries only what can succeed later: at least one and at most three
  requests are made, after pauses of 0, 0.5 and 1 seconds; every request but the last failed with a
  transport error, a 5xx or a 429; fewer than three are made only when the last one did not; and the
  result is success exactly when the last response is below 400.
\<close>

theorem retry_contract:
  "case postWithRetry True resp of (err, tr) \<Rightarrow>
     1 \<le> length tr \<and> length tr \<le> 3 \<and> sum_list (map fst tr) \<le> 1500000000 \<and>
     map snd tr = map resp [0..<length tr] \<and> list_all (\<lambda>x. retryable (snd x)) (butlast tr) \<and>
     \<not> (length tr < 3 \<and> retryable (snd (last tr))) \<and> (err = None \<longleftrightarrow> accepted (snd (last tr)))"
proof -
  obtain err tr where p: "postWithRetry True resp = (err, tr)" by fastforce
  note t = post_loop_trace [OF p [unfolded postWithRetry_def deliveryAttempts_def]]
  have shape: "tr = map (\<lambda>i. (int i * 500000000, resp i)) [0..<length tr]" using t by simp
  then have "map snd tr = map resp [0..<length tr]" "map fst tr = map (\<lambda>i. int i * 500000000) [0..<length tr]"
    by (metis (no_types, lifting) length_map map_eq_conv map_map comp_apply snd_conv)
       (subst shape, simp add: o_def)
  moreover have "0 < length tr" "length tr \<le> 3" using t by simp_all
  then have "length tr = 1 \<or> length tr = 2 \<or> length tr = 3" by arith
  ultimately show ?thesis using t p by (auto simp: upt_rec)
qed

text \<open>
  C28. No Slack injection: whatever the command line, names and reason contain, the newlines, quote marks,
  code-span delimiters and angle brackets of the message are those of the template, so attacker-controlled
  text cannot leave its code span, forge a quoted line or open a link.
\<close>

theorem slack_no_injection:
  assumes "a_Severity al \<in> {SeverityLow, SeverityMedium, SeverityHigh, SeverityCritical}"
  defines "p \<equiv> of_bool (a_ParentName al \<noteq> [])" and "c \<equiv> of_bool (a_CmdLine al \<noteq> [])"
    and "m \<equiv> of_bool (a_MITRETTP al \<noteq> [])"
  shows "count_list (slack_text al) (CHR 0x0A) = 2 + p + c + m \<and> count_list (slack_text al) (CHR ''>'') = 2 + p + c + m \<and>
    count_list (slack_text al) (CHR 0x60) = 6 + 2 * p + 2 * c \<and> count_list (slack_text al) (CHR ''<'') = 0 \<and>
    count_list (slack_text al) (CHR 0x0D) = 0 \<and> count_list (slack_text al) (CHR 0x09) = 0"
proof -
  have sp: "CHR 0x0A \<in> slack_special" "CHR ''>'' \<in> slack_special" "CHR 0x60 \<in> slack_special"
    "CHR ''<'' \<in> slack_special" "CHR 0x0D \<in> slack_special" "CHR 0x09 \<in> slack_special"
    by (simp_all add: slack_special_def)
  show ?thesis
    using sp severity_count [OF assms(1)]
    by (simp add: slack_text_def newline_def tick_def p_def c_def m_def)
qed

theorem slack_no_injection_witness:
  "count_list (slack_text (empty_alert\<lparr>a_Severity := SeverityHigh, a_CmdLine := [CHR 0x60, CHR 0x0A, CHR ''>'']\<rparr>)) (CHR 0x0A) = 3"
  using slack_no_injection [of "empty_alert\<lparr>a_Severity := SeverityHigh, a_CmdLine := [CHR 0x60, CHR 0x0A, CHR ''>'']\<rparr>"]
  by (simp add: empty_alert_def)

end
