(* ===== verification/Monitor.thy ===== *)
theory Monitor
  imports Detector Correlator Delivery Storage Query
begin

text \<open>
  The program, \<open>main.go\<close>: the event loop that joins the detector, the alerter, the correlator and the store,
  the auth-log path, the reloads of rules and suppressions, the heartbeat and the subcommands. The record
  \<open>monitor\<close> is the state the goroutines share; an input is one turn of the main loop's \<open>select\<close> or of
  another goroutine, so a run is an interleaving of inputs. What an alert sent to an external destination
  becomes is in \<open>Delivery\<close>; the alert sink is the store's \<open>Save\<close>.
\<close>

section \<open>State\<close>

record monitor =
  mn_det :: detector
  mn_al :: alerter
  mn_corr :: "correlator option"
  mn_store :: store
  mn_sent :: "dispatch list"
  mn_processed :: "64 word"
  mn_alerted :: "64 word"

record send_env =
  se_openOk :: bool
  se_random :: "8 word list option"
  se_clock :: "nat \<Rightarrow> time"
  se_observe :: time

record encoders =
  en_payload :: "payload_doc \<Rightarrow> string option"
  en_details :: "(string \<times> gval) list \<Rightarrow> string option"

definition corr_cfg_of :: "config \<Rightarrow> corr_config" where
  "corr_cfg_of cfg =
     \<lparr>cc_Window = seconds (cfg_CorrelationWindow cfg), cc_MinStages = cfg_CorrelationMinStages cfg,
      cc_MinScore = cfg_CorrelationMinScore cfg, cc_Cooldown = seconds (cfg_CorrelationCooldown cfg),
      cc_HostMinStages = cfg_CorrelationHostMinStages cfg, cc_HostMinScore = cfg_CorrelationHostMinScore cfg\<rparr>"

definition start_monitor :: "config \<Rightarrow> detector \<Rightarrow> alerter \<Rightarrow> monitor" where
  "start_monitor cfg det al =
     \<lparr>mn_det = det, mn_al = al,
      mn_corr = (if cfg_CorrelationEnabled cfg then Some (corr_New (corr_cfg_of cfg)) else None),
      mn_store = newStore, mn_sent = [], mn_processed = 0, mn_alerted = 0\<rparr>"

section \<open>Sending\<close>

text \<open>Where the dispatches of a send go: the sink saves, the others leave in their own goroutine.\<close>

fun deliver :: "encoders \<Rightarrow> dispatch list \<Rightarrow> store \<Rightarrow> store" where
  "deliver en [] s = s"
| "deliver en (ToSink al # ds) s = deliver en ds (Save (en_details en) al s)"
| "deliver en (ToWebhook al # ds) s = deliver en ds s"
| "deliver en (ToSlack al # ds) s = deliver en ds s"

definition send_alert :: "encoders \<Rightarrow> send_env \<Rightarrow> alert \<Rightarrow> monitor \<Rightarrow> alert \<times> monitor" where
  "send_alert en se a mn =
     (case Send (en_payload en) (se_openOk se) (se_random se) (se_clock se) a (mn_al mn) of
        (ds, al, al') \<Rightarrow>
          (al, mn\<lparr>mn_al := al', mn_store := deliver en ds (mn_store mn), mn_sent := mn_sent mn @ ds\<rparr>))"

text \<open>
  The body of the loop over findings, and of the tailer's callback: \<open>Send\<close> stamps the alert, the correlator
  observes it, and an incident is sent as well. The result says whether there was one.
\<close>

definition report :: "encoders \<Rightarrow> send_env \<times> send_env \<Rightarrow> alert \<Rightarrow> monitor \<Rightarrow> bool \<times> monitor" where
  "report en ses a mn =
     (let (al, mn1) = send_alert en (fst ses) a mn in
      case mn_corr mn1 of
        None \<Rightarrow> (False, mn1)
      | Some c \<Rightarrow>
          (case Observe c (Some al) (se_observe (fst ses)) of
             (None, c') \<Rightarrow> (False, mn1\<lparr>mn_corr := Some c'\<rparr>)
           | (Some inc, c') \<Rightarrow> (True, snd (send_alert en (snd ses) inc (mn1\<lparr>mn_corr := Some c'\<rparr>)))))"

fun report_all :: "encoders \<Rightarrow> (nat \<Rightarrow> send_env \<times> send_env) \<Rightarrow> nat \<Rightarrow> alert list \<Rightarrow> monitor \<Rightarrow> monitor" where
  "report_all en ses n [] mn = mn"
| "report_all en ses n (a # as) mn =
     (let (raised, mn1) = report en (ses n) a (mn\<lparr>mn_alerted := mn_alerted mn + 1\<rparr>);
          mn2 = (if raised then mn1\<lparr>mn_alerted := mn_alerted mn1 + 1\<rparr> else mn1)
      in report_all en ses (Suc n) as mn2)"

definition handle_event :: "encoders \<Rightarrow> (nat \<Rightarrow> send_env \<times> send_env) \<Rightarrow> (nat \<Rightarrow> time) \<Rightarrow> event \<Rightarrow> monitor \<Rightarrow> monitor" where
  "handle_event en ses clock e mn =
     (let (as, d) = Check (mn_det mn) e clock
      in report_all en ses 0 as (mn\<lparr>mn_det := d, mn_processed := mn_processed mn + 1\<rparr>))"

section \<open>Reloads\<close>

definition reloadSuppressions :: "(query_err, supp_set) res \<Rightarrow> monitor \<Rightarrow> monitor" where
  "reloadSuppressions answer mn =
     (case answer of Inl _ \<Rightarrow> mn | Inr rules \<Rightarrow> mn\<lparr>mn_det := SetSuppressions rules (mn_det mn)\<rparr>)"

record rule_sources =
  src_readDir :: "string \<Rightarrow> (string \<times> bool) list option"
  src_readFile :: "string \<Rightarrow> string option"
  src_decode :: "string \<Rightarrow> (rule_err, rule_file) res"

definition reloadRules :: "rule_sources \<Rightarrow> config \<Rightarrow> monitor \<Rightarrow> monitor" where
  "reloadRules src cfg mn =
     (case load_ruleset default_file (src_readDir src) (src_readFile src) (src_decode src) (cfg_RulesFile cfg) (cfg_RulesDir cfg) of
        Inl _ \<Rightarrow> mn
      | Inr rs \<Rightarrow> mn\<lparr>mn_det := SetRuleset (Some rs) (mn_det mn)\<rparr>)"

section \<open>The loop\<close>

datatype input =
    EventReceived event "nat \<Rightarrow> time" "nat \<Rightarrow> send_env \<times> send_env"
  | StreamClosed
  | HeartbeatTick
  | ShutdownSignal
  | AuthAlert alert "send_env \<times> send_env"
  | RulesTick rule_sources
  | SuppressionsTick "(query_err, supp_set) res"

definition customRules :: "config \<Rightarrow> bool" where
  "customRules cfg \<longleftrightarrow> cfg_RulesFile cfg \<noteq> [] \<or> cfg_RulesDir cfg \<noteq> []"

text \<open>
  One turn: \<open>None\<close> when the main loop returns. The tailer, the reloaders of rules and of suppressions run only
  when they are configured.
\<close>

definition turn :: "encoders \<Rightarrow> config \<Rightarrow> input \<Rightarrow> monitor \<Rightarrow> monitor option" where
  "turn en cfg i mn =
     (case i of
        EventReceived e clock ses \<Rightarrow> Some (handle_event en ses clock e mn)
      | StreamClosed \<Rightarrow> None
      | HeartbeatTick \<Rightarrow> Some mn
      | ShutdownSignal \<Rightarrow> None
      | AuthAlert a ses \<Rightarrow> Some (if cfg_AuthLogEnabled cfg then snd (report en ses a mn) else mn)
      | RulesTick src \<Rightarrow> Some (if customRules cfg then reloadRules src cfg mn else mn)
      | SuppressionsTick answer \<Rightarrow> Some (if cfg_DBEnabled cfg then reloadSuppressions answer mn else mn))"

fun run_monitor :: "encoders \<Rightarrow> config \<Rightarrow> input list \<Rightarrow> monitor \<Rightarrow> monitor" where
  "run_monitor en cfg [] mn = mn"
| "run_monitor en cfg (i # is) mn =
     (case turn en cfg i mn of None \<Rightarrow> mn | Some mn' \<Rightarrow> run_monitor en cfg is mn')"

section \<open>Heartbeat and subcommands\<close>

text \<open>
  The states of the file system a write of the heartbeat goes through: the temporary file, complete or not,
  and the rename.
\<close>

definition writeHeartbeat :: "string \<Rightarrow> string \<Rightarrow> bool \<Rightarrow> string option \<Rightarrow> files \<Rightarrow> files list" where
  "writeHeartbeat path data writeOk partial fs =
     (if path = [] then [fs]
      else (let tmp = path @ ''.tmp'' in
            if \<not> writeOk then [fs, fs(tmp := partial)]
            else [fs, fs(tmp := partial), fs(tmp \<mapsto> data), rename_file tmp path (fs(tmp \<mapsto> data))]))"

definition heartbeatMaxAge :: duration where
  "heartbeatMaxAge = 30 * 1000000000"

text \<open>The exit status of \<open>-health\<close>, from the modification time of the file.\<close>

definition runHealthCheck :: "environ \<Rightarrow> (string \<Rightarrow> time option) \<Rightarrow> time \<Rightarrow> int" where
  "runHealthCheck env mtime now =
     (let p0 = env ''KW_HEALTH_FILE'';
          path = (if p0 = [] then ''/var/log/kernelwatch/health'' else p0)
      in case mtime path of
           None \<Rightarrow> 1
         | Some t \<Rightarrow> if heartbeatMaxAge < time_sub now t then 1 else 0)"

definition runValidateRules :: "environ \<Rightarrow> rule_sources \<Rightarrow> int" where
  "runValidateRules env src =
     (case load_ruleset default_file (src_readDir src) (src_readFile src) (src_decode src) (env ''KW_RULES_FILE'') (env ''KW_RULES_DIR'') of
        Inl _ \<Rightarrow> 1
      | Inr _ \<Rightarrow> 0)"

section \<open>Startup\<close>

text \<open>
  \<open>main\<close> up to its loop: the subcommands, the configuration, the check of the operator's rules, the components.
  The environment of a start holds what the system answers: the files at the check and again when the detector
  is built, and whether the log, the collector and the listener could be opened. The exit status of an error
  is 1.
\<close>

record flags =
  fl_version :: bool
  fl_health :: bool
  fl_validate :: bool

record start_env =
  sv_env :: environ
  sv_stat :: "string \<Rightarrow> file_kind option"
  sv_mtime :: "string \<Rightarrow> time option"
  sv_now :: time
  sv_files :: files
  sv_checked :: rule_sources
  sv_rules :: rule_sources
  sv_logOk :: "bool \<times> bool"
  sv_collectorOk :: bool
  sv_suppressions :: "(query_err, supp_set) res"
  sv_listenOk :: bool

datatype start = Exit int | Running config monitor

definition load_rules :: "rule_sources \<Rightarrow> string \<Rightarrow> string \<Rightarrow> (rule_err, compiled_rule list) res" where
  "load_rules src file dir = load_ruleset default_file (src_readDir src) (src_readFile src) (src_decode src) file dir"

definition main_start :: "flags \<Rightarrow> start_env \<Rightarrow> start" where
  "main_start fl v =
     (if fl_version fl then Exit 0
      else if fl_health fl then Exit (runHealthCheck (sv_env v) (sv_mtime v) (sv_now v))
      else if fl_validate fl then Exit (runValidateRules (sv_env v) (sv_checked v))
      else (case Load (sv_stat v) (sv_env v) of
          Inl _ \<Rightarrow> Exit 1
        | Inr cfg \<Rightarrow>
            if customRules cfg \<and> isl (load_rules (sv_checked v) (cfg_RulesFile cfg) (cfg_RulesDir cfg)) then Exit 1
            else (case alerter_New cfg (cfg_DBEnabled cfg) (fst (sv_logOk v)) (snd (sv_logOk v)) (sv_files v) of
                Inl _ \<Rightarrow> Exit 1
              | Inr al \<Rightarrow>
                  (let src = sv_rules v;
                       mn = start_monitor cfg (det_New (src_readDir src) (src_readFile src) (src_decode src) cfg) al;
                       mn1 = (if cfg_DBEnabled cfg then reloadSuppressions (sv_suppressions v) mn else mn)
                   in if \<not> sv_collectorOk v then Exit 1
                      else if cfg_APIEnabled cfg \<and> \<not> sv_listenOk v then Exit 1
                      else Running cfg mn1))))"

section \<open>Facts\<close>

lemma Send_keeps:
  "Send marshal openOk random clock al0 a = (ds, al, a') \<Longrightarrow>
   al = stamp_alert (al_cfg a) random (clock 0) al0 \<and> al_cfg a' = al_cfg a \<and> al_sink a' = al_sink a"
  by (auto simp: Send_def Let_def dest!: send_filter_keeps split: prod.splits if_splits)

lemma send_alert_keeps:
  "send_alert en se a mn = (al, mn') \<Longrightarrow>
   al = stamp_alert (al_cfg (mn_al mn)) (se_random se) (se_clock se 0) a \<and> al_cfg (mn_al mn') = al_cfg (mn_al mn) \<and>
   al_sink (mn_al mn') = al_sink (mn_al mn) \<and> mn_det mn' = mn_det mn \<and> mn_corr mn' = mn_corr mn \<and>
   mn_processed mn' = mn_processed mn \<and> mn_alerted mn' = mn_alerted mn"
  by (auto simp: send_alert_def split: prod.splits dest!: Send_keeps)

text \<open>What the correlator is fed, whatever the alerter lets through.\<close>

definition observe_one :: "config \<Rightarrow> send_env \<Rightarrow> alert \<Rightarrow> correlator \<Rightarrow> alert option \<times> correlator" where
  "observe_one cfg se a c = Observe c (Some (stamp_alert cfg (se_random se) (se_clock se 0) a)) (se_observe se)"

lemma report_corr:
  "report en ses a mn = (raised, mn') \<Longrightarrow>
   al_cfg (mn_al mn') = al_cfg (mn_al mn) \<and> al_sink (mn_al mn') = al_sink (mn_al mn) \<and> mn_det mn' = mn_det mn \<and>
   mn_corr mn' = map_option (\<lambda>c. snd (observe_one (al_cfg (mn_al mn)) (fst ses) a c)) (mn_corr mn) \<and>
   raised = (case mn_corr mn of None \<Rightarrow> False | Some c \<Rightarrow> fst (observe_one (al_cfg (mn_al mn)) (fst ses) a c) \<noteq> None) \<and>
   mn_processed mn' = mn_processed mn \<and> mn_alerted mn' = mn_alerted mn"
proof -
  assume r: "report en ses a mn = (raised, mn')"
  obtain al mn1 where s: "send_alert en (fst ses) a mn = (al, mn1)" by fastforce
  note k = send_alert_keeps [OF s]
  show ?thesis
  proof (cases "mn_corr mn")
    case None
    with r s k show ?thesis by (auto simp: report_def)
  next
    case (Some c)
    obtain inc c' where o: "Observe c (Some al) (se_observe (fst ses)) = (inc, c')" by fastforce
    show ?thesis
    proof (cases inc)
      case None
      with r s k o Some show ?thesis by (auto simp: report_def observe_one_def)
    next
      case inc: (Some i)
      obtain al2 mn2 where s2: "send_alert en (snd ses) i (mn1\<lparr>mn_corr := Some c'\<rparr>) = (al2, mn2)" by fastforce
      with r s k o Some inc send_alert_keeps [OF s2] show ?thesis by (auto simp: report_def observe_one_def)
    qed
  qed
qed

fun observe_stream :: "config \<Rightarrow> (nat \<Rightarrow> send_env \<times> send_env) \<Rightarrow> nat \<Rightarrow> alert list \<Rightarrow> correlator \<Rightarrow> correlator" where
  "observe_stream cfg ses n [] c = c"
| "observe_stream cfg ses n (a # as) c = observe_stream cfg ses (Suc n) as (snd (observe_one cfg (fst (ses n)) a c))"

fun incidents_raised :: "config \<Rightarrow> (nat \<Rightarrow> send_env \<times> send_env) \<Rightarrow> nat \<Rightarrow> alert list \<Rightarrow> correlator option \<Rightarrow> nat" where
  "incidents_raised cfg ses n [] oc = 0"
| "incidents_raised cfg ses n (a # as) oc =
     (case oc of None \<Rightarrow> 0
      | Some c \<Rightarrow> (case observe_one cfg (fst (ses n)) a c of (inc, c') \<Rightarrow>
          (if inc = None then 0 else 1) + incidents_raised cfg ses (Suc n) as (Some c')))"

lemma report_all_corr:
  "mn_corr (report_all en ses n as mn) = map_option (observe_stream (al_cfg (mn_al mn)) ses n as) (mn_corr mn) \<and>
   mn_processed (report_all en ses n as mn) = mn_processed mn \<and> mn_det (report_all en ses n as mn) = mn_det mn \<and>
   mn_alerted (report_all en ses n as mn) =
     mn_alerted mn + of_nat (length as + incidents_raised (al_cfg (mn_al mn)) ses n as (mn_corr mn))"
proof (induction as arbitrary: n mn)
  case (Cons a as)
  let ?mn = "mn\<lparr>mn_alerted := mn_alerted mn + 1\<rparr>"
  obtain raised mn1 where r: "report en (ses n) a ?mn = (raised, mn1)" by fastforce
  let ?mn2 = "if raised then mn1\<lparr>mn_alerted := mn_alerted mn1 + 1\<rparr> else mn1"
  have step: "report_all en ses n (a # as) mn = report_all en ses (Suc n) as ?mn2" using r by simp
  note k = report_corr [OF r]
  have m2: "al_cfg (mn_al ?mn2) = al_cfg (mn_al mn)" "mn_processed ?mn2 = mn_processed mn" "mn_det ?mn2 = mn_det mn"
    "mn_corr ?mn2 = map_option (\<lambda>c. snd (observe_one (al_cfg (mn_al mn)) (fst (ses n)) a c)) (mn_corr mn)"
    "mn_alerted ?mn2 = mn_alerted mn + 1 + (if raised then 1 else 0)"
    using k by simp_all
  show ?case
  proof (cases "mn_corr mn")
    case None
    with k have "\<not> raised" by simp
    with Cons.IH [of "Suc n" ?mn2] m2 None show ?thesis
      unfolding step by (cases as) (simp_all add: algebra_simps)
  next
    case (Some c)
    obtain inc c' where o: "observe_one (al_cfg (mn_al mn)) (fst (ses n)) a c = (inc, c')" by fastforce
    with k Some have "raised = (inc \<noteq> None)" by simp
    with Cons.IH [of "Suc n" ?mn2] m2 Some o show ?thesis
      unfolding step by (auto simp: algebra_simps)
  qed
next
  case Nil
  then show ?case by (cases "mn_corr mn") simp_all
qed

text \<open>What the sink gets of a send, and where it goes.\<close>

lemma deliver_persisted: "deliver en ds s = fold put_row (map (toRow (en_details en)) (persisted ds)) s"
proof (induction ds arbitrary: s)
  case (Cons d ds)
  then show ?case by (cases d) (simp_all add: Save_def)
qed simp

lemma Send_incident:
  assumes "IsIncident al0" and "al_sink a" and "Send marshal openOk random clock al0 a = (ds, al, a')"
  shows "persisted ds = [al]"
proof -
  have "IsIncident (stamp_alert (al_cfg a) random (clock 0) al0)"
    using assms(1) by (simp add: IsIncident_def stamp_alert_def Let_def)
  then show ?thesis
    using assms(2,3) by (auto simp: Send_def send_filter_def Let_def split: if_splits)
qed

lemma Send_persists_one:
  assumes "Send marshal openOk random clock al0 a = (ds, al, a')"
  shows "length (persisted ds) \<le> 1"
  using assms unfolding Send_def Let_def by (auto split: prod.splits if_splits)

lemma buildIncident_incident:
  "IsIncident (buildIncident cfg st stages score rids now ms msc)"
  "a_RuleID (buildIncident cfg st stages score rids now ms msc) = IncidentRuleID"
  by (simp_all add: buildIncident_def IsIncident_def Let_def)

lemma chain_step_incident: "fst (chain_step cfg a now st) = Some inc \<Longrightarrow> IsIncident inc \<and> a_RuleID inc = IncidentRuleID"
  by (auto simp: chain_step_def Let_def buildIncident_incident split: if_splits prod.splits)

lemma Observe_incident: "Observe c oa t = (Some inc, c') \<Longrightarrow> IsIncident inc \<and> a_RuleID inc = IncidentRuleID"
proof -
  assume o: "Observe c oa t = (Some inc, c')"
  then obtain a where a: "oa = Some a" "\<not> IsIncident a" "chainKey a \<noteq> []"
    by (auto simp: Observe_def split: option.splits if_splits)
  with o obtain cfg now st where "fst (chain_step cfg a now st) = Some inc"
    unfolding Observe_def a(1) option.case Let_def by (metis (mono_tags, lifting) case_prod_beta fst_conv)
  then show ?thesis by (rule chain_step_incident)
qed

lemma send_alert_store:
  assumes "send_alert en se a mn = (al, mn')" and "length (st_ch (mn_store mn)) + k < bufferSize"
  shows "set (st_ch (mn_store mn)) \<subseteq> set (st_ch (mn_store mn'))"
    "length (st_ch (mn_store mn')) + k \<le> bufferSize"
    "IsIncident a \<Longrightarrow> al_sink (mn_al mn) \<Longrightarrow> toRow (en_details en) al \<in> set (st_ch (mn_store mn'))"
proof -
  obtain ds al' where s: "Send (en_payload en) (se_openOk se) (se_random se) (se_clock se) a (mn_al mn) = (ds, al, al')"
    and st: "mn_store mn' = deliver en ds (mn_store mn)"
    using assms(1) by (auto simp: send_alert_def split: prod.splits)
  have ch: "st_ch (mn_store mn') = st_ch (mn_store mn) @
      take (bufferSize - length (st_ch (mn_store mn))) (map (toRow (en_details en)) (persisted ds))"
    by (simp add: st deliver_persisted buffer.puts_waiting)
  then show "set (st_ch (mn_store mn)) \<subseteq> set (st_ch (mn_store mn'))" by simp
  show "length (st_ch (mn_store mn')) + k \<le> bufferSize"
    using Send_persists_one [OF s] assms(2) by (simp add: ch)
  assume "IsIncident a" "al_sink (mn_al mn)"
  from Send_incident [OF this s] assms(2) show "toRow (en_details en) al \<in> set (st_ch (mn_store mn'))"
    by (simp add: ch take_Cons')
qed

text \<open>The ruleset in force is one that loaded.\<close>

definition armed :: "detector \<Rightarrow> bool" where
  "armed d \<longleftrightarrow> (\<exists>rs. d_eng d = Some rs \<and> list_all rule_ok rs \<and> distinct (map cr_ID rs))"

lemma check_loop_eng: "d_eng (snd (check_loop supp e clock n rs d)) = d_eng d"
proof (induction rs arbitrary: n d)
  case (Cons r rs)
  obtain dup d' where dd: "duplicate d (r_RuleID r) e (clock n) = (dup, d')" by fastforce
  then have "d_eng d' = d_eng d" using duplicate_seen by fastforce
  with Cons dd show ?case by (auto split: prod.splits) (metis snd_conv)+
qed simp

lemma Check_eng: "d_eng (snd (Check d e clock)) = d_eng d"
  by (simp add: Check_def check_loop_eng Let_def split: option.splits)

lemma turn_armed: "turn en cfg i mn = Some mn' \<Longrightarrow> armed (mn_det mn) \<Longrightarrow> armed (mn_det mn')"
proof (cases i)
  case (EventReceived e clock ses)
  assume "turn en cfg i mn = Some mn'" "armed (mn_det mn)"
  with EventReceived show ?thesis
    using Check_eng [of "mn_det mn" e clock]
    by (auto simp: turn_def handle_event_def report_all_corr armed_def Let_def split: prod.splits)
next
  case (AuthAlert a ses)
  assume "turn en cfg i mn = Some mn'" "armed (mn_det mn)"
  with AuthAlert show ?thesis
    using report_corr [of en ses a mn "fst (report en ses a mn)" mn'] by (auto simp: turn_def)
next
  case (RulesTick src)
  assume "turn en cfg i mn = Some mn'" "armed (mn_det mn)"
  with RulesTick show ?thesis
    by (auto simp: turn_def reloadRules_def SetRuleset_def armed_def split: sum.splits dest: load_ruleset_ok)
next
  case (SuppressionsTick answer)
  assume "turn en cfg i mn = Some mn'" "armed (mn_det mn)"
  with SuppressionsTick show ?thesis
    by (auto simp: turn_def reloadSuppressions_def SetSuppressions_def armed_def split: sum.splits)
qed (auto simp: turn_def)

lemma run_armed: "armed (mn_det mn) \<Longrightarrow> armed (mn_det (run_monitor en cfg is mn))"
  by (induction "is" arbitrary: mn) (auto split: option.splits dest: turn_armed)

lemmas monitor_report = report_all_corr report_corr send_alert_keeps

section \<open>Properties\<close>

text \<open>
  C9. The correlator sees every finding of an event, in order, stamped, whatever the severity filter and the
  rate limiter drop afterwards: its state after an event is a function of the findings and of its own state
  alone. The counters of the heartbeat count the event, its findings and the incidents.
\<close>

theorem correlation_unfiltered:
  "let as = fst (Check (mn_det mn) e clock); cfg = al_cfg (mn_al mn); mn' = handle_event en ses clock e mn
   in mn_corr mn' = map_option (observe_stream cfg ses 0 as) (mn_corr mn) \<and>
      mn_det mn' = snd (Check (mn_det mn) e clock) \<and>
      mn_processed mn' = mn_processed mn + 1 \<and>
      mn_alerted mn' = mn_alerted mn + of_nat (length as + incidents_raised cfg ses 0 as (mn_corr mn))"
  by (cases "Check (mn_det mn) e clock") (simp add: handle_event_def monitor_report Let_def)

text \<open>
  C14. An incident reaches the database buffer, whatever the severity threshold, the rate limit and the mode:
  when the correlator raises it and the buffer has room for the finding and the incident, its row waits in the
  buffer after the report.
\<close>

theorem incident_persisted:
  assumes "mn_corr mn = Some c"
    and "fst (observe_one (al_cfg (mn_al mn)) (fst ses) a c) = Some inc"
    and "al_sink (mn_al mn)" and "length (st_ch (mn_store mn)) + 1 < bufferSize"
  shows "a_RuleID inc = IncidentRuleID \<and>
    toRow (en_details en) (stamp_alert (al_cfg (mn_al mn)) (se_random (snd ses)) (se_clock (snd ses) 0) inc)
      \<in> set (st_ch (mn_store (snd (report en ses a mn))))"
proof -
  obtain al mn1 where s1: "send_alert en (fst ses) a mn = (al, mn1)" by fastforce
  note k1 = send_alert_keeps [OF s1]
  obtain c' where o: "Observe c (Some al) (se_observe (fst ses)) = (Some inc, c')"
    using assms(2) k1 that [of "snd (Observe c (Some al) (se_observe (fst ses)))"]
    by (simp add: observe_one_def prod_eq_iff)
  note inc = Observe_incident [OF o]
  let ?mn1 = "mn1\<lparr>mn_corr := Some c'\<rparr>"
  obtain al2 mn2 where s2: "send_alert en (snd ses) inc ?mn1 = (al2, mn2)" by fastforce
  have room: "length (st_ch (mn_store ?mn1)) + 0 < bufferSize"
    using send_alert_store(2) [OF s1, of 1] assms(4) by simp
  have "toRow (en_details en) al2 \<in> set (st_ch (mn_store mn2))"
    using send_alert_store(3) [OF s2 room] inc assms(3) k1 by simp
  with inc send_alert_keeps [OF s2] k1 o s1 s2 assms(1) show ?thesis by (simp add: report_def)
qed

definition ex_mn_cfg :: config where
  "ex_mn_cfg = (load_fields (\<lambda>_. []))\<lparr>cfg_CorrelationEnabled := True, cfg_CorrelationMinScore := 50,
     cfg_LogEnabled := False, cfg_Mode := ''monitor'', cfg_AlertMinSeverity := SeverityCritical, cfg_AlertMaxRate := 0\<rparr>"

definition ex_se :: send_env where
  "ex_se = \<lparr>se_openOk = True, se_random = Some [7], se_clock = (\<lambda>_. 2000000000), se_observe = 2000000000\<rparr>"

definition ex_en :: encoders where
  "ex_en = \<lparr>en_payload = (\<lambda>_. Some ''{}''), en_details = (\<lambda>_. Some ''{}'')\<rparr>"

definition ex_mn_al :: alerter where
  "ex_mn_al = \<lparr>al_cfg = ex_mn_cfg, al_sink = True, al_logOpen = False, al_logBytes = 0, al_rateMap = [], al_fs = (\<lambda>_. None)\<rparr>"

theorem incident_persisted_witness:
  "\<exists>inc :: alert. a_RuleID inc = IncidentRuleID \<and>
     toRow (en_details ex_en) (stamp_alert ex_mn_cfg (Some [7]) 2000000000 inc)
       \<in> set (st_ch (mn_store (snd (report ex_en (ex_se, ex_se) (ex_finding ''Execution'' 1000000000)
            (start_monitor ex_mn_cfg (det_New (\<lambda>_. None) (\<lambda>_. None) (\<lambda>_. Inl MissingID) ex_mn_cfg) ex_mn_al)))))"
proof -
  let ?c = "corr_New (corr_cfg_of ex_mn_cfg)" and ?a = "ex_finding ''Execution'' 1000000000"
  let ?mn = "start_monitor ex_mn_cfg (det_New (\<lambda>_. None) (\<lambda>_. None) (\<lambda>_. Inl MissingID) ex_mn_cfg) ex_mn_al"
  have "fst (observe_one ex_mn_cfg ex_se ?a ?c) \<noteq> None" by code_simp
  then obtain inc where inc: "fst (observe_one ex_mn_cfg ex_se ?a ?c) = Some inc" by blast
  have c: "mn_corr ?mn = Some ?c" by (simp add: start_monitor_def ex_mn_cfg_def)
  show ?thesis
    by (rule exI [of _ inc])
      (use incident_persisted [OF c, of "(ex_se, ex_se)" ?a inc ex_en] inc in
        \<open>simp add: start_monitor_def ex_mn_al_def newStore_def bufferSize_def ex_se_def\<close>)
qed

text \<open>
  C19. The monitor never disarms: after any interleaving of events, auth-log alerts, reloads of rules and of
  suppressions, whatever the operator's files hold at each reload, the detector has a well-formed ruleset.
\<close>

theorem monitor_stays_armed:
  "armed (mn_det (run_monitor en cfg inputs (start_monitor cfg (det_New rd rf dec cfg) al)))"
proof -
  obtain rs where "d_eng (det_New rd rf dec cfg) = Some rs" using New_armed by blast
  with New_rules_ok have "armed (det_New rd rf dec cfg)" by (auto simp: armed_def)
  then show ?thesis by (intro run_armed) (simp add: start_monitor_def)
qed

text \<open>
  The heartbeat is never torn: at every moment of a write the file of the health check holds the old content
  or the whole new one, and no file other than it and its temporary one changes.
\<close>

theorem heartbeat_never_torn:
  "list_all (\<lambda>fs'. (fs' path = fs path \<or> fs' path = Some data) \<and>
       fs' = fs(path := fs' path, path @ ''.tmp'' := fs' (path @ ''.tmp'')))
     (writeHeartbeat path data writeOk partial fs)"
  by (auto simp: writeHeartbeat_def Let_def rename_file_def fun_eq_iff)

text \<open>
  The health check answers 0 exactly when the heartbeat file exists and was written within the last 30
  seconds.
\<close>

theorem health_check_exact:
  "runHealthCheck env mtime now = 0 \<longleftrightarrow>
   (\<exists>t. mtime (if env ''KW_HEALTH_FILE'' = [] then ''/var/log/kernelwatch/health'' else env ''KW_HEALTH_FILE'') = Some t \<and>
      now - t \<le> 30000000000)"
  by (auto simp: runHealthCheck_def heartbeatMaxAge_def Let_def time_sub_greater_iff max_duration_def min_duration_def
      split: option.splits)

text \<open>
  C20. The monitor runs with the ruleset the operator configured: when it starts and the rule files did not
  change since they were checked, the configuration is valid, \<open>-validate\<close> answers 0 on the same environment, and
  the detector has exactly the compiled operator ruleset, never the fallback to the embedded one.
\<close>

theorem startup_ruleset:
  assumes "main_start fl v = Running cfg mn" and "sv_rules v = sv_checked v"
  shows "Load (sv_stat v) (sv_env v) = Inr cfg \<and>
    (\<exists>rs. load_rules (sv_checked v) (cfg_RulesFile cfg) (cfg_RulesDir cfg) = Inr rs \<and> d_eng (mn_det mn) = Some rs) \<and>
    runValidateRules (sv_env v) (sv_checked v) = 0"
proof -
  let ?src = "sv_checked v"
  from assms(1) have l: "Load (sv_stat v) (sv_env v) = Inr cfg"
    and c: "\<not> (customRules cfg \<and> isl (load_rules ?src (cfg_RulesFile cfg) (cfg_RulesDir cfg)))"
    and d: "d_eng (mn_det mn) = d_eng (det_New (src_readDir (sv_rules v)) (src_readFile (sv_rules v)) (src_decode (sv_rules v)) cfg)"
    by (auto simp: main_start_def Let_def start_monitor_def reloadSuppressions_def SetSuppressions_def
        split: if_splits sum.splits)
  obtain rs where rs: "load_rules ?src (cfg_RulesFile cfg) (cfg_RulesDir cfg) = Inr rs"
    using c default_loads by (cases "load_rules ?src (cfg_RulesFile cfg) (cfg_RulesDir cfg)")
      (auto simp: customRules_def load_rules_def)
  moreover have "cfg_RulesFile cfg = sv_env v ''KW_RULES_FILE''" "cfg_RulesDir cfg = sv_env v ''KW_RULES_DIR''"
    using l by (auto simp: Load_def Let_def load_fields_def split: option.splits)
  ultimately show ?thesis
    using l d assms(2) by (auto simp: det_New_def Let_def load_rules_def runValidateRules_def)
qed

definition ex_sources :: rule_sources where
  "ex_sources = \<lparr>src_readDir = (\<lambda>_. None), src_readFile = (\<lambda>_. None), src_decode = (\<lambda>_. Inl MissingID)\<rparr>"

definition ex_start :: start_env where
  "ex_start = \<lparr>sv_env = (\<lambda>k. if k = ''KW_LOG_ENABLED'' then ''false'' else []), sv_stat = (\<lambda>_. None), sv_mtime = (\<lambda>_. None),
     sv_now = 0, sv_files = (\<lambda>_. None), sv_checked = ex_sources, sv_rules = ex_sources, sv_logOk = (True, True),
     sv_collectorOk = True, sv_suppressions = Inr [], sv_listenOk = True\<rparr>"

lemma ex_start_loads: "validate (\<lambda>_. None) (load_fields (sv_env ex_start)) = None"
  by code_simp

lemma ex_start_fields:
  "\<not> customRules (load_fields (sv_env ex_start)) \<and> \<not> cfg_LogEnabled (load_fields (sv_env ex_start)) \<and>
   \<not> cfg_APIEnabled (load_fields (sv_env ex_start))"
  by code_simp

theorem startup_ruleset_witness:
  "\<exists>mn rs. main_start \<lparr>fl_version = False, fl_health = False, fl_validate = False\<rparr> ex_start = Running (load_fields (sv_env ex_start)) mn \<and>
     d_eng (mn_det mn) = Some rs \<and> runValidateRules (sv_env ex_start) ex_sources = 0"
proof -
  let ?fl = "\<lparr>fl_version = False, fl_health = False, fl_validate = False\<rparr>" and ?cfg = "load_fields (sv_env ex_start)"
  have load: "Load (\<lambda>_. None) (sv_env ex_start) = Inr ?cfg" by (simp add: Load_def ex_start_loads)
  have sv: "sv_stat ex_start = (\<lambda>_. None)" "sv_collectorOk ex_start" "sv_rules ex_start = sv_checked ex_start"
    "sv_checked ex_start = ex_sources"
    by (simp_all add: ex_start_def)
  have "\<exists>mn. main_start ?fl ex_start = Running ?cfg mn"
    using ex_start_fields by (simp add: main_start_def load sv alerter_New_def Let_def)
  then obtain mn where "main_start ?fl ex_start = Running ?cfg mn" by blast
  with startup_ruleset [OF this sv(3)] show ?thesis unfolding sv(4) by blast
qed

end
