(* ===== verification/HostCoverage.thy ===== *)
theory HostCoverage
  imports Collector RulesParity
begin

text \<open>
  The host file rules and the collector's allowlist together: which findings on host \<open>open\<close> events the
  embedded ruleset can raise on an event the collector delivers. The rules are taken through their Go
  originals, which the engine agrees with.
\<close>

text \<open>The paths the rules match and the allowlist does not.\<close>

definition unwatched_match :: "string \<Rightarrow> string \<Rightarrow> bool" where
  "unwatched_match rid path \<longleftrightarrow>
     rid = ''host_log_tampering'' \<and> containsAny path logHistoryFiles \<or>
     rid = ''credential_file'' \<and> containsAny path [''/.env'', ''/run/secrets''] \<or>
     rid = ''sensitive_file'' \<and> hasAnyPrefix path [''/.dockerenv'', ''/proc/sysrq-trigger'', ''/proc/kcore'']"

lemma watched_prefix: "p \<in> set hostOpenWatchPrefixes \<Longrightarrow> has_prefix path p \<Longrightarrow> HostOpenWatched path"
  by (auto simp: HostOpenWatched_def list_ex_iff)

lemma watched_substring: "p \<in> set hostOpenWatchSubstrings \<Longrightarrow> contains path p \<Longrightarrow> HostOpenWatched path"
  by (auto simp: HostOpenWatched_def hf_containsAny_def list_ex_iff hostOpenWatchSubstrings_def)

text \<open>A longer prefix is watched when a shorter one is.\<close>

lemma watched_longer:
  "list_ex (has_prefix p) hostOpenWatchPrefixes \<Longrightarrow> has_prefix path p \<Longrightarrow> HostOpenWatched path"
  by (auto simp: list_ex_iff intro: watched_prefix has_prefix_trans)

lemma persistence_watched:
  "hasAnyPrefix path hostPersistencePrefixes \<Longrightarrow> HostOpenWatched path"
proof -
  have "list_all (\<lambda>p. list_ex (has_prefix p) hostOpenWatchPrefixes) hostPersistencePrefixes" by code_simp
  then show "hasAnyPrefix path hostPersistencePrefixes \<Longrightarrow> ?thesis"
    unfolding hasAnyPrefix_def list_ex_iff list_all_iff using watched_longer [unfolded list_ex_iff] by blast
qed

lemma sensitive_watched:
  "hasAnyPrefix path sensitiveFiles \<Longrightarrow> HostOpenWatched path \<or> unwatched_match ''sensitive_file'' path"
proof -
  have "list_all (\<lambda>p. list_ex (has_prefix p) hostOpenWatchPrefixes \<or>
      p \<in> set [''/.dockerenv'', ''/proc/sysrq-trigger'', ''/proc/kcore'']) sensitiveFiles" by code_simp
  then show "hasAnyPrefix path sensitiveFiles \<Longrightarrow> ?thesis"
    unfolding hasAnyPrefix_def list_ex_iff list_all_iff unwatched_match_def
    using watched_longer [unfolded list_ex_iff] by blast
qed

lemma credential_watched:
  "containsAny path credFiles \<Longrightarrow> HostOpenWatched path \<or> unwatched_match ''credential_file'' path"
  using watched_substring [of _ path]
  by (auto simp: containsAny_def credFiles_def unwatched_match_def hostOpenWatchSubstrings_def)

lemma docker_sock_watched:
  "HostOpenWatched ''/var/run/docker.sock''" "HostOpenWatched ''/run/docker.sock''"
  by code_simp+

text \<open>The engine with the embedded ruleset, through the Go rules.\<close>

lemma engine_matches_default:
  assumes "load_ruleset default_file readDir readFile decode [] [] = Inr rules"
  shows "map engine_verdict (engine_Match rules e (lineageAdapter c) ScopeHost) =
    map legacy_verdict (legacyFindings defaultRules e c ScopeHost)"
proof -
  have "rules = default_rules"
    using assms by (simp add: load_ruleset_def overlays_def default_ids_unique default_file_compiles)
  then show ?thesis by (simp add: Match_findings same_rules_findings [OF all_rules_same])
qed

lemma engine_finding:
  assumes "load_ruleset default_file readDir readFile decode [] [] = Inr rules"
    and "r \<in> set defaultRules" and "legacy_finding e c ScopeHost r = Some x"
  shows "\<exists>f \<in> set (engine_Match rules e (lineageAdapter c) ScopeHost). engine_verdict f = legacy_verdict x"
proof -
  have "x \<in> set (legacyFindings defaultRules e c ScopeHost)"
    using assms(2,3) by (cases x) (auto simp: legacyFindings_def List.map_filter_def intro!: image_eqI [of _ _ r])
  then have "legacy_verdict x \<in> set (map engine_verdict (engine_Match rules e (lineageAdapter c) ScopeHost))"
    unfolding engine_matches_default [OF assms(1)] by simp
  then show ?thesis by force
qed

text \<open>The rules that can match an \<open>open\<close> event.\<close>

lemma open_finding_watched:
  assumes "e_Type e = EventOpen" and "r \<in> set defaultRules" and "legacy_finding e c ScopeHost r = Some x"
  shows "HostOpenWatched (e_Filename e) \<or> unwatched_match (lr_ID r) (e_Filename e)"
proof -
  have ty: "e_Type e \<noteq> EventExecve" "e_Type e \<noteq> EventModule" "e_Type e \<noteq> EventPtrace" "e_Type e \<noteq> EventBPF"
    using assms(1) by (simp_all add: event_type_defs)
  from assms(3) obtain h where h: "lr_Match r e c ScopeHost = Some h"
    by (auto simp: legacy_finding_def split: if_splits option.splits)
  have "r = rulePersistence \<or> r = ruleSensitiveFileAccess \<or> r = ruleCredentialFileAccess \<or>
      r = ruleHostLogTampering \<or> r = ruleHostDockerSock"
    using assms(2) h ty
    by (auto simp: defaultRules_def ruleKernelModuleLoad_def ruleBPFProgLoad_def ruleReverseShell_def
        ruleProcessInjection_def ruleShellInContainer_def rulePrivilegedProcess_def ruleNetworkTool_def
        ruleContainerDrift_def rulePackageManager_def ruleHostUserManipulation_def ruleHostTmpExec_def
        ruleHostShellFromService_def Let_def)
  then show ?thesis
  proof (elim disjE)
    assume r: "r = rulePersistence"
    with h assms(1) have "hasAnyPrefix (e_Filename e) hostPersistencePrefixes \<or>
        containsAny (e_Filename e) hostPersistenceSubstrings"
      by (auto simp: rulePersistence_def Let_def split: if_splits)
    then show ?thesis
      using persistence_watched watched_substring [of "''/.ssh/authorized_keys''" "e_Filename e"]
      by (auto simp: containsAny_def hostPersistenceSubstrings_def hostOpenWatchSubstrings_def)
  next
    assume r: "r = ruleSensitiveFileAccess"
    with h assms(1) have "hasAnyPrefix (e_Filename e) sensitiveFiles"
      by (auto simp: ruleSensitiveFileAccess_def hasAnyPrefix_def split: if_splits)
    with r sensitive_watched show ?thesis by (simp add: ruleSensitiveFileAccess_def)
  next
    assume r: "r = ruleCredentialFileAccess"
    with h assms(1) have "containsAny (e_Filename e) credFiles"
      by (auto simp: ruleCredentialFileAccess_def split: if_splits)
    with r credential_watched show ?thesis by (simp add: ruleCredentialFileAccess_def)
  next
    assume r: "r = ruleHostLogTampering"
    with h assms(1) ty have "has_prefix (e_Filename e) ''/var/log'' \<or> containsAny (e_Filename e) logHistoryFiles"
      by (auto simp: ruleHostLogTampering_def Let_def split: if_splits)
    then show ?thesis
      using r watched_prefix [of "''/var/log''" "e_Filename e"]
      by (auto simp: ruleHostLogTampering_def unwatched_match_def hostOpenWatchPrefixes_def)
  next
    assume r: "r = ruleHostDockerSock"
    with h assms(1) have "e_Filename e = ''/var/run/docker.sock'' \<or> e_Filename e = ''/run/docker.sock''"
      by (auto simp: ruleHostDockerSock_def split: if_splits)
    with docker_sock_watched show ?thesis by auto
  qed
qed

section \<open>Properties\<close>

text \<open>
  C22. The allowlist and the ruleset fit, up to named exceptions: when the engine with the embedded ruleset
  raises a finding on a host \<open>open\<close> event, the collector delivers the event (unless it is its own), or the
  finding is log tampering of a history or login file outside \<open>/var/log\<close>, a \<open>.env\<close> or \<open>/run/secrets\<close>
  credential, or one of three sensitive files, which the allowlist does not have.
\<close>

theorem host_findings_deliverable:
  assumes "e_Type e = EventOpen" and "IsHost e"
    and "load_ruleset default_file readDir readFile decode [] [] = Inr rules"
    and "f \<in> set (engine_Match rules e (lineageAdapter c) ScopeHost)"
  shows "(\<forall>h. e_PID e \<noteq> hf_selfPID h \<longrightarrow> keep h e) \<or> unwatched_match (r_RuleID f) (e_Filename e)"
proof -
  have "map engine_verdict (engine_Match rules e (lineageAdapter c) ScopeHost) =
      map legacy_verdict (legacyFindings defaultRules e c ScopeHost)"
    using engine_matches_default [OF assms(3)] .
  with assms(4) obtain x where x: "x \<in> set (legacyFindings defaultRules e c ScopeHost)"
    "engine_verdict f = legacy_verdict x"
    by (metis (no_types, lifting) imageE image_eqI list.set_map)
  then obtain r where "r \<in> set defaultRules" "legacy_finding e c ScopeHost r = Some x"
    by (auto simp: legacyFindings_def List.map_filter_def)
  moreover from this x(2) have "r_RuleID f = lr_ID r"
    by (auto simp: engine_verdict_def legacy_verdict_def legacy_finding_def split: option.splits if_splits)
  ultimately show ?thesis
    using open_finding_watched [OF assms(1), of r c x] assms(1) by (auto simp: keep_def)
qed

definition host_open :: "string \<Rightarrow> event" where
  "host_open path = empty_event\<lparr>e_PID := 42, e_Type := EventOpen, e_ProcessName := ''sh'', e_Filename := path,
     e_Arg1 := oWRONLY OR oTRUNC, e_Ancestry := [''sshd'']\<rparr>"

definition host_classifier :: classifier where
  "host_classifier = newClassifier None"

lemma host_open_view [simp]:
  "e_Type (host_open path) = EventOpen" "IsHost (host_open path)" "e_Filename (host_open path) = path"
  "e_PID (host_open path) = 42" "writerChain (host_open path) = [''sh'', ''sshd'']"
  "e_Arg1 (host_open path) AND writeFlagMask \<noteq> 0"
  by (simp_all add: host_open_def empty_event_def IsHost_def writerChain_def oWRONLY_def oTRUNC_def
      writeFlagMask_def oRDWR_def oCREAT_def oAPPEND_def)

lemma host_open_untrusted: "\<not> trustedWriter host_classifier (writerChain (host_open path))"
  unfolding host_open_view by code_simp

theorem host_findings_deliverable_witness:
  "\<exists>f \<in> set (engine_Match default_rules (host_open ''/etc/cron.d/x'') (lineageAdapter host_classifier) ScopeHost).
     (\<forall>h. e_PID (host_open ''/etc/cron.d/x'') \<noteq> hf_selfPID h \<longrightarrow> keep h (host_open ''/etc/cron.d/x'')) \<or>
     unwatched_match (r_RuleID f) ''/etc/cron.d/x''"
proof -
  let ?e = "host_open ''/etc/cron.d/x''"
  have "hasAnyPrefix ''/etc/cron.d/x'' hostPersistencePrefixes" by code_simp
  then have "\<exists>x. legacy_finding ?e host_classifier ScopeHost rulePersistence = Some x"
    by (simp add: legacy_finding_def rulePersistence_def Let_def host_open_untrusted del: host_open_view(5))
  then obtain x where "legacy_finding ?e host_classifier ScopeHost rulePersistence = Some x" by blast
  from engine_finding [OF default_loads _ this] obtain f where
    f: "f \<in> set (engine_Match default_rules ?e (lineageAdapter host_classifier) ScopeHost)"
    by (auto simp: defaultRules_def)
  with host_findings_deliverable [OF _ _ default_loads f] show ?thesis by force
qed

text \<open>
  One of the exceptions is an attack the ruleset is meant to see: truncating the shell history of root
  is a high-severity finding of the engine, but no collector without an operator's extra path delivers the
  event, so the host rule cannot fire in production.
\<close>

theorem history_wipe_not_delivered:
  assumes "load_ruleset default_file readDir readFile decode [] [] = Inr rules"
    and "e_Type e = EventOpen" and "e_Filename e = ''/root/.bash_history''"
    and "e_Arg1 e AND writeFlagMask \<noteq> 0" and "\<not> trustedWriter c (writerChain e)"
    and "hf_openExtra h = []"
  shows "(\<exists>f \<in> set (engine_Match rules e (lineageAdapter c) ScopeHost).
      r_RuleID f = ''host_log_tampering'' \<and> r_Severity f = SeverityHigh) \<and> \<not> keep h e"
proof -
  have hist: "containsAny ''/root/.bash_history'' logHistoryFiles" and unwatched: "\<not> HostOpenWatched ''/root/.bash_history''"
    by code_simp+
  have "e_Type e \<noteq> EventExecve" using assms(2) by (simp add: event_type_defs)
  then have "\<exists>reason. legacy_finding e c ScopeHost ruleHostLogTampering = Some (ruleHostLogTampering, SeverityHigh, reason)"
    using assms(2-5) hist by (simp add: legacy_finding_def ruleHostLogTampering_def Let_def ScopeHost_def SeverityHigh_def)
  then obtain reason where "legacy_finding e c ScopeHost ruleHostLogTampering = Some (ruleHostLogTampering, SeverityHigh, reason)"
    by blast
  from engine_finding [OF assms(1) _ this] obtain f where
    "f \<in> set (engine_Match rules e (lineageAdapter c) ScopeHost)"
    "engine_verdict f = legacy_verdict (ruleHostLogTampering, SeverityHigh, reason)"
    by (auto simp: defaultRules_def)
  moreover from this(2) have "r_RuleID f = ''host_log_tampering''" "r_Severity f = SeverityHigh"
    by (simp_all add: engine_verdict_def legacy_verdict_def ruleHostLogTampering_def)
  moreover have "\<not> keep h e"
    using assms(2,3,6) unwatched by (simp add: keep_def hf_containsAny_def)
  ultimately show ?thesis by blast
qed

theorem history_wipe_not_delivered_witness:
  "(\<exists>f \<in> set (engine_Match default_rules (host_open ''/root/.bash_history'') (lineageAdapter host_classifier) ScopeHost).
      r_RuleID f = ''host_log_tampering'' \<and> r_Severity f = SeverityHigh) \<and>
   \<not> keep (newHostFilter 7 (load_fields (\<lambda>_. []))) (host_open ''/root/.bash_history'')"
proof (rule history_wipe_not_delivered [OF default_loads])
  show "hf_openExtra (newHostFilter 7 (load_fields (\<lambda>_. []))) = []"
    by (simp add: newHostFilter_def load_fields_def Let_def splitCSV_def)
qed (simp_all add: host_open_untrusted del: host_open_view(5))

end
