(* ===== verification/AuthLog.thy ===== *)
theory AuthLog
  imports Prelude
begin

text \<open>
  The parser of \<open>internal/logtail/tracker.go\<close>: the regular expressions of \<open>failedAuthPatterns\<close> and
  \<open>FailedAuthIP\<close>. An expression is the datatype \<open>regex\<close>; \<open>matches\<close> lists the ways it matches a prefix
  in the order Go's \<open>regexp\<close> prefers them (greedy repetitions first), so that \<open>FindStringSubmatch\<close> is the
  first of the leftmost position that has any. The dot is a byte other than a newline: what follows it in
  every pattern is an ASCII literal or digit, so reading runes or bytes makes no difference.
\<close>

section \<open>Regular expressions\<close>

datatype regex =
    Lit string
  | Class "char \<Rightarrow> bool"
  | Then regex regex
  | Or regex regex
  | Many "char \<Rightarrow> bool"
  | Capture regex

text \<open>A greedy repetition of a class of bytes: what is left after it, the longest repetition first.\<close>

fun rests :: "(char \<Rightarrow> bool) \<Rightarrow> string \<Rightarrow> string list" where
  "rests P [] = [[]]"
| "rests P (c # s) = (if P c then rests P s @ [c # s] else [c # s])"

text \<open>A match is what is left of the input and the text of the capturing group.\<close>

fun matches :: "regex \<Rightarrow> string \<Rightarrow> (string \<times> string) list" where
  "matches (Lit t) s = (if has_prefix s t then [(List.drop (length t) s, [])] else [])"
| "matches (Class P) s = (case s of c # s' \<Rightarrow> if P c then [(s', [])] else [] | [] \<Rightarrow> [])"
| "matches (Then r q) s = concat (map (\<lambda>(s', g). map (\<lambda>(s'', h). (s'', g @ h)) (matches q s')) (matches r s))"
| "matches (Or r q) s = matches r s @ matches q s"
| "matches (Many P) s = map (\<lambda>s'. (s', [])) (rests P s)"
| "matches (Capture r) s = map (\<lambda>(s', g). (s', take (length s - length s') s)) (matches r s)"

fun find_submatch :: "regex \<Rightarrow> string \<Rightarrow> string option" where
  "find_submatch r s =
     (case matches r s of
        (rest, g) # ms \<Rightarrow> Some g
      | [] \<Rightarrow> (case s of [] \<Rightarrow> None | c # s' \<Rightarrow> find_submatch r s'))"

declare find_submatch.simps [simp del]

section \<open>The patterns\<close>

definition dot :: regex where
  "dot = Many (\<lambda>c. c \<noteq> CHR 0x0A)"

definition opt :: "regex \<Rightarrow> regex" where
  "opt r = Or r (Lit [])"

definition digits13 :: regex where
  "digits13 = Then (Class is_digit) (opt (Then (Class is_digit) (opt (Class is_digit))))"

definition quad :: regex where
  "quad = (let part = Then (Lit ''.'') digits13 in Then digits13 (Then part (Then part part)))"

definition is_hexcolon :: "char \<Rightarrow> bool" where
  "is_hexcolon c \<longleftrightarrow> is_digit c \<or> (97 \<le> code c \<and> code c \<le> 102) \<or> (65 \<le> code c \<and> code c \<le> 70) \<or> c = CHR '':''"

text \<open>The repetitions \<open>{3,}\<close> and \<open>+\<close>.\<close>

definition hextets :: regex where
  "hextets = (let x = Class is_hexcolon in
     Then x (Then x (Then x (Then (Many is_hexcolon) (Then (Lit '':'') (Then x (Many is_hexcolon)))))))"

definition failedAuthPatterns :: "regex list" where
  "failedAuthPatterns =
     [Then (Lit ''Failed password for '') (Then dot (Then (Lit ''from '') (Capture quad))),
      Then (Lit ''Invalid user '') (Then dot (Then (Lit ''from '') (Capture quad))),
      Then (Lit ''Failed publickey for '') (Then dot (Then (Lit ''from '') (Capture quad))),
      Then (Lit ''authentication failure;'') (Then dot (Then (Lit ''rhost='') (Capture quad))),
      Then (Lit ''Connection '') (Then (Or (Lit ''closed'') (Lit ''reset''))
        (Then (Lit '' by authenticating user '') (Then dot (Then (Lit '' '') (Capture quad))))),
      Then (Lit ''Failed password for '') (Then dot (Then (Lit ''from '') (Capture hextets)))]"

fun first_submatch :: "regex list \<Rightarrow> string \<Rightarrow> string option" where
  "first_submatch [] line = None"
| "first_submatch (re # res) line =
     (case find_submatch re line of Some ip \<Rightarrow> Some ip | None \<Rightarrow> first_submatch res line)"

definition FailedAuthIP :: "string \<Rightarrow> string option" where
  "FailedAuthIP line = first_submatch failedAuthPatterns line"

section \<open>What the expressions match\<close>

lemma matches_Then_first:
  "matches r s = (s', g) # ms \<Longrightarrow> matches q s' = (s'', h) # ns \<Longrightarrow>
   \<exists>ks. matches (Then r q) s = (s'', g @ h) # ks"
  by simp

lemma rests_suffix: "x \<in> set (rests P s) \<Longrightarrow> \<exists>w. s = w @ x \<and> list_all P w"
proof (induction s)
  case (Cons c s)
  then show ?case
    by (auto split: if_splits intro: exI [of _ "[]"] exI [of _ "c # _"])
qed simp

text \<open>Greed: what comes before a position in the list of rests are its proper suffixes.\<close>

lemma rests_split:
  "list_all P u \<Longrightarrow> \<exists>xs ys. rests P (u @ t) = xs @ t # ys \<and> (\<forall>x \<in> set xs. \<exists>w. w \<noteq> [] \<and> t = w @ x)"
proof (induction u)
  case Nil
  show ?case
  proof (cases t)
    case (Cons c t')
    have "\<forall>x \<in> set (rests P t'). \<exists>w. w \<noteq> [] \<and> t = w @ x"
      using rests_suffix [of _ P t'] Cons by (metis append_Cons list.distinct(1))
    moreover have "rests P t = (if P c then rests P t' else []) @ t # []" using Cons by simp
    ultimately show ?thesis by (metis append_self_conv2 empty_iff empty_set self_append_conv2 append_Nil)
  qed (auto intro: exI [of _ "[]"])
next
  case (Cons c u)
  then obtain xs ys where "rests P (u @ t) = xs @ t # ys" "\<forall>x \<in> set xs. \<exists>w. w \<noteq> [] \<and> t = w @ x" by auto
  moreover from this Cons.prems have "rests P ((c # u) @ t) = xs @ t # (ys @ [(c # u) @ t])" by simp
  ultimately show ?case by blast
qed

definition capture_after :: "string \<Rightarrow> string \<Rightarrow> regex \<Rightarrow> regex" where
  "capture_after A B q = Then (Lit A) (Then dot (Then (Lit B) (Capture q)))"

definition last_in :: "string \<Rightarrow> string \<Rightarrow> bool" where
  \<comment> \<open>\<open>B\<close> starts nowhere after the first byte of the text\<close>
  "last_in B t \<longleftrightarrow> (\<forall>w x. w \<noteq> [] \<longrightarrow> t = w @ x \<longrightarrow> \<not> has_prefix x B)"

lemma concat_map_first:
  "(\<And>x. x \<in> set xs \<Longrightarrow> f x = []) \<Longrightarrow> f t = m # ms \<Longrightarrow> \<exists>ks. concat (map f (xs @ t # ys)) = m # ks"
  by (induction xs) simp_all

lemma matches_capture_after:
  assumes u: "list_all (\<lambda>c. c \<noteq> CHR 0x0A) u" and lst: "last_in B (B @ s)" and q: "matches q s = (r, g) # ms"
  shows "\<exists>ks. matches (capture_after A B q) (A @ u @ B @ s) = (r, take (length s - length r) s) # ks"
proof -
  let ?f = "\<lambda>x. matches (Then (Lit B) (Capture q)) x"
  obtain xs ys where rs: "rests (\<lambda>c. c \<noteq> CHR 0x0A) (u @ B @ s) = xs @ (B @ s) # ys"
    and proper: "\<forall>x \<in> set xs. \<exists>w. w \<noteq> [] \<and> B @ s = w @ x"
    using rests_split [OF u] by blast
  have none: "?f x = []" if "x \<in> set xs" for x
    using that proper lst by (auto simp: last_in_def)
  have "\<exists>ms'. ?f (B @ s) = (r, take (length s - length r) s) # ms'"
    using q by (simp add: has_prefix_iff)
  then have "\<exists>ks. concat (map ?f (xs @ (B @ s) # ys)) = (r, take (length s - length r) s) # ks"
    using concat_map_first [of xs ?f] none by blast
  moreover have "matches (capture_after A B q) (A @ u @ B @ s) = concat (map ?f (xs @ (B @ s) # ys))"
    by (simp add: capture_after_def dot_def rs has_prefix_iff o_def)
  ultimately show ?thesis by simp
qed

lemma matches_capture_after_lit: "matches (capture_after A B q) s \<noteq> [] \<Longrightarrow> has_prefix s A"
  by (simp add: capture_after_def split: if_splits)

lemma split_after:
  "length t \<le> length y \<Longrightarrow> x @ t = a @ y \<Longrightarrow> (\<And>v. y = v @ t \<Longrightarrow> x = a @ v \<Longrightarrow> thesis) \<Longrightarrow> thesis"
  unfolding append_eq_append_conv2 by (elim exE disjE conjE) fastforce+

text \<open>
  The capture of such a pattern is taken after the last \<open>B\<close> of the line, wherever the match starts.
\<close>

lemma find_submatch_last:
  assumes "list_all (\<lambda>c. c \<noteq> CHR 0x0A) (pre @ A @ u)" and lst: "last_in B (B @ s)"
    and q: "matches q s = (r, g) # ms"
  shows "find_submatch (capture_after A B q) (pre @ A @ u @ B @ s) = Some (take (length s - length r) s)"
  using assms(1)
proof (induction pre)
  case Nil
  then show ?case
    using matches_capture_after [OF _ lst q, of u A] by (subst find_submatch.simps) (auto split: list.splits)
next
  case (Cons c pre)
  let ?s = "(c # pre) @ A @ u @ B @ s"
  show ?case
  proof (cases "matches (capture_after A B q) ?s")
    case Nil
    with Cons show ?thesis by (subst find_submatch.simps) simp
  next
    case (Cons m ks)
    then have "has_prefix ?s A" by (intro matches_capture_after_lit [of A B q]) simp
    then obtain s1 where s1: "?s = A @ s1" by (auto simp: has_prefix_iff)
    have long: "length (B @ s) \<le> length s1" using arg_cong [OF s1, of length] by simp
    from s1 have "((c # pre) @ A @ u) @ (B @ s) = A @ s1" by simp
    with long obtain v where v: "s1 = v @ B @ s" "(c # pre) @ A @ u = A @ v"
      by (rule split_after)
    then have "list_all (\<lambda>c. c \<noteq> CHR 0x0A) v"
      using Cons.prems by (metis append.assoc list_all_append)
    from matches_capture_after [OF this lst q, of A]
    have "\<exists>ks. matches (capture_after A B q) ?s = (r, take (length s - length r) s) # ks"
      unfolding s1 v(1) by simp
    then show ?thesis by (subst find_submatch.simps) auto
  qed
qed

text \<open>A pattern finds nothing in a line without the first byte of its literal.\<close>

lemma find_submatch_None: "c \<notin> set s \<Longrightarrow> find_submatch (capture_after (c # A) B q) s = None"
proof (induction s)
  case Nil
  then show ?case by (subst find_submatch.simps) (simp add: capture_after_def)
next
  case (Cons d s)
  then have "matches (capture_after (c # A) B q) (d # s) = []"
    using matches_capture_after_lit [of "c # A" B q "d # s"] by (cases "matches (capture_after (c # A) B q) (d # s)") auto
  with Cons show ?case by (subst find_submatch.simps) simp
qed

section \<open>Addresses\<close>

definition octet :: "string \<Rightarrow> bool" where
  "octet d \<longleftrightarrow> d \<noteq> [] \<and> length d \<le> 3 \<and> list_all is_digit d"

definition dotted :: "string \<Rightarrow> bool" where
  "dotted ip \<longleftrightarrow> (let ps = split_byte CHR ''.'' ip in length ps = 4 \<and> list_all octet ps)"

lemma dotted_parts:
  assumes "dotted ip"
  obtains a b c d where "octet a" "octet b" "octet c" "octet d"
    "ip = a @ ''.'' @ b @ ''.'' @ c @ ''.'' @ d"
proof -
  obtain a b c d where ps: "split_byte CHR ''.'' ip = [a, b, c, d]"
    using assms by (auto simp: dotted_def Let_def length_Suc_conv eval_nat_numeral)
  with join_split_byte [of "CHR ''.''" ip] assms that show ?thesis
    by (auto simp: dotted_def)
qed

definition stops :: "string \<Rightarrow> bool" where
  "stops s \<longleftrightarrow> (case s of [] \<Rightarrow> True | c # s' \<Rightarrow> \<not> is_digit c)"

lemma matches_digits13:
  "octet d \<Longrightarrow> stops s \<Longrightarrow> \<exists>ms. matches digits13 (d @ s) = (s, []) # ms"
proof -
  assume "octet d" "stops s"
  then consider x where "d = [x]" "is_digit x" | x y where "d = [x, y]" "is_digit x" "is_digit y"
    | x y z where "d = [x, y, z]" "is_digit x" "is_digit y" "is_digit z"
    by (auto simp: octet_def le_Suc_eq numeral_3_eq_3 length_Suc_conv)
  then show ?thesis
    using \<open>stops s\<close> by cases (auto simp: digits13_def opt_def stops_def split: list.splits)
qed

lemma matches_quad:
  assumes "dotted ip" and "stops s"
  shows "\<exists>ms. matches quad (ip @ s) = (s, []) # ms"
proof -
  obtain a b c d where o: "octet a" "octet b" "octet c" "octet d"
    and ip: "ip = a @ ''.'' @ b @ ''.'' @ c @ ''.'' @ d"
    using assms(1) by (rule dotted_parts)
  have dot_stops: "stops (''.'' @ t)" for t by (simp add: stops_def is_digit_def)
  have part: "\<exists>ms. matches (Then (Lit ''.'') digits13) (''.'' @ x @ t) = (t, []) # ms" if "octet x" "stops t" for x t
    using matches_digits13 [OF that] by (auto simp: has_prefix_iff)
  obtain ms1 where 1: "matches digits13 (a @ ''.'' @ b @ ''.'' @ c @ ''.'' @ d @ s) = (''.'' @ b @ ''.'' @ c @ ''.'' @ d @ s, []) # ms1"
    using matches_digits13 [OF o(1) dot_stops] by blast
  obtain ms2 where 2: "matches (Then (Lit ''.'') digits13) (''.'' @ b @ ''.'' @ c @ ''.'' @ d @ s) = (''.'' @ c @ ''.'' @ d @ s, []) # ms2"
    using part [OF o(2) dot_stops] by blast
  obtain ms3 where 3: "matches (Then (Lit ''.'') digits13) (''.'' @ c @ ''.'' @ d @ s) = (''.'' @ d @ s, []) # ms3"
    using part [OF o(3) dot_stops] by blast
  obtain ms4 where 4: "matches (Then (Lit ''.'') digits13) (''.'' @ d @ s) = (s, []) # ms4"
    using part [OF o(4) assms(2)] by blast
  obtain ks where 5: "matches (Then (Then (Lit ''.'') digits13) (Then (Lit ''.'') digits13)) (''.'' @ c @ ''.'' @ d @ s) = (s, [] @ []) # ks"
    using matches_Then_first [OF 3 4] by blast
  obtain ks' where 6: "matches (Then (Then (Lit ''.'') digits13) (Then (Then (Lit ''.'') digits13) (Then (Lit ''.'') digits13)))
      (''.'' @ b @ ''.'' @ c @ ''.'' @ d @ s) = (s, [] @ [] @ []) # ks'"
    using matches_Then_first [OF 2 5] by blast
  show ?thesis
    using matches_Then_first [OF 1 6] by (simp add: quad_def Let_def ip)
qed

lemma dotted_lacks: "dotted ip \<Longrightarrow> \<not> is_digit c \<Longrightarrow> c \<noteq> CHR ''.'' \<Longrightarrow> c \<notin> set ip"
  by (erule dotted_parts) (auto simp: octet_def list_all_iff)

lemma not_digits:
  "\<not> is_digit CHR ''f''" "\<not> is_digit CHR ''r''" "\<not> is_digit CHR ''F''" "\<not> is_digit CHR ''I''"
  "\<not> is_digit CHR 0x0A"
  by (simp_all add: is_digit_def)

text \<open>A literal with a byte that no address has starts nowhere inside one.\<close>

lemma last_in_ip:
  assumes ip: "b \<notin> set ip" and tl: "\<not> contains s (b # B)" and B: "b \<notin> set B"
  shows "last_in (b # B) ((b # B) @ ip @ s)"
  unfolding last_in_def
proof (intro allI impI notI)
  fix w x
  assume w: "w \<noteq> []" "(b # B) @ ip @ s = w @ x" and "has_prefix x (b # B)"
  then obtain y where x: "x = b # B @ y" by (auto simp: has_prefix_iff)
  from w obtain w' where w': "w = b # w'" "(B @ ip) @ s = w' @ x" by (cases w) auto
  from w'(2) consider us where "B @ ip = w' @ us" "us @ s = x" | us where "w' = (B @ ip) @ us" "s = us @ x"
    unfolding append_eq_append_conv2 by metis
  then show False
  proof cases
    case 1
    show False
    proof (cases us)
      case Nil
      with 1 x have "has_prefix s (b # B)" by (simp add: has_prefix_iff)
      with tl has_prefix_contains show False by blast
    next
      case (Cons c us')
      with 1 x have "b \<in> set (B @ ip)" by auto
      with B ip show False by auto
    qed
  next
    case 2
    with x have "contains s (b # B)" by (metis append_Cons contains_iff)
    with tl show False by blast
  qed
qed

section \<open>What a captured text is made of\<close>

fun made_of :: "(char \<Rightarrow> bool) \<Rightarrow> regex \<Rightarrow> bool" where
  "made_of P (Lit t) = list_all P t"
| "made_of P (Class Q) = (\<forall>c. Q c \<longrightarrow> P c)"
| "made_of P (Then r q) = (made_of P r \<and> made_of P q)"
| "made_of P (Or r q) = (made_of P r \<and> made_of P q)"
| "made_of P (Many Q) = (\<forall>c. Q c \<longrightarrow> P c)"
| "made_of P (Capture r) = made_of P r"

lemma matches_made_of:
  "(s', g) \<in> set (matches r s) \<Longrightarrow> made_of P r \<Longrightarrow> \<exists>w. s = w @ s' \<and> list_all P w"
proof (induction r arbitrary: s s' g)
  case (Many Q)
  then show ?case by (auto dest!: rests_suffix simp: list_all_iff)
next
  case (Then r q)
  from Then.prems(1) obtain s1 g1 h where 1: "(s1, g1) \<in> set (matches r s)" and 2: "(s', h) \<in> set (matches q s1)"
    by auto
  from Then.prems(2) have "made_of P r" "made_of P q" by simp_all
  with Then.IH(1) [OF 1] Then.IH(2) [OF 2] show ?case
    by (metis append.assoc list_all_append)
qed (auto split: if_splits list.splits simp: has_prefix_iff intro: exI [of _ "[_]"])

lemma matches_suffix: "(s', g) \<in> set (matches r s) \<Longrightarrow> \<exists>w. s = w @ s'"
proof -
  have "made_of (\<lambda>c. True) r" for r by (induction r) (simp_all add: list_all_iff)
  then show "(s', g) \<in> set (matches r s) \<Longrightarrow> \<exists>w. s = w @ s'" using matches_made_of by blast
qed

lemma capture_part:
  "(s', g) \<in> set (matches (Capture q) s) \<Longrightarrow> made_of P q \<Longrightarrow> s = g @ s' \<and> list_all P g"
proof -
  assume "(s', g) \<in> set (matches (Capture q) s)" and q: "made_of P q"
  then obtain h where h: "(s', h) \<in> set (matches q s)" and g: "g = take (length s - length s') s" by auto
  from matches_made_of [OF h q] obtain w where "s = w @ s'" "list_all P w" by blast
  with g show ?thesis by simp
qed

definition part_of :: "(char \<Rightarrow> bool) \<Rightarrow> string \<Rightarrow> string \<Rightarrow> bool" where
  "part_of P s g \<longleftrightarrow> list_all P g \<and> sublist g s"

lemma matches_part_Capture:
  "(s', g) \<in> set (matches (Capture q) s) \<Longrightarrow> made_of P q \<Longrightarrow> part_of P s g"
  using capture_part [of s' g q s P] by (simp add: part_of_def)

lemma matches_part_Then:
  assumes "(s'', g) \<in> set (matches (Then r q) s)"
    and "\<And>s' h. (s', h) \<in> set (matches r s) \<Longrightarrow> h = []"
    and "\<And>s' h. (s'', h) \<in> set (matches q s') \<Longrightarrow> part_of P s' h"
  shows "part_of P s g"
proof -
  from assms(1) obtain s1 g1 h where 1: "(s1, g1) \<in> set (matches r s)" and 2: "(s'', h) \<in> set (matches q s1)"
    and "g = g1 @ h" by auto
  with assms(2) [OF 1] assms(3) [OF 2] have "part_of P s1 g" by simp
  moreover obtain w where "s = w @ s1" using matches_suffix [OF 1] by blast
  ultimately show ?thesis by (simp add: part_of_def sublist_append)
qed

fun plain_re :: "regex \<Rightarrow> bool" where
  "plain_re (Then r q) = (plain_re r \<and> plain_re q)"
| "plain_re (Or r q) = (plain_re r \<and> plain_re q)"
| "plain_re (Capture r) = False"
| "plain_re r = True"

lemma matches_plain: "plain_re r \<Longrightarrow> (s', g) \<in> set (matches r s) \<Longrightarrow> g = []"
  by (induction r arbitrary: s s' g) (auto split: if_splits list.splits, blast?)

text \<open>The patterns: plain expressions, then a capture made of some bytes.\<close>

fun captures :: "(char \<Rightarrow> bool) \<Rightarrow> regex \<Rightarrow> bool" where
  "captures P (Then r q) = (plain_re r \<and> captures P q)"
| "captures P (Capture q) = made_of P q"
| "captures P r = False"

lemma matches_captures: "captures P r \<Longrightarrow> (s', g) \<in> set (matches r s) \<Longrightarrow> part_of P s g"
proof (induction r arbitrary: s s' g)
  case (Then r q)
  from Then.prems show ?case
    by (intro matches_part_Then [OF Then.prems(2)]) (auto dest: matches_plain intro: Then.IH(2))
next
  case (Capture q)
  then show ?case by (intro matches_part_Capture [OF Capture.prems(2)]) simp
qed simp_all

lemma find_submatch_part: "captures P r \<Longrightarrow> find_submatch r s = Some g \<Longrightarrow> part_of P s g"
proof (induction s)
  case Nil
  then show ?case
    by (subst (asm) find_submatch.simps) (auto split: list.splits intro: matches_captures)
next
  case (Cons c s)
  show ?case
  proof (cases "matches r (c # s)")
    case Nil
    with Cons.prems have "find_submatch r s = Some g" by (subst (asm) find_submatch.simps) simp
    with Cons show ?thesis by (auto simp: part_of_def sublist_Cons_right)
  next
    case (Cons m ms)
    with Cons.prems have "(fst m, g) \<in> set (matches r (c # s))"
      by (subst (asm) find_submatch.simps) (auto split: prod.splits)
    with Cons.prems show ?thesis by (intro matches_captures)
  qed
qed

definition address_char :: "char \<Rightarrow> bool" where
  "address_char c \<longleftrightarrow> is_hexcolon c \<or> c = CHR ''.''"

lemma patterns_capture: "list_all (captures address_char) failedAuthPatterns"
  by (simp add: failedAuthPatterns_def dot_def quad_def hextets_def digits13_def opt_def Let_def
      address_char_def is_hexcolon_def)

lemma first_submatch_part:
  "list_all (captures P) res \<Longrightarrow> first_submatch res s = Some g \<Longrightarrow> part_of P s g"
  by (induction res) (auto split: option.splits intro: find_submatch_part)

section \<open>Properties\<close>

lemma capture_quad:
  assumes "dotted ip" "stops tail" "list_all (\<lambda>c. c \<noteq> CHR 0x0A) (pre @ A @ u)" "last_in B (B @ ip @ tail)"
  shows "find_submatch (capture_after A B quad) (pre @ A @ u @ B @ ip @ tail) = Some ip"
  using matches_quad [OF assms(1,2)] find_submatch_last [OF assms(3,4)] by fastforce

text \<open>
  A failed-password line is attributed to the address that follows its last \<open>from\<close>, whatever user
  name the client sent: no user name, not even one that quotes another failure, moves the attempt to
  another address. The part of the line up to the address holds no newline.
\<close>

theorem failed_password_source:
  assumes "dotted ip" and "CHR 0x0A \<notin> set (pre @ user)" and "stops tail" and "\<not> contains tail ''from ''"
  shows "FailedAuthIP (pre @ ''Failed password for '' @ user @ ''from '' @ ip @ tail) = Some ip"
proof -
  have "last_in ''from '' (''from '' @ ip @ tail)"
    using last_in_ip [of "CHR ''f''" ip tail "''rom ''"] dotted_lacks [OF assms(1) not_digits(1)] assms(4) by simp
  then have "find_submatch (capture_after ''Failed password for '' ''from '' quad)
      (pre @ ''Failed password for '' @ user @ ''from '' @ ip @ tail) = Some ip"
    using assms by (intro capture_quad) (auto simp: list_all_iff)
  then show ?thesis
    by (simp add: FailedAuthIP_def failedAuthPatterns_def flip: capture_after_def)
qed

theorem failed_password_source_witness:
  "FailedAuthIP (''sshd[1]: '' @ ''Failed password for '' @ ''invalid user Failed password for x from 6.6.6.6 port 1 '' @
     ''from '' @ ''203.0.113.7'' @ '' port 22 ssh2'') = Some ''203.0.113.7''"
  by (rule failed_password_source) (simp_all add: dotted_def octet_def stops_def is_digit_def)

text \<open>
  Not so for the PAM phrasing, where the user name comes after the address: a client that logs in as
  \<open>rhost=\<close> and an address is counted under that address, so it is never counted itself and can have
  any host reported.
\<close>

theorem pam_user_forges_source:
  assumes "dotted real" and "dotted forged"
  shows "FailedAuthIP (''sshd: pam_unix(sshd:auth): authentication failure; uid=0 tty=ssh ruser= rhost='' @ real @
     ''  user=rhost='' @ forged @ [CHR 0x0A]) = Some forged"
proof -
  let ?line = "''sshd: pam_unix(sshd:auth): authentication failure; uid=0 tty=ssh ruser= rhost='' @ real @
     ''  user=rhost='' @ forged @ [CHR 0x0A]"
  have none: "find_submatch (capture_after (CHR ''F'' # A) B q) ?line = None"
    "find_submatch (capture_after (CHR ''I'' # A) B q) ?line = None" for A B q
    using assms by (intro find_submatch_None; simp add: dotted_lacks not_digits)+
  have "last_in ''rhost='' (''rhost='' @ forged @ [CHR 0x0A])"
    using last_in_ip [of "CHR ''r''" forged "[CHR 0x0A]" "''host=''"] dotted_lacks [OF assms(2) not_digits(2)] by simp
  moreover have "list_all (\<lambda>c. c \<noteq> CHR 0x0A) (''sshd: pam_unix(sshd:auth): '' @ ''authentication failure;'' @
      ('' uid=0 tty=ssh ruser= rhost='' @ real @ ''  user=''))"
    using dotted_lacks [OF assms(1) not_digits(5)] by (auto simp: list_all_iff)
  ultimately have "find_submatch (capture_after ''authentication failure;'' ''rhost='' quad)
      (''sshd: pam_unix(sshd:auth): '' @ ''authentication failure;'' @ ('' uid=0 tty=ssh ruser= rhost='' @ real @ ''  user='') @
       ''rhost='' @ forged @ [CHR 0x0A]) = Some forged"
    using assms by (intro capture_quad) (simp_all add: stops_def not_digits)
  then show ?thesis
    using none by (simp add: FailedAuthIP_def failedAuthPatterns_def flip: capture_after_def)
qed

theorem pam_user_forges_source_witness:
  "FailedAuthIP (''sshd: pam_unix(sshd:auth): authentication failure; uid=0 tty=ssh ruser= rhost='' @ ''203.0.113.7'' @
     ''  user=rhost='' @ ''6.6.6.6'' @ [CHR 0x0A]) = Some ''6.6.6.6''"
  by (rule pam_user_forges_source) (simp_all add: dotted_def octet_def is_digit_def)

text \<open>
  What the parser reports as an address is always a part of the line made of hexadecimal digits, dots
  and colons, so the reason and details of the alert built from it carry no other text of the client.
\<close>

theorem reported_address_clean:
  assumes "FailedAuthIP line = Some ip"
  shows "list_all address_char ip \<and> sublist ip line"
  using first_submatch_part [OF patterns_capture] assms by (simp add: FailedAuthIP_def part_of_def)

theorem reported_address_clean_witness:
  "list_all address_char ''192.0.2.55'' \<and> sublist ''192.0.2.55'' ''Invalid user x from 192.0.2.55''"
  by (rule reported_address_clean) code_simp

end
