(* ===== verification/LogTail.thy ===== *)
theory LogTail
  imports AuthLog Alerts Window GoInt
begin

text \<open>
  The SSH brute-force detector, \<open>internal/logtail\<close>: the sliding-window \<open>tracker\<close>, \<open>handleLine\<close>, and
  one round of the polling loop of \<open>Run\<close>. A file is named by its inode number; a round reads what the
  environment record \<open>tick_env\<close> says of the path and of the open file. Reading times and the
  interpretation of the window laws are as in the other sliding windows.
\<close>

section \<open>The tracker\<close>

record tracker =
  tk_threshold :: int
  tk_window :: duration
  tk_hit :: "(string \<times> time list) list"

definition newTracker :: "int \<Rightarrow> duration \<Rightarrow> tracker" where
  "newTracker threshold window =
     \<lparr>tk_threshold = (if threshold \<le> 0 then 5 else threshold),
      tk_window = (if window \<le> 0 then 60 * 1000000000 else window), tk_hit = []\<rparr>"

fun hits_fresh :: "time \<Rightarrow> time list \<Rightarrow> time list" where
  "hits_fresh cutoff [] = []"
| "hits_fresh cutoff (at # ts) =
     (if time_after at cutoff then at # hits_fresh cutoff ts else hits_fresh cutoff ts)"

text \<open>A map read of a missing key gives nil.\<close>

definition hits :: "tracker \<Rightarrow> string \<Rightarrow> time list" where
  "hits t ip = (case map_of (tk_hit t) ip of Some ts \<Rightarrow> ts | None \<Rightarrow> [])"

definition add :: "tracker \<Rightarrow> string \<Rightarrow> time \<Rightarrow> tracker \<times> nat \<times> bool" where
  "add t ip now =
     (let cutoff = now - tk_window t;
          fresh = hits_fresh cutoff (hits t ip) @ [now]
      in if tk_threshold t \<le> int (length fresh)
         then (t\<lparr>tk_hit := AList.delete ip (tk_hit t)\<rparr>, length fresh, True)
         else (t\<lparr>tk_hit := AList.update ip fresh (tk_hit t)\<rparr>, length fresh, False))"

interpretation hits: sliding_window "\<lambda>now. hits_fresh (now - w)" id w for w
  by unfold_locales (simp_all add: time_after_def)

section \<open>Lines\<close>

record lt_config =
  lt_Path :: string
  lt_Threshold :: int
  lt_Window :: duration
  lt_ServerName :: string
  lt_PollInterval :: duration

record tailer =
  tl_cfg :: lt_config
  tl_tr :: tracker
  tl_f :: "nat option"
  tl_pos :: nat
  tl_offset :: nat

definition lt_New :: "lt_config \<Rightarrow> tailer" where
  "lt_New cfg =
     (let cfg' = (if lt_PollInterval cfg \<le> 0 then cfg\<lparr>lt_PollInterval := 1000000000\<rparr> else cfg)
      in \<lparr>tl_cfg = cfg', tl_tr = newTracker (lt_Threshold cfg') (lt_Window cfg'),
          tl_f = None, tl_pos = 0, tl_offset = 0\<rparr>)"

definition brute_alert :: "lt_config \<Rightarrow> string \<Rightarrow> nat \<Rightarrow> time \<Rightarrow> alert" where
  "brute_alert cfg ip n now =
     empty_alert\<lparr>a_RuleID := ''ssh_bruteforce'', a_Scope := ScopeHostName, a_Severity := SeverityHigh,
       a_Reason := ''SSH brute-force: '' @ show_nat n @ '' failed authentications from '' @ ip @ '' within '' @
         show_duration (lt_Window cfg),
       a_MITRETTP := ''T1110.001'', a_MITRETactic := ''Credential Access'',
       a_KillChainPhase := ''Credential Access'', a_Tags := [''host'', ''ssh'', ''brute-force''],
       a_ProcessName := ''sshd'', a_ServerName := lt_ServerName cfg, a_Timestamp := now,
       a_Details := [(''source_ip'', GStr ip), (''attempts'', GInt (int n)),
         (''window_seconds'', GInt (lt_Window cfg div 1000000000))]\<rparr>"

definition handleLine :: "tailer \<Rightarrow> string \<Rightarrow> time \<Rightarrow> tailer \<times> alert option" where
  "handleLine t line now =
     (case FailedAuthIP line of
        None \<Rightarrow> (t, None)
      | Some ip \<Rightarrow>
          (case add (tl_tr t) ip now of (tr, n, fired) \<Rightarrow>
             let t' = t\<lparr>tl_tr := tr\<rparr> in
             if \<not> fired then (t', None) else (t', Some (brute_alert (tl_cfg t) ip n now))))"

section \<open>Polling\<close>

text \<open>\<open>ReadString('\n')\<close>: up to and with the first newline, or all that is left.\<close>

fun read_line :: "string \<Rightarrow> string \<times> string" where
  "read_line [] = ([], [])"
| "read_line (c # s) = (if c = CHR 0x0A then ([c], s) else (case read_line s of (l, r) \<Rightarrow> (c # l, r)))"

lemma read_line_append: "read_line s = (l, r) \<Longrightarrow> s = l @ r"
  by (induction s arbitrary: l r) (auto split: if_splits prod.splits)

lemma read_line_Nil_iff: "read_line s = (l, r) \<Longrightarrow> l = [] \<longleftrightarrow> s = []"
  by (cases s) (auto split: if_splits prod.splits)

text \<open>
  The inner loop over the bytes after the reader's position; the clock is read once per line. A partial
  last line is left for the next round by seeking back to the offset.
\<close>

function read_loop :: "(nat \<Rightarrow> time) \<Rightarrow> nat \<Rightarrow> tailer \<Rightarrow> string \<Rightarrow> tailer \<times> alert list" where
  "read_loop clk k t buf =
     (case read_line buf of (line, rest) \<Rightarrow>
        if line = [] then (t, [])
        else if List.last line = CHR 0x0A
        then (case handleLine (t\<lparr>tl_offset := tl_offset t + length line, tl_pos := tl_pos t + length line\<rparr>) line (clk k) of
                (t', a) \<Rightarrow>
                (case read_loop clk (Suc k) t' rest of
                   (t'', as) \<Rightarrow> (t'', (case a of None \<Rightarrow> as | Some al \<Rightarrow> al # as))))
        else (t\<lparr>tl_pos := tl_offset t\<rparr>, []))"
  by pat_completeness auto

termination
  by (relation "measure (\<lambda>(clk, k, t, buf). length buf)") (auto dest: sym [THEN read_line_append])

declare read_loop.simps [simp del]

record tick_env =
  te_open :: "nat option"
  te_fstat :: "nat option"
  te_stat :: "nat option"
  te_reopen :: "nat option"
  te_data :: "nat \<Rightarrow> string"
  te_clk :: "nat \<Rightarrow> time"

definition openAtEnd :: "tick_env \<Rightarrow> tailer \<Rightarrow> tailer" where
  "openAtEnd te t =
     (case te_open te of
        None \<Rightarrow> t\<lparr>tl_f := None\<rparr>
      | Some i \<Rightarrow>
          (case te_fstat te of
             Some sz \<Rightarrow> t\<lparr>tl_f := Some i, tl_offset := sz, tl_pos := sz\<rparr>
           | None \<Rightarrow> t\<lparr>tl_f := Some i, tl_pos := 0\<rparr>))"

definition reopen :: "tick_env \<Rightarrow> tailer \<Rightarrow> tailer" where
  "reopen te t =
     (case te_stat te of
        Some sz \<Rightarrow>
          if sz < tl_offset t
          then (case te_reopen te of
                  None \<Rightarrow> t\<lparr>tl_f := None\<rparr>
                | Some i \<Rightarrow> t\<lparr>tl_f := Some i, tl_pos := 0, tl_offset := 0\<rparr>)
          else t
      | None \<Rightarrow> t)"

text \<open>What one tick of the polling loop does.\<close>

definition tick :: "tick_env \<Rightarrow> tailer \<Rightarrow> tailer \<times> alert list" where
  "tick te t =
     (let t1 = (if tl_f t = None then openAtEnd te t else t)
      in if tl_f t1 = None then (t1, [])
         else (let t2 = reopen te t1
               in (case tl_f t2 of
                     None \<Rightarrow> (t2, [])
                   | Some i \<Rightarrow> read_loop (te_clk te) 0 t2 (List.drop (tl_pos t2) (te_data te i)))))"

fun ticks :: "tick_env list \<Rightarrow> tailer \<Rightarrow> tailer \<times> alert list" where
  "ticks [] t = (t, [])"
| "ticks (te # tes) t =
     (case tick te t of (t', as) \<Rightarrow> (case ticks tes t' of (t'', bs) \<Rightarrow> (t'', as @ bs)))"

section \<open>Runs of the tracker\<close>

text \<open>Attempts in the order of the clock, from a new tracker; the trace holds what \<open>add\<close> answered.\<close>

definition hit_now :: "(string \<times> time \<times> nat \<times> bool) list \<Rightarrow> time" where
  "hit_now tr = (if tr = [] then 0 else fst (snd (List.last tr)))"

inductive tracker_run :: "int \<Rightarrow> duration \<Rightarrow> tracker \<Rightarrow> (string \<times> time \<times> nat \<times> bool) list \<Rightarrow> bool" for n w where
  new: "tracker_run n w (newTracker n w) []"
| attempt: "tracker_run n w t tr \<Longrightarrow> hit_now tr \<le> now \<Longrightarrow> add t ip now = (t', k, fired) \<Longrightarrow>
    tracker_run n w t' (tr @ [(ip, now, k, fired)])"

inductive_cases tracker_run_snocE: "tracker_run n w t (tr @ [x])"

text \<open>The attempts of an address since it was last reported.\<close>

fun pending :: "string \<Rightarrow> (string \<times> time \<times> nat \<times> bool) list \<Rightarrow> time list \<Rightarrow> time list" where
  "pending ip [] acc = acc"
| "pending ip ((j, now, k, fired) # tr) acc =
     pending ip tr (if j = ip then (if fired then [] else acc @ [now]) else acc)"

definition pend :: "string \<Rightarrow> (string \<times> time \<times> nat \<times> bool) list \<Rightarrow> time list" where
  "pend ip tr = pending ip tr []"

lemma pending_append: "pending ip (tr @ tr') acc = pending ip tr' (pending ip tr acc)"
  by (induction tr arbitrary: acc) auto

lemma pend_simps [simp]:
  "pend ip [] = []"
  "pend ip (tr @ [(j, now, k, fired)]) =
     (if j = ip then (if fired then [] else pend ip tr @ [now]) else pend ip tr)"
  by (simp_all add: pend_def pending_append)

lemma hit_now_simps [simp]: "hit_now [] = 0" "hit_now (tr @ [(j, now, k, fired)]) = now"
  by (simp_all add: hit_now_def)

lemma hits_simps [simp]:
  "hits (t\<lparr>tk_hit := AList.delete ip m\<rparr>) j = (if j = ip then [] else hits (t\<lparr>tk_hit := m\<rparr>) j)"
  "hits (t\<lparr>tk_hit := AList.update ip ts m\<rparr>) j = (if j = ip then ts else hits (t\<lparr>tk_hit := m\<rparr>) j)"
  "hits (t\<lparr>tk_hit := tk_hit t\<rparr>) j = hits t j"
  by (simp_all add: hits_def map_of_delete_apply map_of_update_apply)

text \<open>Every entry is the pruned history since the last report, and too short to report.\<close>

definition tracker_inv :: "int \<Rightarrow> duration \<Rightarrow> tracker \<Rightarrow> (string \<times> time \<times> nat \<times> bool) list \<Rightarrow> bool" where
  "tracker_inv n w t tr \<longleftrightarrow> tk_threshold t = n \<and> tk_window t = w \<and>
     (\<forall>ip. hits t ip = hits_fresh ((if pend ip tr = [] then 0 else List.last (pend ip tr)) - w) (pend ip tr) \<and>
       int (length (hits t ip)) < n \<and> (\<forall>x \<in> set (pend ip tr). x \<le> hit_now tr))"

lemma tracker_inv_entry:
  assumes "tracker_inv n w t tr" and "hit_now tr \<le> now" and w: "0 < w"
  shows "hits_fresh (now - w) (hits t ip) @ [now] = hits_fresh (now - w) (pend ip tr @ [now])"
proof (cases "pend ip tr = []")
  case True
  with assms show ?thesis by (simp add: tracker_inv_def time_after_def)
next
  case False
  then have "List.last (pend ip tr) \<le> now"
    using last_in_set [OF False] assms unfolding tracker_inv_def by (meson order_trans)
  from hits.prune_then_add [OF _ this, of "hits t ip" w "pend ip tr" now] assms False
  show ?thesis by (simp add: tracker_inv_def)
qed

lemma tracker_inv_add:
  assumes inv: "tracker_inv n w t tr" and now: "hit_now tr \<le> now" and pos: "0 < w" "0 < n"
    and step: "add t ip now = (t', k, fired)"
  shows "k = length (hits_fresh (now - w) (pend ip tr @ [now]))" "fired \<longleftrightarrow> n \<le> int k"
    and "tracker_inv n w t' (tr @ [(ip, now, k, fired)])"
proof -
  let ?fresh = "hits_fresh (now - w) (pend ip tr @ [now])"
  have cfg: "tk_threshold t = n" "tk_window t = w" using inv by (simp_all add: tracker_inv_def)
  have eq: "(t', k, fired) = (if n \<le> int (length ?fresh)
      then (t\<lparr>tk_hit := AList.delete ip (tk_hit t)\<rparr>, length ?fresh, True)
      else (t\<lparr>tk_hit := AList.update ip ?fresh (tk_hit t)\<rparr>, length ?fresh, False))"
    using step [symmetric] unfolding add_def Let_def cfg tracker_inv_entry [OF inv now pos(1)] .
  then show k: "k = length ?fresh" and f: "fired \<longleftrightarrow> n \<le> int k" by (auto split: if_splits)
  have entry: "hits t' j = (if j = ip then (if fired then [] else ?fresh) else hits t j)" for j
    using eq by (auto split: if_splits)
  have old: "hits t j = hits_fresh ((if pend j tr = [] then 0 else List.last (pend j tr)) - w) (pend j tr)"
    "int (length (hits t j)) < n" "\<forall>x \<in> set (pend j tr). x \<le> hit_now tr" for j
    using inv unfolding tracker_inv_def by blast+
  show "tracker_inv n w t' (tr @ [(ip, now, k, fired)])"
    unfolding tracker_inv_def
  proof (intro conjI allI)
    show "tk_threshold t' = n" "tk_window t' = w" using eq cfg by (auto split: if_splits)
    fix j
    show "int (length (hits t' j)) < n" using old(2) pos k f by (simp add: entry)
    show "hits t' j = hits_fresh ((if pend j (tr @ [(ip, now, k, fired)]) = [] then 0
        else List.last (pend j (tr @ [(ip, now, k, fired)]))) - w) (pend j (tr @ [(ip, now, k, fired)]))"
      using old(1) by (simp add: entry)
    show "\<forall>x \<in> set (pend j (tr @ [(ip, now, k, fired)])). x \<le> hit_now (tr @ [(ip, now, k, fired)])"
      using old(3) [of j] now by (auto intro: order_trans)
  qed
qed

lemma tracker_run_inv: "tracker_run n w t tr \<Longrightarrow> 0 < n \<Longrightarrow> 0 < w \<Longrightarrow> tracker_inv n w t tr"
proof (induction rule: tracker_run.induct)
  case new
  then show ?case by (simp add: tracker_inv_def newTracker_def hits_def)
next
  case (attempt t tr now ip t' k fired)
  then show ?case using tracker_inv_add(3) by blast
qed

section \<open>Lines of a growing file\<close>

fun lines_of :: "string \<Rightarrow> string list" where
  "lines_of s = map (\<lambda>l. l @ [CHR 0x0A]) (butlast (split_byte CHR 0x0A s))"

declare lines_of.simps [simp del]

lemma lines_of_Nil [simp]: "lines_of [] = []"
  by (simp add: lines_of.simps)

lemma lines_of_line: "CHR 0x0A \<notin> set l \<Longrightarrow> lines_of (l @ CHR 0x0A # s) = (l @ [CHR 0x0A]) # lines_of s"
  by (induction l) (auto simp: lines_of.simps split: list.splits)

lemma lines_of_partial: "CHR 0x0A \<notin> set s \<Longrightarrow> lines_of s = []"
  by (induction s) (auto simp: lines_of.simps split: list.splits)

lemma read_line_cases:
  obtains "CHR 0x0A \<notin> set s" "read_line s = (s, [])"
  | l r where "CHR 0x0A \<notin> set l" "s = l @ CHR 0x0A # r" "read_line s = (l @ [CHR 0x0A], r)"
proof (induction s arbitrary: thesis)
  case (Cons c s)
  show ?case
  proof (cases "c = CHR 0x0A")
    case True
    then show ?thesis using Cons.prems(2) [of "[]" s] by simp
  next
    case False
    show ?thesis
      by (rule Cons.IH) (use False Cons.prems in \<open>auto intro: Cons.prems(2) [of "c # _"]\<close>)
  qed
qed simp

text \<open>Handling lines one after another, without the file.\<close>

fun handle_lines :: "tailer \<Rightarrow> (string \<times> time) list \<Rightarrow> tailer \<times> alert list" where
  "handle_lines t [] = (t, [])"
| "handle_lines t ((line, now) # ls) =
     (case handleLine t line now of
        (t', a) \<Rightarrow> (case handle_lines t' ls of (t'', as) \<Rightarrow> (t'', (case a of None \<Rightarrow> as | Some al \<Rightarrow> al # as))))"

definition at_offset :: "nat \<Rightarrow> tailer \<Rightarrow> tailer" where
  "at_offset p t = t\<lparr>tl_pos := p, tl_offset := p\<rparr>"

lemma handleLine_at: "handleLine (at_offset p t) line now =
    (case handleLine t line now of (t', a) \<Rightarrow> (at_offset p t', a))"
  by (simp add: handleLine_def at_offset_def Let_def split: option.splits prod.splits)

lemma handle_lines_append:
  "handle_lines t (ls @ ls') =
     (case handle_lines t ls of (t', as) \<Rightarrow> (case handle_lines t' ls' of (t'', bs) \<Rightarrow> (t'', as @ bs)))"
  by (induction ls arbitrary: t) (auto split: prod.splits option.splits)

definition consumed :: "string list \<Rightarrow> nat" where
  "consumed ls = sum_list (map length ls)"

lemma read_loop_lines:
  "read_loop clk k (at_offset p t) buf =
     (case handle_lines t (zip (lines_of buf) (map clk [k..<k + length (lines_of buf)])) of
        (t', as) \<Rightarrow> (at_offset (p + consumed (lines_of buf)) t', as))"
proof (induction buf arbitrary: k p t rule: length_induct)
  case (1 buf)
  show ?case
  proof (cases rule: read_line_cases [of buf])
    case 1
    then show ?thesis
      by (subst read_loop.simps) (auto simp: lines_of_partial consumed_def at_offset_def dest: last_in_set)
  next
    case (2 l r)
    obtain t' a where h: "handleLine t (l @ [CHR 0x0A]) (clk k) = (t', a)" by fastforce
    have "length r < length buf" using 2 by simp
    note IH = 1 [rule_format, OF this, of "Suc k" "p + Suc (length l)" t']
    have at: "(at_offset p t)\<lparr>tl_offset := tl_offset (at_offset p t) + length (l @ [CHR 0x0A]),
        tl_pos := tl_pos (at_offset p t) + length (l @ [CHR 0x0A])\<rparr> = at_offset (p + Suc (length l)) t"
      by (simp add: at_offset_def)
    have "read_loop clk k (at_offset p t) buf = (case read_loop clk (Suc k) (at_offset (p + Suc (length l)) t') r of
        (t'', as) \<Rightarrow> (t'', (case a of None \<Rightarrow> as | Some al \<Rightarrow> al # as)))"
      by (subst read_loop.simps, simp only: 2(3) prod.case at handleLine_at h) simp
    moreover obtain ts where ts: "ts = map clk [Suc k..<Suc k + length (lines_of r)]" by blast
    moreover have "zip (lines_of buf) (map clk [k..<k + length (lines_of buf)]) =
        (l @ [CHR 0x0A], clk k) # zip (lines_of r) ts"
      unfolding ts 2(2) lines_of_line [OF 2(1)] by (simp add: upt_conv_Cons del: upt_Suc)
    moreover have "p + consumed (lines_of buf) = p + Suc (length l) + consumed (lines_of r)"
      by (simp add: 2(2) lines_of_line [OF 2(1)] consumed_def)
    ultimately show ?thesis
      using IH [folded ts] h by (simp only: handle_lines.simps prod.case split: prod.splits) simp
  qed
qed

lemma lines_of_append:
  "\<exists>rest. s = concat (lines_of s) @ rest \<and> CHR 0x0A \<notin> set rest \<and> lines_of (s @ s') = lines_of s @ lines_of (rest @ s')"
proof (induction s rule: length_induct)
  case (1 s)
  show ?case
  proof (cases rule: read_line_cases [of s])
    case 1
    then show ?thesis by (simp add: lines_of_partial)
  next
    case (2 l r)
    have "length r < length s" using 2 by simp
    with 1 obtain rest where "r = concat (lines_of r) @ rest" "CHR 0x0A \<notin> set rest"
      "lines_of (r @ s') = lines_of r @ lines_of (rest @ s')" by blast
    then show ?thesis
      using lines_of_line [OF 2(1)] 2(2) by (intro exI [of _ rest]) simp
  qed
qed

lemma length_concat_consumed: "length (concat ls) = consumed ls"
  by (simp add: consumed_def length_concat)

text \<open>A file that has been read up to its last complete line, and grows.\<close>

lemma lines_of_grow:
  assumes "p \<le> length d" and "lines_of (List.drop p d) = []" and "prefix d d'"
  shows "lines_of (List.drop p d') = [] \<or> p + consumed (lines_of (List.drop p d')) \<le> length d'"
    and "lines_of (List.drop (p + consumed (lines_of (List.drop p d'))) d') = []"
    and "prefix d' e \<Longrightarrow> lines_of (List.drop p e) =
      lines_of (List.drop p d') @ lines_of (List.drop (p + consumed (lines_of (List.drop p d'))) e)"
proof -
  have len: "p \<le> length d'" using assms(1,3) by (auto simp: prefix_def)
  obtain rest where r: "List.drop p d' = concat (lines_of (List.drop p d')) @ rest" "CHR 0x0A \<notin> set rest"
    using lines_of_append [of "List.drop p d'" "[]"] by blast
  let ?k = "consumed (lines_of (List.drop p d'))"
  have k: "?k + length rest = length d' - p"
    using arg_cong [OF r(1), of length] by (simp add: length_concat_consumed)
  then show "lines_of (List.drop p d') = [] \<or> p + ?k \<le> length d'" using len by linarith
  have "List.drop (p + ?k) d' = List.drop ?k (List.drop p d')" by (simp add: add.commute)
  also have "\<dots> = rest" by (subst r(1)) (simp add: length_concat_consumed)
  finally have dr: "List.drop (p + ?k) d' = rest" .
  then show "lines_of (List.drop (p + ?k) d') = []" using r(2) by (simp add: lines_of_partial)
  assume "prefix d' e"
  then obtain x where e: "e = d' @ x" by (auto simp: prefix_def)
  obtain rest' where r': "List.drop p d' = concat (lines_of (List.drop p d')) @ rest'"
    "lines_of (List.drop p d' @ x) = lines_of (List.drop p d') @ lines_of (rest' @ x)"
    using lines_of_append [of "List.drop p d'" x] by blast
  from r' r have "rest' = rest" by (metis append_same_eq same_append_eq)
  moreover have "p + ?k \<le> length d'" using k len by linarith
  ultimately show "lines_of (List.drop p e) = lines_of (List.drop p d') @ lines_of (List.drop (p + ?k) e)"
    using r'(2) len dr by (simp add: e)
qed

definition keeps_file :: "nat \<Rightarrow> tick_env \<Rightarrow> bool" where
  "keeps_file p te \<longleftrightarrow> (case te_stat te of Some sz \<Rightarrow> p \<le> sz | None \<Rightarrow> True)"

lemma tick_same_file:
  assumes "tl_f t = Some i" and "keeps_file p te"
  defines "ls \<equiv> lines_of (List.drop p (te_data te i))"
  shows "tick te (at_offset p t) =
    (case handle_lines t (zip ls (map (te_clk te) [0..<length ls])) of
       (t', as) \<Rightarrow> (at_offset (p + consumed ls) t', as))"
proof -
  have "reopen te (at_offset p t) = at_offset p t"
    using assms(2) by (simp add: reopen_def keeps_file_def at_offset_def split: option.splits)
  moreover have "tl_f (at_offset p t) = Some i" "tl_pos (at_offset p t) = p"
    using assms(1) by (simp_all add: at_offset_def)
  ultimately show ?thesis
    using read_loop_lines [of "te_clk te" 0 p t "List.drop p (te_data te i)"]
    by (simp add: tick_def Let_def ls_def del: lines_of.simps)
qed

lemma handleLine_file: "handleLine t line now = (t', a) \<Longrightarrow> tl_f t' = tl_f t"
  by (auto simp: handleLine_def Let_def split: option.splits prod.splits if_splits)

lemma handle_lines_file: "handle_lines t ls = (t', as) \<Longrightarrow> tl_f t' = tl_f t"
  by (induction ls arbitrary: t as) (auto split: prod.splits dest: handleLine_file)

section \<open>Properties\<close>

text \<open>
  C32. The tracker answers as an unbounded history: an attempt is reported exactly when at least
  \<open>threshold\<close> attempts of its address since the last report, itself included, lie within the window, and
  the count given is their number.
\<close>

theorem tracker_refines_history:
  assumes "tracker_run n w t (tr @ [(ip, now, k, fired)])" and "0 < n" and "0 < w"
  shows "k = length (filter (\<lambda>at. now - w < at) (pend ip tr @ [now])) \<and> (fired \<longleftrightarrow> n \<le> int k)"
proof -
  from assms(1) obtain u where "tracker_run n w u tr" "hit_now tr \<le> now" "add u ip now = (t, k, fired)"
    by (auto elim: tracker_run_snocE)
  from tracker_inv_add(1,2) [OF tracker_run_inv [OF this(1) assms(2,3)] this(2) assms(3,2) this(3)]
  show ?thesis by (simp add: hits.prune_filter)
qed

lemma tracker_example:
  "\<exists>t. tracker_run 2 10 t [(''1.2.3.4'', 1, 1, False), (''1.2.3.4'', 20, 1, False), (''1.2.3.4'', 25, 2, True)]"
proof -
  have 1: "tracker_run 2 10 \<lparr>tk_threshold = 2, tk_window = 10, tk_hit = [(''1.2.3.4'', [1])]\<rparr> ([] @ [(''1.2.3.4'', 1, 1, False)])"
    by (rule tracker_run.attempt [OF tracker_run.new]) (simp_all add: add_def hits_def newTracker_def Let_def)
  have 2: "tracker_run 2 10 \<lparr>tk_threshold = 2, tk_window = 10, tk_hit = [(''1.2.3.4'', [20])]\<rparr>
      (([] @ [(''1.2.3.4'', 1, 1, False)]) @ [(''1.2.3.4'', 20, 1, False)])"
    by (rule tracker_run.attempt [OF 1])
       (simp_all add: add_def hits_def newTracker_def Let_def hit_now_def time_after_def)
  have "tracker_run 2 10 \<lparr>tk_threshold = 2, tk_window = 10, tk_hit = []\<rparr>
      ((([] @ [(''1.2.3.4'', 1, 1, False)]) @ [(''1.2.3.4'', 20, 1, False)]) @ [(''1.2.3.4'', 25, 2, True)])"
    by (rule tracker_run.attempt [OF 2])
       (simp_all add: add_def hits_def newTracker_def Let_def hit_now_def time_after_def)
  then show ?thesis by auto
qed

theorem tracker_refines_history_witness:
  "length (filter (\<lambda>at. 25 - 10 < at) (pend ''1.2.3.4'' [(''1.2.3.4'', 1, 1, False), (''1.2.3.4'', 20, 1, False)] @ [25 :: int])) = 2"
proof -
  obtain t where "tracker_run 2 10 t ([(''1.2.3.4'', 1, 1, False), (''1.2.3.4'', 20, 1, False)] @ [(''1.2.3.4'', 25, 2, True)])"
    using tracker_example by auto
  from tracker_refines_history [OF this] show ?thesis by simp
qed

text \<open>
  No brute force goes unreported: whenever an address makes \<open>threshold\<close> attempts within the window, in
  any stretch of a run and among the attempts of any other addresses, one of them is reported.
\<close>

theorem brute_force_detected:
  assumes run: "tracker_run n w t (tr @ burst)" and pos: "0 < n" "0 < w"
    and many: "n \<le> int (length (filter (\<lambda>x. fst x = ip) burst))"
    and close: "\<And>x y. x \<in> set burst \<Longrightarrow> y \<in> set burst \<Longrightarrow> fst x = ip \<Longrightarrow> fst y = ip \<Longrightarrow> fst (snd x) - fst (snd y) < w"
  shows "\<exists>now k. (ip, now, k, True) \<in> set burst"
proof (rule ccontr)
  assume none: "\<not> ?thesis"
  let ?times = "map (\<lambda>x. fst (snd x)) (filter (\<lambda>x. fst x = ip) burst)"
  have grow: "\<forall>x \<in> set b. fst x = ip \<longrightarrow> \<not> snd (snd (snd x)) \<Longrightarrow>
      pending ip b acc = acc @ map (\<lambda>x. fst (snd x)) (filter (\<lambda>x. fst x = ip) b)" for b acc
    by (induction b arbitrary: acc) auto
  have "\<forall>x \<in> set burst. fst x = ip \<longrightarrow> \<not> snd (snd (snd x))"
    using none by auto
  then have p: "pend ip (tr @ burst) = pend ip tr @ ?times"
    by (simp add: pend_def pending_append grow)
  have "filter (\<lambda>x. fst x = ip) burst \<noteq> []" using many pos by (intro notI) simp
  then have ne: "?times \<noteq> []" by (simp only: map_is_Nil_conv not_False_eq_True)
  have recent: "List.last ?times - w < x" if "x \<in> set ?times" for x
  proof -
    from that obtain b where b: "b \<in> set burst" "fst b = ip" "x = fst (snd b)" by auto
    from last_in_set [OF ne] obtain c where c: "c \<in> set burst" "fst c = ip" "List.last ?times = fst (snd c)"
      unfolding set_map set_filter by blast
    from close [OF c(1) b(1) c(2) b(2)] b c show ?thesis by linarith
  qed
  define ts where "ts = ?times"
  have "tracker_inv n w t (tr @ burst)" by (rule tracker_run_inv [OF run pos])
  then have "hits t ip = hits_fresh ((if pend ip (tr @ burst) = [] then 0 else List.last (pend ip (tr @ burst))) - w)
      (pend ip (tr @ burst))" "int (length (hits t ip)) < n"
    unfolding tracker_inv_def by blast+
  moreover have "pend ip (tr @ burst) = pend ip tr @ ts" "ts \<noteq> []" using p ne unfolding ts_def by simp_all
  moreover have "List.last (pend ip tr @ ts) = List.last ts" using ne by (simp add: ts_def)
  ultimately have "int (length (hits_fresh (List.last ts - w) (pend ip tr @ ts))) < n" by simp
  moreover have "hits_fresh (List.last ts - w) ts = ts"
    using recent by (intro hits.prune_id) (simp add: ts_def)
  moreover have "n \<le> int (length ts)" using many by (simp add: ts_def)
  ultimately show False by (simp add: hits.prune_append)
qed

theorem brute_force_detected_witness:
  "\<exists>now k. (''1.2.3.4'', now, k, True) \<in> set [(''1.2.3.4'', 20 :: int, 1 :: nat, False), (''1.2.3.4'', 25, 2, True)]"
proof -
  obtain t where "tracker_run 2 10 t ([(''1.2.3.4'', 1, 1, False)] @ [(''1.2.3.4'', 20, 1, False), (''1.2.3.4'', 25, 2, True)])"
    using tracker_example by auto
  from brute_force_detected [OF this, of "''1.2.3.4''"] show ?thesis by force
qed

fun growing :: "nat \<Rightarrow> string \<Rightarrow> tick_env list \<Rightarrow> bool" where
  "growing i d [] = True"
| "growing i d (te # tes) =
     (prefix d (te_data te i) \<and> keeps_file (length d) te \<and> growing i (te_data te i) tes)"

fun content :: "nat \<Rightarrow> string \<Rightarrow> tick_env list \<Rightarrow> string" where
  "content i d [] = d"
| "content i d (te # tes) = content i (te_data te i) tes"

lemma growing_prefix: "growing i d tes \<Longrightarrow> prefix d (content i d tes)"
  by (induction tes arbitrary: d) (auto intro: prefix_order.trans)

lemma ticks_lines:
  "tl_f t = Some i \<Longrightarrow> growing i d tes \<Longrightarrow> p \<le> length d \<Longrightarrow> lines_of (List.drop p d) = [] \<Longrightarrow>
   \<exists>log t'. map fst log = lines_of (List.drop p (content i d tes)) \<and>
     handle_lines t log = (t', snd (ticks tes (at_offset p t))) \<and>
     fst (ticks tes (at_offset p t)) = at_offset (p + consumed (map fst log)) t' \<and>
     (\<forall>x \<in> set log. \<exists>te \<in> set tes. \<exists>k. snd x = te_clk te k)"
proof (induction tes arbitrary: d p t)
  case Nil
  then show ?case by (auto intro!: exI [of _ "[]"] simp: consumed_def)
next
  case (Cons te tes)
  let ?d = "te_data te i"
  let ?ls = "lines_of (List.drop p ?d)"
  let ?q = "p + consumed ?ls"
  let ?log = "zip ?ls (map (te_clk te) [0..<length ?ls])"
  have pre: "prefix d ?d" and keep: "keeps_file p te" and rest: "growing i ?d tes"
    using Cons.prems by (auto simp: keeps_file_def split: option.splits)
  note g = lines_of_grow [OF Cons.prems(3,4) pre]
  have q: "?q \<le> length ?d"
    using g(1) pre Cons.prems(3) by (auto simp: consumed_def prefix_def)
  obtain t1 as where h: "handle_lines t ?log = (t1, as)" by fastforce
  have tick: "tick te (at_offset p t) = (at_offset ?q t1, as)"
    using tick_same_file [OF Cons.prems(1) keep] h by simp
  have "tl_f t1 = Some i" using handle_lines_file [OF h] Cons.prems(1) by simp
  from Cons.IH [OF this rest q g(2)] obtain log t' where
    IH: "map fst log = lines_of (List.drop ?q (content i ?d tes))"
      "handle_lines t1 log = (t', snd (ticks tes (at_offset ?q t1)))"
      "fst (ticks tes (at_offset ?q t1)) = at_offset (?q + consumed (map fst log)) t'"
      "\<forall>x \<in> set log. \<exists>te \<in> set tes. \<exists>k. snd x = te_clk te k" by blast
  have "map fst (?log @ log) = lines_of (List.drop p (content i ?d tes))"
    using g(3) [OF growing_prefix [OF rest]] IH(1) by simp
  moreover have "handle_lines t (?log @ log) = (t', as @ snd (ticks tes (at_offset ?q t1)))"
    using h IH(2) by (simp add: handle_lines_append)
  moreover have "consumed (map fst (?log @ log)) = consumed ?ls + consumed (map fst log)"
    by (simp add: consumed_def)
  moreover have "\<forall>x \<in> set (?log @ log). \<exists>te' \<in> set (te # tes). \<exists>k. snd x = te_clk te' k"
    using IH(4) by (auto dest!: set_zip_rightD)
  moreover obtain t2 bs where "ticks tes (at_offset ?q t1) = (t2, bs)" by fastforce
  ultimately show ?case
    using tick IH(3) by (intro exI [of _ "?log @ log"] exI [of _ t']) (simp add: add.assoc)
qed

text \<open>
  C31. Every complete line is handled exactly once and in order, however the polls fall between the
  writes: while the file only grows, the alerts of any number of rounds are those of handling the
  complete lines of what was appended, one after another, and a partial last line waits for its rest.
\<close>

theorem lines_handled_once:
  assumes "tl_f t = Some i" and "tl_pos t = length d" and "tl_offset t = length d" and "growing i d tes"
  shows "\<exists>log t'. map fst log = lines_of (List.drop (length d) (content i d tes)) \<and>
    handle_lines t log = (t', snd (ticks tes t)) \<and> tl_tr (fst (ticks tes t)) = tl_tr t'"
proof -
  have "at_offset (length d) t = t" using assms by (simp add: at_offset_def)
  moreover have "lines_of (List.drop (length d) d) = []" by simp
  ultimately show ?thesis
    using ticks_lines [OF assms(1,4), of "length d"] by (auto simp: at_offset_def)
qed

definition lt_cfg :: lt_config where
  "lt_cfg = \<lparr>lt_Path = ''/var/log/auth.log'', lt_Threshold = 1, lt_Window = 60000000000, lt_ServerName = ''h'', lt_PollInterval = 0\<rparr>"

definition poll :: "nat \<Rightarrow> string \<Rightarrow> nat \<Rightarrow> string \<Rightarrow> time \<Rightarrow> tick_env" where
  "poll i d j d' now = \<lparr>te_open = Some j, te_fstat = Some (length d'), te_stat = Some (length d'), te_reopen = Some j,
     te_data = (\<lambda>k. if k = j then d' else d), te_clk = (\<lambda>k. now)\<rparr>"

theorem lines_handled_once_witness:
  "\<exists>log t'. map fst log = [''Invalid user x from 9.9.9.9'' @ [CHR 0x0A]] \<and>
     handle_lines ((lt_New lt_cfg)\<lparr>tl_f := Some 0\<rparr>) log = (t', snd (ticks [poll 0 [] 0 ''Invalid user x'' 5,
       poll 0 [] 0 (''Invalid user x from 9.9.9.9'' @ [CHR 0x0A]) 7] ((lt_New lt_cfg)\<lparr>tl_f := Some 0\<rparr>)))"
proof -
  let ?tes = "[poll 0 [] 0 ''Invalid user x'' 5, poll 0 [] 0 (''Invalid user x from 9.9.9.9'' @ [CHR 0x0A]) 7]"
  have "lines_of (List.drop (length []) (content 0 [] ?tes)) = [''Invalid user x from 9.9.9.9'' @ [CHR 0x0A]]"
    by (simp add: poll_def lines_of.simps)
  moreover have "growing 0 [] ?tes" by (simp add: poll_def keeps_file_def)
  moreover have "tl_f ((lt_New lt_cfg)\<lparr>tl_f := Some 0\<rparr>) = Some 0"
    "tl_pos ((lt_New lt_cfg)\<lparr>tl_f := Some 0\<rparr>) = length []" "tl_offset ((lt_New lt_cfg)\<lparr>tl_f := Some 0\<rparr>) = length []"
    by (simp_all add: lt_New_def Let_def)
  ultimately show ?thesis
    using lines_handled_once [of "(lt_New lt_cfg)\<lparr>tl_f := Some 0\<rparr>" 0 "[]" ?tes] by metis
qed

text \<open>
  A rotation can go unnoticed for good: when the log has been replaced by a file that is already as
  long as what was read of the old one, no round reopens it, and nothing written to the new file is ever
  handled, however many failures it records.
\<close>

theorem rotation_missed:
  assumes "tl_f t = Some i" and "tl_pos t = length d" and "tl_offset t = length d"
    and "\<And>te. te \<in> set tes \<Longrightarrow> te_data te i = d \<and> (\<exists>sz. te_stat te = Some sz \<and> length d \<le> sz)"
  shows "ticks tes t = (t, [])"
  using assms(4)
proof (induction tes)
  case (Cons te tes)
  have "at_offset (length d) t = t" using assms by (simp add: at_offset_def)
  moreover have "keeps_file (length d) te" using Cons.prems [of te] by (auto simp: keeps_file_def)
  ultimately have "tick te t = (t, [])"
    using tick_same_file [OF assms(1), of "length d" te] Cons.prems [of te] by (simp add: consumed_def)
  with Cons show ?case by simp
qed simp

theorem rotation_missed_witness:
  "ticks [poll 0 ''old'' 1 (''Invalid user x from 9.9.9.9'' @ [CHR 0x0A]) 7]
     ((lt_New lt_cfg)\<lparr>tl_f := Some 0, tl_pos := 3, tl_offset := 3\<rparr>) =
   ((lt_New lt_cfg)\<lparr>tl_f := Some 0, tl_pos := 3, tl_offset := 3\<rparr>, [])"
  by (rule rotation_missed [of _ 0 "''old''"]) (simp_all add: poll_def)

end
