(* ===== verification/System.thy ===== *)
theory System
  imports Monitor HostCoverage LogTail Api
begin

text \<open>
  The whole program as a transition system: the collector's goroutine, the eviction loop of its container cache, the
  main loop with the reloaders, the auth-log tailer and the store's worker, each a kind of step on its part of the state. The steps are those of
  the components; here they are joined by the event channel, by the alerts the tailer hands over and by the
  buffer of the store. A run counts the kernel records that the configuration asks for.
\<close>

section \<open>State and steps\<close>

record sys =
  sy_co :: collector
  sy_mn :: monitor
  sy_tail :: tailer
  sy_pending :: "alert list"
  sy_stopped :: bool

definition tail_cfg_of :: "config \<Rightarrow> lt_config" where
  "tail_cfg_of cfg =
     \<lparr>lt_Path = cfg_AuthLogPath cfg, lt_Threshold = cfg_SSHBruteThreshold cfg,
      lt_Window = seconds (cfg_SSHBruteWindow cfg), lt_ServerName = cfg_ServerName cfg, lt_PollInterval = 0\<rparr>"

definition initial :: "config \<Rightarrow> 32 word \<Rightarrow> monitor \<Rightarrow> sys" where
  "initial cfg pid mn =
     \<lparr>sy_co = collector_New cfg pid (5 * 60 * 1000000000), sy_mn = mn, sy_tail = lt_New (tail_cfg_of cfg),
      sy_pending = [], sy_stopped = False\<rparr>"

text \<open>Whether a round of the read loop has an event for the detector.\<close>

definition wanted :: "loop_env \<Rightarrow> string \<Rightarrow> collector \<Rightarrow> bool" where
  "wanted le bs c =
     (case decode_raw bs of
        None \<Rightarrow> False
      | Some raw \<Rightarrow>
          (case Resolve (le_proc le) (r_PID raw) (co_mapper c) of
             (m, info) \<Rightarrow> \<not> skipped (c\<lparr>co_mapper := m\<rparr>) ((parseEvent raw (le_now le))\<lparr>e_Container := info\<rparr>)))"

definition is_reload :: "input \<Rightarrow> bool" where
  "is_reload i = (case i of RulesTick src \<Rightarrow> True | SuppressionsTick answer \<Rightarrow> True | HeartbeatTick \<Rightarrow> True | _ \<Rightarrow> False)"

inductive system :: "encoders \<Rightarrow> config \<Rightarrow> nat \<Rightarrow> sys \<Rightarrow> bool" for en cfg where
  start: "main_start fl v = Running cfg mn \<Longrightarrow> system en cfg 0 (initial cfg pid mn)"
| sample: "system en cfg n s \<Longrightarrow>
    system en cfg (n + of_bool (wanted le bs (sy_co s))) (s\<lparr>sy_co := loop_step le bs (sy_co s)\<rparr>)"
| evict: "system en cfg n s \<Longrightarrow>
    system en cfg n (s\<lparr>sy_co := (sy_co s)\<lparr>co_mapper := evict_tick now (co_mapper (sy_co s))\<rparr>\<rparr>)"
| event: "system en cfg n s \<Longrightarrow> \<not> sy_stopped s \<Longrightarrow> receive (sy_co s) = Some (e, co) \<Longrightarrow>
    turn en cfg (EventReceived e clock ses) (sy_mn s) = Some mn \<Longrightarrow> system en cfg n (s\<lparr>sy_co := co, sy_mn := mn\<rparr>)"
| poll: "system en cfg n s \<Longrightarrow> cfg_AuthLogEnabled cfg \<Longrightarrow> sy_pending s = [] \<Longrightarrow> LogTail.tick te (sy_tail s) = (t, as) \<Longrightarrow>
    system en cfg n (s\<lparr>sy_tail := t, sy_pending := as\<rparr>)"
| emit: "system en cfg n s \<Longrightarrow> sy_pending s = a # as \<Longrightarrow> turn en cfg (AuthAlert a ses) (sy_mn s) = Some mn \<Longrightarrow>
    system en cfg n (s\<lparr>sy_pending := as, sy_mn := mn\<rparr>)"
| reload: "system en cfg n s \<Longrightarrow> is_reload i \<Longrightarrow> turn en cfg i (sy_mn s) = Some mn \<Longrightarrow> system en cfg n (s\<lparr>sy_mn := mn\<rparr>)"
| persist: "system en cfg n s \<Longrightarrow> worker (mn_store (sy_mn s)) st \<Longrightarrow>
    system en cfg n (s\<lparr>sy_mn := (sy_mn s)\<lparr>mn_store := st\<rparr>\<rparr>)"
| shutdown: "system en cfg n s \<Longrightarrow>
    system en cfg n (s\<lparr>sy_stopped := True, sy_mn := (sy_mn s)\<lparr>mn_store := Close (mn_store (sy_mn s))\<rparr>\<rparr>)"

section \<open>Alerts the configuration allows\<close>

definition alert_allowed :: "config \<Rightarrow> alert \<Rightarrow> bool" where
  "alert_allowed cfg a \<longleftrightarrow>
     (if a_ContainerID a = [] then cfg_MonitorHost cfg \<or> cfg_AuthLogEnabled cfg
      else IsMonitored cfg (a_ContainerName a)) \<and> severity_ok (a_Severity a)"

definition row_allowed :: "config \<Rightarrow> row \<Rightarrow> bool" where
  "row_allowed cfg r \<longleftrightarrow>
     (if w_ContainerID r = [] then cfg_MonitorHost cfg \<or> cfg_AuthLogEnabled cfg
      else IsMonitored cfg (w_ContainerName r)) \<and> severity_ok (w_Severity r)"

fun dispatched :: "dispatch \<Rightarrow> alert" where
  "dispatched (ToSink a) = a"
| "dispatched (ToWebhook a) = a"
| "dispatched (ToSlack a) = a"

lemma row_allowed_toRow [simp]: "row_allowed cfg (toRow marshal a) = alert_allowed cfg a"
  by (simp add: row_allowed_def alert_allowed_def toRow_def Let_def)

lemma stamp_allowed [simp]: "alert_allowed cfg (stamp_alert cfg' random now a) = alert_allowed cfg a"
  by (simp add: stamp_alert_def alert_allowed_def Let_def)

lemma severity_high_ok: "severity_ok SeverityHigh" "severity_ok SeverityCritical"
  by code_simp+

section \<open>The components keep to them\<close>

lemma buildAlert_allowed:
  assumes "deliverable cfg h e" and "severity_ok (r_Severity x)"
  shows "alert_allowed cfg (buildAlert x e)"
proof (cases "e_Container e")
  case None
  with assms show ?thesis by (simp add: buildAlert_def alert_allowed_def deliverable_def empty_alert_def Let_def)
next
  case (Some i)
  with assms have "c_ID i \<noteq> []" by (auto simp: deliverable_def info_wf_def)
  with Some assms show ?thesis by (simp add: buildAlert_def alert_allowed_def deliverable_def Let_def)
qed

lemma Check_allowed:
  assumes "armed d" and "deliverable cfg h e" and "a \<in> set (fst (Check d e clock))"
  shows "alert_allowed cfg a"
proof -
  obtain rs where rs: "d_eng d = Some rs" "list_all rule_ok rs" using assms(1) by (auto simp: armed_def)
  obtain x where x: "a = buildAlert x e" using Check_alert [OF assms(3) rs] by blast
  have "severity_ok (a_Severity a)" using Check_alert [OF assms(3) rs] by blast
  then have "severity_ok (r_Severity x)" by (simp add: x buildAlert_def Let_def split: option.splits)
  with assms(2) show ?thesis unfolding x by (rule buildAlert_allowed)
qed

lemma brute_alert_allowed: "cfg_AuthLogEnabled cfg \<Longrightarrow> alert_allowed cfg (brute_alert lc ip n now)"
  by (simp add: brute_alert_def alert_allowed_def empty_alert_def severity_high_ok)

lemma handleLine_allowed:
  "cfg_AuthLogEnabled cfg \<Longrightarrow> handleLine t line now = (t', Some a) \<Longrightarrow> alert_allowed cfg a"
  by (auto simp: handleLine_def brute_alert_allowed Let_def split: option.splits prod.splits if_splits)

lemma read_loop_allowed:
  "cfg_AuthLogEnabled cfg \<Longrightarrow> list_all (alert_allowed cfg) (snd (read_loop clk k t buf))"
proof (induction clk k t buf rule: read_loop.induct)
  case (1 clk k t buf)
  obtain line rest where l: "read_line buf = (line, rest)" by fastforce
  let ?t = "t\<lparr>tl_offset := tl_offset t + length line, tl_pos := tl_pos t + length line\<rparr>"
  obtain t' oa where h: "handleLine ?t line (clk k) = (t', oa)" by fastforce
  obtain t'' as where r: "read_loop clk (Suc k) t' rest = (t'', as)" by fastforce
  show ?case
  proof (cases "line = [] \<or> List.last line \<noteq> CHR 0x0A")
    case True
    then show ?thesis by (subst read_loop.simps) (auto simp: l)
  next
    case False
    then have "list_all (alert_allowed cfg) as"
      using 1(1) [OF l [symmetric] _ _ h [symmetric] 1(2)] r by simp
    with False handleLine_allowed [OF 1(2), of ?t line "clk k" t'] h show ?thesis
      by (subst read_loop.simps) (simp add: l r split: option.splits)
  qed
qed

lemma tick_allowed: "cfg_AuthLogEnabled cfg \<Longrightarrow> list_all (alert_allowed cfg) (snd (LogTail.tick te t))"
  by (simp add: LogTail.tick_def read_loop_allowed Let_def split: option.splits)

text \<open>The correlator keeps the last finding of each chain, and an incident is about it.\<close>

definition corr_allowed :: "config \<Rightarrow> correlator \<Rightarrow> bool" where
  "corr_allowed cfg c \<longleftrightarrow> (\<forall>x \<in> set (k_by c). alert_allowed cfg (ch_last (snd x)))"

lemma buildIncident_allowed:
  "alert_allowed cfg (ch_last st) \<Longrightarrow> alert_allowed cfg (buildIncident K st stages score rids now ms msc)"
  by (simp add: buildIncident_def alert_allowed_def severity_high_ok Let_def)

lemma chain_step_allowed:
  assumes "chain_step K a now st = (inc, st')" and "alert_allowed cfg a"
  shows "ch_last st' = a \<and> (case inc of None \<Rightarrow> True | Some i \<Rightarrow> alert_allowed cfg i)"
  using assms
  by (auto simp: chain_step_def buildIncident_allowed Let_def split: prod.splits if_splits)

lemma Observe_allowed:
  assumes "Observe c (Some a) t = (inc, c')" and "alert_allowed cfg a" and "corr_allowed cfg c"
  shows "corr_allowed cfg c' \<and> (case inc of None \<Rightarrow> True | Some i \<Rightarrow> alert_allowed cfg i)"
proof (cases "IsIncident a \<or> chainKey a = []")
  case True
  with assms Observe_irrelevant [of a c t] show ?thesis by (auto simp: relevant_def)
next
  case False
  let ?now = "if is_zero_time (a_Timestamp a) then t else a_Timestamp a"
  let ?c1 = "gcLocked c ?now"
  let ?st = "case map_of (k_by ?c1) (chainKey a) of Some st \<Rightarrow> st | None \<Rightarrow> new_chain"
  obtain i st' where s: "chain_step (k_cfg c) a ?now ?st = (i, st')" by fastforce
  have gc: "set (k_by ?c1) \<subseteq> set (k_by c)" by (auto simp: gcLocked_def Let_def)
  have "inc = i \<and> c' = ?c1\<lparr>k_by := AList.update (chainKey a) st' (k_by ?c1)\<rparr>"
    using assms(1) False s by (simp add: Observe_def Let_def)
  with chain_step_allowed [OF s assms(2)] assms(2,3) gc show ?thesis
    by (auto simp: corr_allowed_def dest!: update_entries)
qed

section \<open>The monitor keeps to them\<close>

definition mn_allowed :: "config \<Rightarrow> monitor \<Rightarrow> bool" where
  "mn_allowed cfg mn \<longleftrightarrow> al_cfg (mn_al mn) = cfg \<and> armed (mn_det mn) \<and>
     (\<forall>c. mn_corr mn = Some c \<longrightarrow> corr_allowed cfg c) \<and>
     list_all (row_allowed cfg) (held (mn_store mn)) \<and> list_all (alert_allowed cfg \<circ> dispatched) (mn_sent mn)"

lemma put_row_held: "set (held (put_row r s)) \<subseteq> insert r (set (held s))"
  by (auto simp: put_row_def held_def)

lemma deliver_held: "list_all (row_allowed cfg) (held s) \<Longrightarrow> list_all (alert_allowed cfg \<circ> dispatched) ds \<Longrightarrow>
   list_all (row_allowed cfg) (held (deliver en ds s))"
proof (induction en ds s rule: deliver.induct)
  case (2 en al ds s)
  have "list_all (row_allowed cfg) (held (Save (en_details en) al s))"
    using 2(2,3) put_row_held [of "toRow (en_details en) al" s] by (auto simp: Save_def list_all_iff)
  with 2 show ?case by simp
qed simp_all

lemma Send_dispatched:
  "Send marshal openOk random clock al0 a = (ds, al, a') \<Longrightarrow> d \<in> set ds \<Longrightarrow> dispatched d = al"
  by (auto simp: Send_def Let_def split: prod.splits if_splits)

lemma send_alert_allowed:
  assumes "send_alert en se a mn = (al, mn')" and "alert_allowed cfg a" and "mn_allowed cfg mn"
  shows "alert_allowed cfg al \<and> mn_allowed cfg mn'"
proof -
  obtain ds al' where s: "Send (en_payload en) (se_openOk se) (se_random se) (se_clock se) a (mn_al mn) = (ds, al, al')"
    and mn': "mn' = mn\<lparr>mn_al := al', mn_store := deliver en ds (mn_store mn), mn_sent := mn_sent mn @ ds\<rparr>"
    using assms(1) by (auto simp: send_alert_def split: prod.splits)
  have al: "alert_allowed cfg al" using Send_keeps [OF s] assms(2) by simp
  then have "list_all (alert_allowed cfg \<circ> dispatched) ds"
    using Send_dispatched [OF s] by (simp add: list_all_iff)
  with al assms(3) Send_keeps [OF s] deliver_held [of cfg "mn_store mn" ds en] show ?thesis
    by (simp add: mn_allowed_def mn')
qed

lemma report_allowed:
  assumes "alert_allowed cfg a" and "mn_allowed cfg mn"
  shows "mn_allowed cfg (snd (report en ses a mn))"
proof -
  obtain al mn1 where s: "send_alert en (fst ses) a mn = (al, mn1)" by fastforce
  note ok = send_alert_allowed [OF s assms]
  show ?thesis
  proof (cases "mn_corr mn1")
    case None
    with s ok show ?thesis by (simp add: report_def)
  next
    case (Some c)
    obtain inc c' where o: "Observe c (Some al) (se_observe (fst ses)) = (inc, c')" by fastforce
    have c: "corr_allowed cfg c' \<and> (case inc of None \<Rightarrow> True | Some i \<Rightarrow> alert_allowed cfg i)"
      using Observe_allowed [OF o] ok Some by (simp add: mn_allowed_def)
    let ?mn = "mn1\<lparr>mn_corr := Some c'\<rparr>"
    have mn: "mn_allowed cfg ?mn" using ok c by (simp add: mn_allowed_def)
    show ?thesis
    proof (cases inc)
      case None
      with s Some o mn show ?thesis by (simp add: report_def)
    next
      case i: (Some i)
      obtain al2 mn2 where s2: "send_alert en (snd ses) i ?mn = (al2, mn2)" by fastforce
      with send_alert_allowed [OF s2 _ mn] c i s Some o show ?thesis by (simp add: report_def)
    qed
  qed
qed

lemma report_all_allowed:
  "list_all (alert_allowed cfg) as \<Longrightarrow> mn_allowed cfg mn \<Longrightarrow> mn_allowed cfg (report_all en ses n as mn)"
proof (induction as arbitrary: n mn)
  case (Cons a as)
  let ?mn = "mn\<lparr>mn_alerted := mn_alerted mn + 1\<rparr>"
  have "mn_allowed cfg ?mn" using Cons.prems(2) by (simp add: mn_allowed_def)
  with Cons.prems(1) report_allowed have ok: "mn_allowed cfg (snd (report en (ses n) a ?mn))" by simp
  obtain raised mn1 where r: "report en (ses n) a ?mn = (raised, mn1)" by fastforce
  have "mn_allowed cfg (if raised then mn1\<lparr>mn_alerted := mn_alerted mn1 + 1\<rparr> else mn1)"
    using ok r by (simp add: mn_allowed_def)
  with Cons r show ?case by simp
qed simp

lemma turn_allowed:
  assumes "turn en cfg i mn = Some mn'" and "mn_allowed cfg mn"
    and "\<And>e clock ses. i = EventReceived e clock ses \<Longrightarrow> deliverable cfg h e"
    and "\<And>a ses. i = AuthAlert a ses \<Longrightarrow> alert_allowed cfg a"
  shows "mn_allowed cfg mn'"
proof (cases i)
  case (EventReceived e clock ses)
  obtain as d where c: "Check (mn_det mn) e clock = (as, d)" by fastforce
  let ?mn = "mn\<lparr>mn_det := d, mn_processed := mn_processed mn + 1\<rparr>"
  have "armed d" using assms(2) Check_eng [of "mn_det mn" e clock] c by (simp add: armed_def mn_allowed_def)
  then have mn: "mn_allowed cfg ?mn" using assms(2) by (simp add: mn_allowed_def)
  have "alert_allowed cfg a" if "a \<in> set as" for a
    using Check_allowed [of "mn_det mn" cfg h e a clock] assms(2) assms(3) [OF EventReceived] c that
    by (simp add: mn_allowed_def)
  then have "list_all (alert_allowed cfg) as" by (simp add: list_all_iff)
  from report_all_allowed [OF this mn] EventReceived c assms(1) show ?thesis
    by (auto simp: turn_def handle_event_def)
next
  case (AuthAlert a ses)
  with assms report_allowed [of cfg a mn en ses] show ?thesis by (auto simp: turn_def split: if_splits)
next
  case (RulesTick src)
  have "armed (mn_det mn')" using turn_armed [OF assms(1)] assms(2) by (simp add: mn_allowed_def)
  with RulesTick assms(1,2) show ?thesis
    by (auto simp: turn_def reloadRules_def mn_allowed_def split: sum.splits if_splits)
next
  case (SuppressionsTick answer)
  have "armed (mn_det mn')" using turn_armed [OF assms(1)] assms(2) by (simp add: mn_allowed_def)
  with SuppressionsTick assms(1,2) show ?thesis
    by (auto simp: turn_def reloadSuppressions_def mn_allowed_def split: sum.splits if_splits)
qed (use assms(1,2) in \<open>auto simp: turn_def\<close>)

section \<open>The whole program\<close>

lemma loop_step_count:
  "of_nat (length (co_out (loop_step le bs c))) + co_channelDrops (loop_step le bs c) =
   of_nat (length (co_out c)) + co_channelDrops c + of_bool (wanted le bs c)"
proof (cases "decode_raw bs")
  case (Some raw)
  let ?e0 = "parseEvent raw (le_now le)"
  obtain m info where r: "Resolve (le_proc le) (r_PID raw) (co_mapper c) = (m, info)" by fastforce
  let ?c = "c\<lparr>co_mapper := m\<rparr>" and ?e = "?e0\<lparr>e_Container := info\<rparr>"
  have pid: "e_PID ?e0 = r_PID raw" by (simp add: parseEvent_def Let_def)
  have w: "wanted le bs c = (\<not> skipped ?c ?e)" by (simp add: wanted_def Some r)
  show ?thesis
  proof (cases "skipped ?c ?e")
    case True
    with Some r pid w show ?thesis by (simp add: loop_step_def Let_def)
  next
    case False
    obtain c2 e2 where en: "(if needsEnrichment (e_Type ?e) \<or> info = None \<and> e_Type ?e = EventOpen
        then enrich le ?e ?c else (?c, ?e)) = (c2, e2)" by fastforce
    then have "co_out c2 = co_out c" "co_channelDrops c2 = co_channelDrops c"
      by (auto simp: enrich_def Let_def split: if_splits prod.splits)
    moreover have "loop_step le bs c = send_event e2 c2"
      using Some r pid False en by (simp add: loop_step_def Let_def)
    ultimately show ?thesis using chan.put_accounted [of e2 c2] w False by simp
  qed
qed (simp add: loop_step_def wanted_def)

lemma turn_processed:
  "turn en cfg i mn = Some mn' \<Longrightarrow>
   mn_processed mn' = mn_processed mn + (case i of EventReceived e clock ses \<Rightarrow> 1 | _ \<Rightarrow> 0)"
proof (cases i)
  case (AuthAlert a ses)
  assume "turn en cfg i mn = Some mn'"
  with AuthAlert report_corr [of en ses a mn "fst (report en ses a mn)" "snd (report en ses a mn)"] show ?thesis
    by (auto simp: turn_def split: if_splits)
qed (auto simp: turn_def handle_event_def report_all_corr reloadRules_def reloadSuppressions_def
    split: prod.splits sum.splits if_splits)

definition sys_inv :: "config \<Rightarrow> nat \<Rightarrow> sys \<Rightarrow> bool" where
  "sys_inv cfg n s \<longleftrightarrow> collector_inv (sy_co s) \<and> co_cfg (sy_co s) = cfg \<and> mn_allowed cfg (sy_mn s) \<and>
     list_all (alert_allowed cfg) (sy_pending s) \<and>
     of_nat n = mn_processed (sy_mn s) + of_nat (length (co_out (sy_co s))) + co_channelDrops (sy_co s)"

lemma started_allowed:
  assumes "main_start fl v = Running cfg mn"
  shows "mn_allowed cfg mn \<and> mn_processed mn = 0"
proof -
  obtain al d where al: "alerter_New cfg (cfg_DBEnabled cfg) (fst (sv_logOk v)) (snd (sv_logOk v)) (sv_files v) = Inr al"
    and d: "\<exists>rd rf dec. d_eng d = d_eng (det_New rd rf dec cfg)"
    and mn: "mn = (start_monitor cfg d al)"
    using assms
    by (auto simp: main_start_def Let_def start_monitor_def reloadSuppressions_def SetSuppressions_def
        split: if_splits sum.splits) fastforce+
  from d obtain rd rf dec where "d_eng d = d_eng (det_New rd rf dec cfg)" by blast
  with New_armed [of rd rf dec cfg] New_rules_ok [of rd rf dec cfg] have "armed d" by (auto simp: armed_def)
  moreover have "al_cfg al = cfg" using al by (auto simp: alerter_New_def Let_def split: if_splits)
  moreover have "corr_allowed cfg (corr_New K)" for K by (simp add: corr_allowed_def corr_New_def Let_def)
  ultimately show ?thesis by (simp add: mn mn_allowed_def start_monitor_def newStore_def held_def)
qed

lemma system_inv: "system en cfg n s \<Longrightarrow> sys_inv cfg n s"
proof (induction rule: system.induct)
  case (start fl v mn pid)
  then show ?case
    using started_allowed [OF start]
    by (simp add: sys_inv_def initial_def collector_New_def collector_inv_def mapper_New_def mapper_wf_def)
next
  case (sample n s le bs)
  then show ?case
    using loop_step_inv [of "sy_co s" le bs] loop_step_cfg [of le bs "sy_co s"] loop_step_count [of le bs "sy_co s"]
    by (simp add: sys_inv_def algebra_simps)
next
  case (evict n s now)
  then show ?case using apply_op_wf [of "co_mapper (sy_co s)" "OpEvict now"] by (auto simp: sys_inv_def collector_inv_def)
next
  case (event n s e co clock ses mn)
  then obtain es where out: "co_out (sy_co s) = e # es" "co = (sy_co s)\<lparr>co_out := es\<rparr>"
    by (auto simp: receive_def split: list.splits)
  with event.IH have "deliverable cfg (co_filter (sy_co s)) e" by (auto simp: sys_inv_def collector_inv_def)
  with turn_allowed [OF event.hyps(4)] event.IH have "mn_allowed cfg mn" by (auto simp: sys_inv_def)
  with event.IH out turn_processed [OF event.hyps(4)] show ?case
    by (auto simp: sys_inv_def collector_inv_def algebra_simps)
next
  case (poll n s te t as)
  with tick_allowed [OF poll.hyps(2), of te "sy_tail s"] show ?case by (simp add: sys_inv_def)
next
  case (emit n s a as ses mn)
  then have "alert_allowed cfg a" by (simp add: sys_inv_def)
  with turn_allowed [OF emit.hyps(3)] emit.IH have "mn_allowed cfg mn" by (auto simp: sys_inv_def)
  with emit turn_processed [OF emit.hyps(3)] show ?case by (simp add: sys_inv_def)
next
  case (reload n s i mn)
  have "mn_allowed cfg mn"
    by (rule turn_allowed [OF reload.hyps(3), where h = "co_filter (sy_co s)"])
      (use reload.hyps(2) reload.IH in \<open>auto simp: sys_inv_def is_reload_def\<close>)
  with reload turn_processed [OF reload.hyps(3)] show ?case
    by (auto simp: sys_inv_def is_reload_def split: input.splits)
next
  case (persist n s st)
  with worker_held [OF persist.hyps(2)] show ?case
    by (auto simp: sys_inv_def mn_allowed_def list_all_iff)
next
  case (shutdown n s)
  then show ?case by (simp add: sys_inv_def mn_allowed_def Close_def held_def)
qed

text \<open>An answer 201 means that the backend stored the decoded rule without its id and time.\<close>

lemma added_rule:
  assumes h: "handleAddSuppression l srv r db = (db', resp, k)" and "rs_Status resp = 201" and bk: "sv_backend srv = Some bk"
  shows "\<exists>rule c. decode_body l (rq_Body r) = Some rule \<and>
    bk_AddSuppression bk db (rule\<lparr>s_ID := [], s_CreatedAt := 0\<rparr>) = (db', Some c) \<and> k = notifyChange srv"
proof -
  have err: "rs_Status (writeErr n msg) = n" for n msg by (simp add: writeErr_def)
  have ok: "rs_Status (fst (snd (handleAddSuppression l srv r db))) = 201" using h assms(2) by simp
  obtain rule where rule: "decode_body l (rq_Body r) = Some rule"
    using ok by (cases "decode_body l (rq_Body r)") (simp_all add: handleAddSuppression_def bk err)
  have fit: "\<not> Empty rule" "validScope (s_Scope rule)"
    using ok by (simp_all add: handleAddSuppression_def bk rule err split: if_splits)
  obtain db1 oc where add: "bk_AddSuppression bk db (rule\<lparr>s_ID := [], s_CreatedAt := 0\<rparr>) = (db1, oc)" by fastforce
  obtain c where "oc = Some c"
    using ok by (cases oc) (simp_all add: handleAddSuppression_def bk rule fit add err)
  with h rule add fit show ?thesis by (simp add: handleAddSuppression_def bk)
qed

section \<open>Properties\<close>

text \<open>
  C6. Nothing the operator excluded is ever reported: in every reachable state of the whole program, each row in the
  database, in the batch or in the buffer, and each alert handed to a destination, is about a container the
  filter admits, or about the host while the host or its auth log is monitored, and has one of the four
  severities. Incidents are included.
\<close>

theorem only_allowed_reported:
  assumes "system en cfg n s"
  shows "list_all (row_allowed cfg) (st_db (mn_store (sy_mn s)) @ st_batch (mn_store (sy_mn s)) @ st_ch (mn_store (sy_mn s))) \<and>
    list_all (alert_allowed cfg \<circ> dispatched) (mn_sent (sy_mn s))"
  using system_inv [OF assms] by (simp add: sys_inv_def mn_allowed_def held_def)

definition ex_sys :: "monitor \<Rightarrow> sys" where
  "ex_sys mn = (initial (load_fields (sv_env ex_start)) 7 mn)\<lparr>sy_co := loop_step quiet_env zero_record
     (collector_New (load_fields (sv_env ex_start)) 7 (5 * 60 * 1000000000))\<rparr>"

lemma system_example:
  "\<exists>n mn. system ex_en (load_fields (sv_env ex_start)) n (ex_sys mn)"
proof -
  let ?fl = "\<lparr>fl_version = False, fl_health = False, fl_validate = False\<rparr>" and ?cfg = "load_fields (sv_env ex_start)"
  have load: "Load (\<lambda>_. None) (sv_env ex_start) = Inr ?cfg" by (simp add: Load_def ex_start_loads)
  have sv: "sv_stat ex_start = (\<lambda>_. None)" "sv_collectorOk ex_start" by (simp_all add: ex_start_def)
  have "\<exists>mn. main_start ?fl ex_start = Running ?cfg mn"
    using ex_start_fields by (simp add: main_start_def load sv alerter_New_def Let_def)
  then obtain mn where "main_start ?fl ex_start = Running ?cfg mn" by blast
  from system.sample [OF system.start [OF this, where pid = 7], of ex_en quiet_env zero_record] show ?thesis
    by (intro exI) (simp add: initial_def ex_sys_def)
qed

theorem only_allowed_reported_witness:
  "\<exists>mn. list_all (row_allowed (load_fields (sv_env ex_start))) (st_ch (mn_store (sy_mn (ex_sys mn))))"
proof -
  obtain n mn where run: "system ex_en (load_fields (sv_env ex_start)) n (ex_sys mn)"
    using system_example by blast
  show ?thesis using only_allowed_reported [OF run] by auto
qed

text \<open>
  C12. Every kernel record the configuration asks for is accounted for: at any moment, the events the main loop
  processed, those that wait in the channel and the counted drops add up to the number of such records.
\<close>

theorem events_accounted:
  assumes "system en cfg n s"
  shows "of_nat n = mn_processed (sy_mn s) + of_nat (length (co_out (sy_co s))) + co_channelDrops (sy_co s) \<and>
    length (co_out (sy_co s)) \<le> 1000"
  using system_inv [OF assms] by (simp add: sys_inv_def collector_inv_def channel_capacity_def)

theorem events_accounted_witness:
  "\<exists>mn n. (of_nat n :: 64 word) = mn_processed (sy_mn (ex_sys mn)) + of_nat (length (co_out (sy_co (ex_sys mn)))) +
     co_channelDrops (sy_co (ex_sys mn))"
proof -
  obtain n mn where run: "system ex_en (load_fields (sv_env ex_start)) n (ex_sys mn)"
    using system_example by blast
  show ?thesis using events_accounted [OF run] by auto
qed

text \<open>
  C10. A suppression posted through the API takes effect at once: when the request is answered 201, the detector is
  told to reload once, and with the reload no check raises an alert whose finding the posted rule matches.
  The database is one that lists what was inserted.
\<close>

theorem posted_suppression_silences:
  assumes "serve PostSuppression l srv r db = (db', resp, k)" and "rs_Status resp = 201" and "sv_onChange srv"
    and "sv_backend srv = Some bk" and "armed (mn_det mn)"
    and keeps: "\<And>rule db1 c. bk_AddSuppression bk db rule = (db1, Some c) \<Longrightarrow>
      \<exists>i at rules r'. bk_ListSuppressions bk db1 = Some rules \<and> stored_rule (insert_args rule) i at = Some r' \<and> r' \<in> set rules"
  shows "k = 1 \<and> (\<exists>rule rules. decode_body l (rq_Body r) = Some rule \<and> bk_ListSuppressions bk db' = Some rules \<and>
    (let d = mn_det (reloadSuppressions (Inr rules) mn)
     in \<forall>e clock. list_all (\<lambda>a. \<exists>x. a = buildAlert x e \<and> \<not> Match rule (check_target d e x)) (fst (Check d e clock))))"
proof -
  have "handleAddSuppression l srv r db = (db', resp, k)"
    using assms(1,2) auth_unauthorised [of srv r handleAddSuppression l db] auth_authorised [of srv r handleAddSuppression l db]
    by (cases "authorised srv r") (auto simp: writeErr_def)
  from added_rule [OF this assms(2,4)] obtain rule c where rule: "decode_body l (rq_Body r) = Some rule"
    and add: "bk_AddSuppression bk db (rule\<lparr>s_ID := [], s_CreatedAt := 0\<rparr>) = (db', Some c)" and k: "k = notifyChange srv"
    by blast
  obtain i at rules r' where db: "bk_ListSuppressions bk db' = Some rules" "r' \<in> set rules"
      "stored_rule (insert_args (rule\<lparr>s_ID := [], s_CreatedAt := 0\<rparr>)) i at = Some r'"
    using keeps [OF add] by blast
  have bare: "Match (rule\<lparr>s_ID := [], s_CreatedAt := 0\<rparr>) t = Match rule t" for t
    by (simp add: Match_def Empty_def)
  have same: "Match r' t = Match rule t" for t
    using stored_suppression_equivalent
      [where r = "rule\<lparr>s_ID := [], s_CreatedAt := 0\<rparr>" and i = i and at = at and t = t] db(3) bare by simp
  let ?d = "mn_det (reloadSuppressions (Inr rules) mn)"
  obtain rs where rs: "d_eng ?d = Some rs" "list_all rule_ok rs" and supp: "d_supp ?d = rules"
    using assms(5) by (auto simp: reloadSuppressions_def SetSuppressions_def armed_def)
  have "\<exists>x. a = buildAlert x e \<and> \<not> Match rule (check_target ?d e x)" if "a \<in> set (fst (Check ?d e clock))" for a e clock
    using Check_alert [OF that rs] db(2) same unfolding supp Suppresses_iff by blast
  with rule db(1) k assms(3) show ?thesis by (auto simp: list_all_iff notifyChange_def Let_def)
qed

text \<open>A backend that keeps the rules it is given in a list, trimmed as the insert of the store does.\<close>

definition table_backend :: "supp_rule list backend" where
  "table_backend = \<lparr>bk_QueryAlerts = (\<lambda>db f. None), bk_Stats = (\<lambda>db t. None), bk_ListSuppressions = Some,
     bk_AddSuppression = (\<lambda>db r. case stored_rule (insert_args r) ''id'' 3 of
        None \<Rightarrow> (db, None) | Some r' \<Rightarrow> (r' # db, Some (r\<lparr>s_ID := ''id'', s_CreatedAt := 3\<rparr>))),
     bk_DeleteSuppression = (\<lambda>db i. (db, None))\<rparr>"

lemma table_backend_keeps:
  "bk_AddSuppression table_backend db rule = (db1, Some c) \<Longrightarrow>
   \<exists>i at rules r'. bk_ListSuppressions table_backend db1 = Some rules \<and> stored_rule (insert_args rule) i at = Some r' \<and> r' \<in> set rules"
  unfolding table_backend_def
  by (intro exI [of _ "''id''"] exI [of _ 3] exI [of _ db1] exI [of _ "hd db1"]) (auto split: option.splits)

theorem posted_suppression_silences_witness:
  "\<exists>rule rules (d :: detector). s_RuleID rule = ''reverse_shell'' \<and> d_supp d = rules \<and>
     (\<forall>e clock. list_all (\<lambda>a. \<exists>x. a = buildAlert x e \<and> \<not> Match rule (check_target d e x)) (fst (Check d e clock)))"
proof -
  let ?srv = "rules_server\<lparr>sv_backend := Some table_backend\<rparr>" and ?r = "example_request ''Bearer s3cret''"
  let ?mn = "start_monitor ex_mn_cfg (det_New (\<lambda>_. None) (\<lambda>_. None) (\<lambda>_. Inl MissingID) ex_mn_cfg) ex_mn_al"
  obtain db' resp k where out: "serve PostSuppression example_lib ?srv ?r [] = (db', resp, k)" by (metis prod_cases3)
  have body: "decode_body example_lib (rq_Body (example_request h)) = lib_DecodeRule example_lib ''reverse_shell'' False" for h
    by (simp add: decode_body_def maxBodyBytes_def example_request_def)
  have "authorised ?srv ?r"
    unfolding authorised_def rules_server_def example_request_def
    by (intro conjI exI [of _ "''s3cret''"]) (simp_all add: trim_space_def is_space_def)
  from auth_authorised [OF this] out have status: "rs_Status resp = 201"
    by (simp add: handleAddSuppression_def body table_backend_def stored_rule_def insert_args_def)
      (auto simp: example_lib_def Empty_def validScope_def trim_space_def is_space_def)
  let ?d = "det_New (\<lambda>_. None) (\<lambda>_. None) (\<lambda>_. Inl MissingID) ex_mn_cfg"
  obtain rs where rs: "d_eng ?d = Some rs" using New_armed by blast
  have armed: "armed (mn_det ?mn)"
    using rs New_rules_ok [OF rs] by (simp add: armed_def start_monitor_def)
  have srv: "sv_onChange ?srv" "sv_backend ?srv = Some table_backend" by (simp_all add: rules_server_def)
  have "\<exists>rule rules. decode_body example_lib (rq_Body ?r) = Some rule \<and>
    bk_ListSuppressions table_backend db' = Some rules \<and>
    (let d = mn_det (reloadSuppressions (Inr rules) ?mn)
     in \<forall>e clock. list_all (\<lambda>a. \<exists>x. a = buildAlert x e \<and> \<not> Match rule (check_target d e x)) (fst (Check d e clock)))"
    by (rule conjunct2 [OF posted_suppression_silences [OF out status srv armed]]) (erule table_backend_keeps)
  then obtain rule rules where "decode_body example_lib (rq_Body ?r) = Some rule" and
    "let d = mn_det (reloadSuppressions (Inr rules) ?mn)
     in \<forall>e clock. list_all (\<lambda>a. \<exists>x. a = buildAlert x e \<and> \<not> Match rule (check_target d e x)) (fst (Check d e clock))"
    by blast
  moreover from this(1) [unfolded body] have "s_RuleID rule = ''reverse_shell''" by (auto simp: example_lib_def)
  moreover have "d_supp (mn_det (reloadSuppressions (Inr rules) ?mn)) = rules"
    by (simp add: reloadSuppressions_def SetSuppressions_def)
  ultimately show ?thesis unfolding Let_def by blast
qed

end
