(* ===== verification/Tracer.thy ===== *)
theory Tracer
  imports RawEvents Lifecycle
begin

text \<open>
  The programs of \<open>ebpf/tracer.c\<close>, one per tracepoint of \<open>Start\<close>: each reserves a record in the ring buffer, fills
  the fields it knows and submits it, or counts a drop. A reservation returns memory that holds what an earlier
  record left there, which is the argument \<open>e\<close> of a program. The helpers of the kernel are parameters, as documented:
  \<open>bpf_probe_read_user_str\<close> copies a string with its end mark and leaves the rest of the buffer, or clears it when
  the address is not readable; \<open>bpf_get_current_comm\<close> pads with zero bytes.
\<close>

section \<open>What a program sees\<close>

text \<open>The arguments of the system call, by position.\<close>

type_synonym ctx = "nat \<Rightarrow> 64 word"

record task =
  ts_pid_tgid :: "64 word"
  ts_uid_gid :: "64 word"
  ts_ktime :: "64 word"
  ts_comm :: string

record sa_in =
  sin_family :: "16 word"
  sin_port :: "16 word"
  sin_addr :: "32 word"

record user_mem =
  um_str :: "64 word \<Rightarrow> string option"
  um_sockaddr :: "64 word \<Rightarrow> sa_in option"

definition bpf_get_current_comm :: "nat \<Rightarrow> task \<Rightarrow> string" where
  "bpf_get_current_comm sz ts =
     (let s = take (sz - 1) (ts_comm ts) in s @ replicate (sz - length s) CHR 0x00)"

definition bpf_probe_read_user_str :: "nat \<Rightarrow> string option \<Rightarrow> string \<Rightarrow> string" where
  "bpf_probe_read_user_str sz src dst =
     (case src of
        None \<Rightarrow> replicate sz CHR 0x00
      | Some s \<Rightarrow> (let t = take (sz - 1) s @ [CHR 0x00] in t @ List.drop (length t) dst))"

section \<open>The programs\<close>

type_synonym prog = "user_mem \<Rightarrow> task \<Rightarrow> ctx \<Rightarrow> kernel_event \<Rightarrow> kernel_event"

definition fill_common :: "task \<Rightarrow> 8 word \<Rightarrow> kernel_event \<Rightarrow> kernel_event" where
  "fill_common ts ty e =
     e\<lparr>k_pid := ucast (drop_bit 32 (ts_pid_tgid ts)), k_tid := ucast (ts_pid_tgid ts), k_uid := ucast (ts_uid_gid ts),
       k_event_type := ty, k_timestamp_ns := ts_ktime ts, k_comm := bpf_get_current_comm 16 ts\<rparr>"

definition trace_execve :: prog where
  "trace_execve um ts ctx e0 =
     (let e = fill_common ts EventExecve e0
      in e\<lparr>k_filename := bpf_probe_read_user_str 128 (um_str um (ctx 0)) (k_filename e)\<rparr>)"

definition trace_openat :: prog where
  "trace_openat um ts ctx e0 =
     (let e = fill_common ts EventOpen e0
      in e\<lparr>k_filename := bpf_probe_read_user_str 128 (um_str um (ctx 1)) (k_filename e), k_arg1 := ctx 2\<rparr>)"

definition trace_connect :: prog where
  "trace_connect um ts ctx e0 =
     (let e = fill_common ts EventConnect e0;
          sa = (case um_sockaddr um (ctx 1) of Some sa \<Rightarrow> sa | None \<Rightarrow> \<lparr>sin_family = 0, sin_port = 0, sin_addr = 0\<rparr>)
      in if sin_family sa = 2 then e\<lparr>k_dport := sin_port sa, k_daddr := sin_addr sa\<rparr> else e)"

definition trace_clone :: prog where
  "trace_clone um ts ctx e0 = fill_common ts EventClone e0"

definition trace_ptrace :: prog where
  "trace_ptrace um ts ctx e0 = (fill_common ts EventPtrace e0)\<lparr>k_arg1 := ctx 0, k_arg2 := ctx 1\<rparr>"

definition trace_init_module :: prog where
  "trace_init_module um ts ctx e0 = fill_common ts EventModule e0"

definition trace_finit_module :: prog where
  "trace_finit_module um ts ctx e0 = fill_common ts EventModule e0"

definition trace_bpf :: prog where
  "trace_bpf um ts ctx e0 = (fill_common ts EventBPF e0)\<lparr>k_arg1 := ctx 0\<rparr>"

text \<open>The program \<open>Start\<close> attaches to each tracepoint.\<close>

definition programs :: "(tracepoint \<times> prog) list" where
  "programs = zip tracepoints
     [trace_execve, trace_openat, trace_connect, trace_clone, trace_ptrace, trace_init_module, trace_finit_module,
      trace_bpf]"

section \<open>The ring buffer\<close>

record tracer =
  tr_ring :: "kernel_event list"
  tr_dropcount :: "64 word"

text \<open>\<open>slots\<close> is how many records fit; a failed reservation is counted.\<close>

definition bpf_submit :: "nat \<Rightarrow> kernel_event \<Rightarrow> tracer \<Rightarrow> tracer" where
  "bpf_submit slots e t =
     (if length (tr_ring t) < slots then t\<lparr>tr_ring := tr_ring t @ [e]\<rparr>
      else t\<lparr>tr_dropcount := tr_dropcount t + 1\<rparr>)"

interpretation kring: lossy_channel tr_ring tr_dropcount "bpf_submit slots" slots for slots
  by unfold_locales (simp_all add: bpf_submit_def)

section \<open>Facts\<close>

lemma comm_length [simp]: "0 < n \<Longrightarrow> length (bpf_get_current_comm n ts) = n"
  by (simp add: bpf_get_current_comm_def Let_def)

lemma read_str_length [simp]: "length dst = n \<Longrightarrow> 0 < n \<Longrightarrow> length (bpf_probe_read_user_str n src dst) = n"
  by (cases src) (auto simp: bpf_probe_read_user_str_def Let_def min_def)

lemma fill_common_ok [simp]: "kernel_ok e \<Longrightarrow> kernel_ok (fill_common ts ty e)"
  by (simp add: kernel_ok_def fill_common_def)

lemmas program_defs = trace_execve_def trace_openat_def trace_connect_def trace_clone_def trace_ptrace_def
  trace_init_module_def trace_finit_module_def trace_bpf_def

lemma programs_ok: "(tp, prog) \<in> set programs \<Longrightarrow> kernel_ok e \<Longrightarrow> kernel_ok (prog um ts ctx e)"
  by (auto simp: programs_def tracepoints_def program_defs Let_def split: option.splits)
    (auto simp: kernel_ok_def fill_common_def)

text \<open>
  A connection that is not over IPv4 leaves port and address as an earlier record left them.
\<close>

lemma connect_stale:
  "um_sockaddr um (ctx 1) = Some sa \<Longrightarrow> sin_family sa \<noteq> 2 \<Longrightarrow>
   k_dport (trace_connect um ts ctx e0) = k_dport e0 \<and> k_daddr (trace_connect um ts ctx e0) = k_daddr e0"
  by (simp add: trace_connect_def fill_common_def)

text \<open>What Go reads of the command name and of a path.\<close>

lemma comm_read:
  assumes "CHR 0x00 \<notin> set (ts_comm ts)"
  shows "cstring (List.drop 3 (bpf_get_current_comm 16 ts) @ rest) = List.drop 3 (take 15 (ts_comm ts))"
proof -
  let ?s = "take 15 (ts_comm ts)"
  have s: "CHR 0x00 \<notin> set ?s" "length ?s \<le> 15" using assms by (auto dest: in_set_takeD)
  obtain z where z: "bpf_get_current_comm 16 ts = ?s @ CHR 0x00 # replicate z CHR 0x00" "z = 15 - length ?s"
    using s(2) by (simp add: bpf_get_current_comm_def Let_def Suc_diff_le flip: replicate_Suc)
  show ?thesis
  proof (cases "3 \<le> length ?s")
    case True
    have "CHR 0x00 \<notin> set (List.drop 3 ?s)" using s(1) by (meson in_set_dropD)
    with True show ?thesis by (simp only: z(1) drop_append append_Cons append_assoc) (simp add: cstring_prefix)
  next
    case False
    then have "List.drop 3 (CHR 0x00 # replicate z CHR 0x00) = replicate (z - 2) CHR 0x00" for z :: nat
      by (simp add: drop_replicate eval_nat_numeral)
    moreover have "List.drop (3 - length ?s) (CHR 0x00 # replicate z CHR 0x00) = CHR 0x00 # replicate (z + length ?s - 3) CHR 0x00"
      using False z(2) by (simp add: drop_replicate Suc_diff_le flip: replicate_Suc)
    ultimately show ?thesis using False by (simp only: z(1) drop_append) (simp add: cstring_prefix [of "[]", simplified])
  qed
qed

lemma path_read:
  assumes "length dst = 128" and "\<And>s. src = Some s \<Longrightarrow> CHR 0x00 \<notin> set s"
  shows "cstring (List.drop 3 (bpf_probe_read_user_str 128 src dst) @ rest) =
    (case src of None \<Rightarrow> [] | Some s \<Rightarrow> if 3 \<le> length s then List.drop 3 (take 127 s) else cstring (List.drop 3 dst @ rest))"
proof (cases src)
  case None
  have "List.drop 3 (replicate 128 CHR 0x00) = CHR 0x00 # replicate 124 CHR 0x00" by (simp add: drop_replicate eval_nat_numeral)
  with None show ?thesis using cstring_prefix [of "[]"] by (simp add: bpf_probe_read_user_str_def)
next
  case (Some s)
  show ?thesis
  proof (cases "3 \<le> length s")
    case True
    have "c_string 128 (take 127 s) (bpf_probe_read_user_str 128 src dst)"
      using assms by (auto simp: c_string_def Some bpf_probe_read_user_str_def Let_def has_prefix_iff min_def dest: in_set_takeD)
    with True Some show ?thesis by (simp add: cstring_late)
  next
    case False
    then have "length s = 0 \<or> length s = 1 \<or> length s = 2" by arith
    then have "List.drop 3 (s @ CHR 0x00 # List.drop (Suc (length s)) dst) = List.drop 3 dst"
      by (elim disjE) (simp_all add: eval_nat_numeral)
    with False have "List.drop 3 (bpf_probe_read_user_str 128 src dst) = List.drop 3 dst"
      by (simp add: Some bpf_probe_read_user_str_def Let_def)
    with False Some show ?thesis by simp
  qed
qed

section \<open>Property\<close>

text \<open>
  What the entry of a system call says: the name of its event, the path it names, if it names one, and the arguments
  that are passed on.
\<close>

definition expected :: "string \<Rightarrow> user_mem \<Rightarrow> ctx \<Rightarrow> string \<times> string option option \<times> 64 word option \<times> 64 word option" where
  "expected tp um ctx =
     (if tp = ''sys_enter_execve'' then (''execve'', Some (um_str um (ctx 0)), None, None)
      else if tp = ''sys_enter_openat'' then (''open'', Some (um_str um (ctx 1)), Some (ctx 2), None)
      else if tp = ''sys_enter_connect'' then (''connect'', None, None, None)
      else if tp = ''sys_enter_clone'' then (''clone'', None, None, None)
      else if tp = ''sys_enter_ptrace'' then (''ptrace'', None, Some (ctx 0), Some (ctx 1))
      else if tp = ''sys_enter_bpf'' then (''bpf'', None, Some (ctx 0), None)
      else (''init_module'', None, None, None))"

text \<open>
  The path an event shows for a path in the memory of the caller: nothing when it cannot be read, else at most 127
  bytes, without the first three; of a path of one or two bytes nothing is left, and what shows is the path that an
  earlier record left in the buffer.
\<close>

definition shown_path :: "string option \<Rightarrow> string \<Rightarrow> string" where
  "shown_path src old = (case src of None \<Rightarrow> [] | Some s \<Rightarrow> if 3 \<le> length s then List.drop 3 (take 127 s) else old)"



end
