(* ===== verification/Pipeline.thy ===== *)
theory Pipeline
  imports System Tracer
begin

text \<open>
  One system call through the whole program: from the module load the kernel traces to the row in the buffer of
  the store. On the way stand the collector's filter and its channel, the detector's exceptions,
  suppressions and deduplication, the alerter's rate limit and the store's buffer; the property says that
  these are all the ways in which such a finding can be silenced.
\<close>

section \<open>What the configuration fixes for a run\<close>

definition mn_fixed :: "config \<Rightarrow> monitor \<Rightarrow> bool" where
  "mn_fixed cfg mn \<longleftrightarrow> al_sink (mn_al mn) = cfg_DBEnabled cfg \<and>
     d_lp (mn_det mn) = lineageAdapter (newClassifier (Some cfg)) \<and>
     (customRules cfg \<or> d_eng (mn_det mn) = Some default_rules)"

lemma check_loop_seen: "\<exists>s. snd (check_loop supp e clock n rs d) = d\<lparr>d_seen := s\<rparr>"
proof (induction rs arbitrary: n d)
  case (Cons r rs)
  obtain dup d' where dd: "duplicate d (r_RuleID r) e (clock n) = (dup, d')" by fastforce
  then obtain s' where d': "d' = d\<lparr>d_seen := s'\<rparr>" using duplicate_seen by blast
  obtain s where s: "snd (check_loop supp e clock (Suc n) rs d') = d'\<lparr>d_seen := s\<rparr>"
    using Cons.IH [of "Suc n" d'] by blast
  obtain s1 where s1: "snd (check_loop supp e clock n rs d) = d\<lparr>d_seen := s1\<rparr>"
    using Cons.IH [of n d] by blast
  show ?case
  proof (cases "supp \<noteq> [] \<and> Suppresses supp (check_target d e r)")
    case True
    with s1 show ?thesis by auto
  next
    case False
    with dd d' s show ?thesis by (auto split: prod.splits intro!: exI [of _ s])
  qed
next
  case Nil
  show ?case by (intro exI [of _ "d_seen d"]) simp
qed

lemma Check_seen: "\<exists>s. snd (Check d e clock) = d\<lparr>d_seen := s\<rparr>"
proof (cases "excepted d e \<or> d_eng d = None")
  case True
  then show ?thesis by (intro exI [of _ "d_seen d"]) (auto simp: Check_def split: option.splits)
next
  case False
  then show ?thesis using check_loop_seen by (auto simp: Check_def)
qed

lemma report_all_sink: "al_sink (mn_al (report_all en ses n as mn)) = al_sink (mn_al mn)"
proof (induction as arbitrary: n mn)
  case (Cons a as)
  let ?mn = "mn\<lparr>mn_alerted := mn_alerted mn + 1\<rparr>"
  obtain raised mn1 where r: "report en (ses n) a ?mn = (raised, mn1)" by fastforce
  with report_corr [OF r] Cons show ?case by simp
qed simp

lemma report_fixed: "mn_fixed cfg (snd (report en ses a mn)) = mn_fixed cfg mn"
  using report_corr [of en ses a mn "fst (report en ses a mn)" "snd (report en ses a mn)"]
  by (simp add: mn_fixed_def)

lemma turn_fixed: "turn en cfg i mn = Some mn' \<Longrightarrow> mn_fixed cfg mn \<Longrightarrow> mn_fixed cfg mn'"
proof (cases i)
  case (EventReceived e clock ses)
  obtain s where s: "snd (Check (mn_det mn) e clock) = (mn_det mn)\<lparr>d_seen := s\<rparr>" using Check_seen by blast
  assume "turn en cfg i mn = Some mn'" "mn_fixed cfg mn"
  with EventReceived s show ?thesis
    by (auto simp: turn_def handle_event_def mn_fixed_def report_all_corr report_all_sink split: prod.splits)
next
  case (AuthAlert a ses)
  assume "turn en cfg i mn = Some mn'" "mn_fixed cfg mn"
  with AuthAlert show ?thesis by (auto simp: turn_def report_fixed split: if_splits)
qed (auto simp: turn_def reloadRules_def reloadSuppressions_def SetRuleset_def SetSuppressions_def mn_fixed_def
    split: sum.splits if_splits)

lemma alerter_New_fields:
  "alerter_New cfg sink mkdirOk openOk fs = Inr a \<Longrightarrow> al_sink a = sink \<and> al_cfg a = cfg \<and> al_rateMap a = []"
  by (auto simp: alerter_New_def Let_def split: if_splits)

lemma started_fixed:
  assumes "main_start fl v = Running cfg mn"
  shows "mn_fixed cfg mn"
proof -
  have al: "alerter_New cfg (cfg_DBEnabled cfg) (fst (sv_logOk v)) (snd (sv_logOk v)) (sv_files v) = Inr (mn_al mn)"
    and d: "\<exists>rd rf dec supp. mn_det mn = (det_New rd rf dec cfg)\<lparr>d_supp := supp\<rparr>"
    using assms
    by (auto simp: main_start_def Let_def start_monitor_def reloadSuppressions_def SetSuppressions_def
        split: if_splits sum.splits) (metis detector.surjective detector.update_convs(8))+
  have "al_sink (mn_al mn) = cfg_DBEnabled cfg"
    using alerter_New_fields [OF al] by simp
  moreover have "d_eng (det_New rd rf dec cfg) = Some default_rules" if "\<not> customRules cfg" for rd rf dec
    using that by (simp add: customRules_def det_New_def Let_def default_loads)
  moreover obtain rd rf dec supp where "mn_det mn = (det_New rd rf dec cfg)\<lparr>d_supp := supp\<rparr>" using d by blast
  ultimately show ?thesis by (cases "customRules cfg") (simp_all add: mn_fixed_def)
qed

lemma mn_fixed_store [simp]: "mn_fixed cfg (mn\<lparr>mn_store := st\<rparr>) = mn_fixed cfg mn"
  by (simp add: mn_fixed_def)

lemma system_fixed: "system en cfg n s \<Longrightarrow> mn_fixed cfg (sy_mn s)"
proof (induction rule: system.induct)
  case (start fl v mn pid)
  then show ?case by (simp add: initial_def started_fixed)
qed (auto intro: turn_fixed)

section \<open>A module load in a container\<close>

text \<open>The record becomes the newest event of the channel, with the container resolved for its process.\<close>

lemma module_record_queued:
  assumes "kernel_ok k" and "k_event_type k = EventModule"
    and "Resolve (le_proc le) (k_pid k) (co_mapper c) = (m, Some info)" and "IsMonitored (co_cfg c) (c_Name info)"
    and "length (co_out c) < channel_capacity"
  shows "\<exists>e. co_out (loop_step le (kernel_record pads k) c) = co_out c @ [e] \<and> e_PID e = k_pid k \<and>
    e_Type e = EventModule \<and> e_Container e = Some info"
proof -
  obtain raw where raw: "decode_raw (kernel_record pads k) = Some raw"
      "r_PID raw = k_pid k" "r_EventType raw = EventModule"
    using kernel_record_decoded [OF assms(1), of pads] assms(2) by auto
  let ?c = "c\<lparr>co_mapper := m\<rparr>" and ?e = "(parseEvent raw (le_now le))\<lparr>e_Container := Some info\<rparr>"
  have e: "e_PID ?e = k_pid k" "e_Type ?e = EventModule" using raw by (simp_all add: parseEvent_def)
  have "\<not> skipped ?c ?e" using assms(4) e(2) by (simp add: skipped_def event_type_defs)
  moreover obtain c2 e2 where en: "enrich le ?e ?c = (c2, e2)" by fastforce
  moreover have "needsEnrichment EventModule" by (simp add: needsEnrichment_def)
  ultimately have step: "loop_step le (kernel_record pads k) c = send_event e2 c2"
    using raw assms(3) e by (simp add: loop_step_def parseEvent_def Let_def)
  have "co_out c2 = co_out c" "e_PID e2 = k_pid k" "e_Type e2 = EventModule" "e_Container e2 = Some info"
    using en e by (auto simp: enrich_def Let_def split: prod.splits if_splits)
  with step assms(5) show ?thesis by (simp add: send_event_def)
qed

lemma module_programs:
  assumes "(tp, prog) \<in> set programs" and "snd tp \<in> {''sys_enter_init_module'', ''sys_enter_finit_module''}"
  shows "k_event_type (prog um ts ctx e0) = EventModule \<and> k_pid (prog um ts ctx e0) = ucast (drop_bit 32 (ts_pid_tgid ts))"
  using assms
  by (auto simp: programs_def tracepoints_def trace_init_module_def trace_finit_module_def fill_common_def)

text \<open>The embedded rules have exactly one finding about it, a critical one.\<close>

lemma module_finding:
  assumes "e_Type e = EventModule" and "e_Container e = Some info"
  shows "\<exists>x. findings (e, lineageAdapter c, event_scope e) default_rules = [x] \<and>
    r_RuleID x = ''kernel_module_load'' \<and> r_Severity x = SeverityCritical"
proof -
  have sc: "event_scope e = ScopeContainer" using assms(2) by (simp add: event_scope_def IsHost_def)
  have ty: "e_Type e \<noteq> EventExecve" "e_Type e \<noteq> EventOpen" "e_Type e \<noteq> EventConnect" "e_Type e \<noteq> EventPtrace"
    "e_Type e \<noteq> EventBPF"
    using assms(1) by (simp_all add: event_type_defs)
  have "legacyFindings defaultRules e c ScopeContainer =
      [(ruleKernelModuleLoad, SeverityCritical, ''kernel module loaded from container (possible rootkit)'')]"
    using assms(1) ty
    by (simp add: legacyFindings_def defaultRules_def List.map_filter_simps legacy_finding_def ruleKernelModuleLoad_def
        ruleBPFProgLoad_def ruleReverseShell_def ruleProcessInjection_def rulePersistence_def ruleShellInContainer_def
        rulePrivilegedProcess_def ruleNetworkTool_def ruleContainerDrift_def rulePackageManager_def
        ruleSensitiveFileAccess_def ruleCredentialFileAccess_def ruleHostUserManipulation_def ruleHostLogTampering_def
        ruleHostDockerSock_def ruleHostTmpExec_def ruleHostShellFromService_def ScopeAll_def ScopeHost_def
        ScopeContainer_def)
  with same_rules_findings [OF all_rules_same, of ScopeContainer e c] sc
  show ?thesis
    by (auto simp: engine_verdict_def legacy_verdict_def ruleKernelModuleLoad_def)
qed

section \<open>From the finding to the row\<close>

lemma send_alert_rows:
  assumes "send_alert en se a mn = (al, mn')"
  shows "set (st_ch (mn_store mn)) \<subseteq> set (st_ch (mn_store mn'))"
  using assms by (auto simp: send_alert_def deliver_persisted buffer.puts_waiting split: prod.splits)

lemma Send_passes:
  assumes "severityRank (cfg_AlertMinSeverity (al_cfg al0)) \<le> severityRank (a_Severity a)"
    and "\<not> fst (isRateLimited (al_cfg al0) (al_rateMap al0) (a_ContainerID a) (clock 1) (clock 2))"
    and "al_sink al0" and "Send marshal openOk random clock a al0 = (ds, al, al')"
  shows "persisted ds = [al]"
proof -
  let ?al = "stamp_alert (al_cfg al0) random (clock 0) a"
  have st: "a_Severity ?al = a_Severity a" "a_ContainerID ?al = a_ContainerID a"
    by (simp_all add: stamp_alert_def Let_def)
  obtain lim rm where l: "isRateLimited (al_cfg al0) (al_rateMap al0) (a_ContainerID a) (clock 1) (clock 2) = (lim, rm)"
    by fastforce
  obtain a1 where f: "send_filter al0 ?al (clock 1) (clock 2) = (False, a1)"
    using assms(1,2) st l by (cases "IsIncident ?al") (simp_all add: send_filter_def)
  have "al_sink a1" using send_filter_keeps [OF f] assms(3) by simp
  then show ?thesis
    using assms(4) f by (auto simp: Send_def Let_def split: if_splits)
qed

lemma report_persists:
  assumes "severityRank (cfg_AlertMinSeverity (al_cfg (mn_al mn))) \<le> severityRank (a_Severity a)"
    and "\<not> fst (isRateLimited (al_cfg (mn_al mn)) (al_rateMap (mn_al mn)) (a_ContainerID a)
      (se_clock (fst ses) 1) (se_clock (fst ses) 2))"
    and "al_sink (mn_al mn)" and "length (st_ch (mn_store mn)) < bufferSize"
  shows "\<exists>al. toRow (en_details en) al \<in> set (st_ch (mn_store (snd (report en ses a mn)))) \<and>
    al = stamp_alert (al_cfg (mn_al mn)) (se_random (fst ses)) (se_clock (fst ses) 0) a"
proof -
  obtain al mn1 where s: "send_alert en (fst ses) a mn = (al, mn1)" by fastforce
  then obtain ds al' where send: "Send (en_payload en) (se_openOk (fst ses)) (se_random (fst ses)) (se_clock (fst ses)) a
      (mn_al mn) = (ds, al, al')" and st: "mn_store mn1 = deliver en ds (mn_store mn)"
    by (auto simp: send_alert_def split: prod.splits)
  have row: "toRow (en_details en) al \<in> set (st_ch (mn_store mn1))"
    using Send_passes [OF assms(1-3) send] assms(4)
    by (simp add: st deliver_persisted put_row_def)
  have "set (st_ch (mn_store mn1)) \<subseteq> set (st_ch (mn_store (snd (report en ses a mn))))"
  proof (cases "mn_corr mn1")
    case None
    with s show ?thesis by (simp add: report_def)
  next
    case (Some c)
    obtain inc c' where o: "Observe c (Some al) (se_observe (fst ses)) = (inc, c')" by fastforce
    show ?thesis
    proof (cases inc)
      case None
      with s Some o show ?thesis by (simp add: report_def)
    next
      case i: (Some i)
      obtain al2 mn2 where s2: "send_alert en (snd ses) i (mn1\<lparr>mn_corr := Some c'\<rparr>) = (al2, mn2)" by fastforce
      with send_alert_rows [OF s2] s Some o i show ?thesis by (simp add: report_def)
    qed
  qed
  with row send_alert_keeps [OF s] show ?thesis by blast
qed

text \<open>
  What can silence a finding of the rule \<open>rid\<close> about an event of a container: a configured exception, an
  operator's suppression, a report of the same finding within the last 30 seconds, the rate limit of the
  container, and a full buffer of the store.
\<close>

definition silenced :: "string \<Rightarrow> event \<Rightarrow> info \<Rightarrow> (nat \<Rightarrow> time) \<Rightarrow> send_env \<Rightarrow> monitor \<Rightarrow> bool" where
  "silenced rid e info clock se mn \<longleftrightarrow>
     (let d = mn_det mn; al = mn_al mn in
      excepted d e \<or>
      Suppresses (d_supp d) \<lparr>t_RuleID = rid, t_Scope = ScopeContainerName, t_Hostname = [],
        t_ContainerName = c_Name info, t_ProcessName = det_processName e, t_Haystack = eventHaystack e\<rparr> \<or>
      fst (duplicate d rid e (clock 0)) \<or>
      fst (isRateLimited (al_cfg al) (al_rateMap al) (c_ID info) (se_clock se 1) (se_clock se 2)) \<or>
      bufferSize \<le> length (st_ch (mn_store mn)))"

lemma single_finding_checked:
  assumes "d_eng d = Some rules" and "findings (e, d_lp d, event_scope e) rules = [x]" and "e_Container e = Some info"
    and "\<not> silenced (r_RuleID x) e info clock se mn" and "mn_det mn = d"
  shows "fst (Check d e clock) = [buildAlert x e]"
proof -
  have "\<not> excepted d e" using assms(4,5) by (simp add: silenced_def Let_def)
  moreover have "\<not> Suppresses (d_supp d) (check_target d e x)"
    using assms(3-5) by (simp add: silenced_def check_target_def IsHost_def Let_def)
  moreover have "\<not> fst (duplicate d (r_RuleID x) e (clock 0))" using assms(4,5) by (simp add: silenced_def Let_def)
  ultimately show ?thesis
    by (simp add: Check_eq [OF assms(1)] assms(2) unsuppressed_def case_prod_beta)
qed

lemma container_finding_stored:
  assumes "mn_fixed cfg mn" and "al_cfg (mn_al mn) = cfg" and "\<not> customRules cfg" and "cfg_DBEnabled cfg"
    and "findings (e, lineageAdapter (newClassifier (Some cfg)), event_scope e) default_rules = [x]"
    and "r_Severity x = SeverityCritical" and "e_Container e = Some info"
    and "\<not> silenced (r_RuleID x) e info clock (fst (ses 0)) mn"
  shows "\<exists>mn' r. turn en cfg (EventReceived e clock ses) mn = Some mn' \<and> r \<in> set (st_ch (mn_store mn')) \<and>
    w_RuleID r = r_RuleID x \<and> w_Severity r = SeverityCritical \<and> w_ContainerID r = c_ID info \<and>
    w_ContainerName r = c_Name info \<and> w_PID r = uint (e_PID e)"
proof -
  have eng: "d_eng (mn_det mn) = Some default_rules" and lp: "d_lp (mn_det mn) = lineageAdapter (newClassifier (Some cfg))"
    and sink: "al_sink (mn_al mn)"
    using assms(1,3,4) by (auto simp: mn_fixed_def)
  obtain as d where c: "Check (mn_det mn) e clock = (as, d)" by fastforce
  with single_finding_checked [OF eng assms(5) [folded lp] assms(7,8) refl] have as: "as = [buildAlert x e]" by simp
  let ?a = "buildAlert x e" and ?mn = "mn\<lparr>mn_det := d, mn_processed := mn_processed mn + 1, mn_alerted := mn_alerted mn + 1\<rparr>"
  have a: "a_RuleID ?a = r_RuleID x" "a_Severity ?a = SeverityCritical" "a_ContainerID ?a = c_ID info"
    "a_ContainerName ?a = c_Name info" "a_PID ?a = e_PID e"
    using assms(6,7) by (simp_all add: buildAlert_def Let_def)
  have "severityRank (cfg_AlertMinSeverity cfg) \<le> severityRank SeverityCritical"
    by (simp add: severityRank_def SeverityLow_def SeverityMedium_def SeverityHigh_def SeverityCritical_def)
  then have "\<exists>al. toRow (en_details en) al \<in> set (st_ch (mn_store (snd (report en (ses 0) ?a ?mn)))) \<and>
      al = stamp_alert cfg (se_random (fst (ses 0))) (se_clock (fst (ses 0)) 0) ?a"
    using report_persists [of ?mn ?a "ses 0" en] assms(2,8) a sink by (simp add: silenced_def Let_def not_le)
  then obtain al where row: "toRow (en_details en) al \<in> set (st_ch (mn_store (snd (report en (ses 0) ?a ?mn))))"
    and al: "al = stamp_alert cfg (se_random (fst (ses 0))) (se_clock (fst (ses 0)) 0) ?a" by blast
  have "\<exists>mn'. turn en cfg (EventReceived e clock ses) mn = Some mn' \<and>
      mn_store mn' = mn_store (snd (report en (ses 0) ?a ?mn))"
    by (simp add: turn_def handle_event_def c as split: prod.splits)
  then obtain mn' where mn': "turn en cfg (EventReceived e clock ses) mn = Some mn'"
    "mn_store mn' = mn_store (snd (report en (ses 0) ?a ?mn))" by blast
  have "a_RuleID al = r_RuleID x" "a_Severity al = SeverityCritical" "a_ContainerID al = c_ID info"
    "a_ContainerName al = c_Name info" "a_PID al = e_PID e"
    using a by (simp_all add: al stamp_alert_def Let_def)
  then have "w_RuleID (toRow m al) = r_RuleID x \<and> w_Severity (toRow m al) = SeverityCritical \<and>
      w_ContainerID (toRow m al) = c_ID info \<and> w_ContainerName (toRow m al) = c_Name info \<and>
      w_PID (toRow m al) = uint (e_PID e)" for m
    by (simp add: toRow_def Let_def)
  with row mn' show ?thesis by auto
qed

section \<open>Property\<close>

text \<open>
  C3. A kernel module loaded inside a monitored container is reported. With the embedded rules and the database
  on, whatever the program did before: when a process enters one of the two system calls that load a module and the
  kernel has room for the record, the record becomes one event in the channel, if there is room, and when the main
  loop receives that event, in whatever state the program is by then, a critical row about that process and
  container is in the buffer of the store, unless it is silenced by one of the ways of \<open>silenced\<close>. Neither the
  severity threshold nor the truncated names of the record nor what memory the record was written to can prevent it.
\<close>

theorem module_load_recorded:
  assumes "system en cfg n s" and "system en cfg n' s'" and "\<not> customRules cfg" and "cfg_DBEnabled cfg"
    and "(tp, prog) \<in> set programs" and "snd tp \<in> {''sys_enter_init_module'', ''sys_enter_finit_module''}"
    and "kernel_ok e0" and "pid = ucast (drop_bit 32 (ts_pid_tgid ts))"
    and "Resolve (le_proc le) pid (co_mapper (sy_co s)) = (m, Some info)" and "IsMonitored cfg (c_Name info)"
    and "length (co_out (sy_co s)) < 1000"
  shows "\<exists>e. co_out (loop_step le (kernel_record pads (prog um ts ctx e0)) (sy_co s)) = co_out (sy_co s) @ [e] \<and>
    ((\<exists>co. receive (sy_co s') = Some (e, co)) \<and> \<not> silenced ''kernel_module_load'' e info clock (fst (ses 0)) (sy_mn s') \<longrightarrow>
     (\<exists>mn' r. turn en cfg (EventReceived e clock ses) (sy_mn s') = Some mn' \<and> r \<in> set (st_ch (mn_store mn')) \<and>
        w_RuleID r = ''kernel_module_load'' \<and> w_Severity r = SeverityCritical \<and> w_ContainerID r = c_ID info \<and>
        w_ContainerName r = c_Name info \<and> w_PID r = uint pid))"
proof -
  let ?k = "prog um ts ctx e0"
  have k: "kernel_ok ?k" "k_event_type ?k = EventModule" "k_pid ?k = pid"
    using programs_ok [OF assms(5,7)] module_programs [OF assms(5,6)] assms(8) by simp_all
  have cfg: "co_cfg (sy_co s) = cfg" and al: "al_cfg (mn_al (sy_mn s')) = cfg"
    using system_inv [OF assms(1)] system_inv [OF assms(2)] by (simp_all add: sys_inv_def mn_allowed_def)
  obtain e where e: "co_out (loop_step le (kernel_record pads ?k) (sy_co s)) = co_out (sy_co s) @ [e]"
      "e_PID e = pid" "e_Type e = EventModule" "e_Container e = Some info"
    using module_record_queued [OF k(1,2), of le "sy_co s" m info pads] assms(9-11) cfg k(3)
    by (auto simp: channel_capacity_def)
  obtain x where x: "findings (e, lineageAdapter (newClassifier (Some cfg)), event_scope e) default_rules = [x]"
      "r_RuleID x = ''kernel_module_load''" "r_Severity x = SeverityCritical"
    using module_finding [OF e(3,4)] by blast
  show ?thesis
    using container_finding_stored [OF system_fixed [OF assms(2)] al assms(3,4) x(1,3) e(4), of clock ses en] e x(2)
    by (intro exI [of _ e]) simp
qed

definition db_start :: start_env where
  "db_start = ex_start\<lparr>sv_env := (\<lambda>k. if k = ''KW_LOG_ENABLED'' then ''false'' else if k = ''KW_DB_ENABLED'' then ''true''
     else if k = ''KW_DB_PASSWORD'' then ''s3cret'' else [])\<rparr>"

definition ex_task :: task where
  "ex_task = \<lparr>ts_pid_tgid = 0x700000007, ts_uid_gid = 0, ts_ktime = 9, ts_comm = ''insmod''\<rparr>"

definition ex_mem :: user_mem where
  "ex_mem = \<lparr>um_str = (\<lambda>a. None), um_sockaddr = (\<lambda>a. None)\<rparr>"

definition module_load :: kernel_event where
  "module_load = trace_finit_module ex_mem ex_task (\<lambda>i. 0) shadow_open"

lemma db_start_loads: "validate (\<lambda>_. None) (load_fields (sv_env db_start)) = None"
  by code_simp

lemma db_start_fields:
  "\<not> customRules (load_fields (sv_env db_start)) \<and> \<not> cfg_LogEnabled (load_fields (sv_env db_start)) \<and>
   \<not> cfg_APIEnabled (load_fields (sv_env db_start)) \<and> cfg_DBEnabled (load_fields (sv_env db_start)) \<and>
   cfg_DetectionExceptions (load_fields (sv_env db_start)) = [] \<and> cfg_AlertMaxRate (load_fields (sv_env db_start)) = 10 \<and>
   cfg_ContainerBlacklist (load_fields (sv_env db_start)) = [] \<and> cfg_ContainerWhitelist (load_fields (sv_env db_start)) = []"
  by code_simp

theorem module_load_recorded_witness:
  "\<exists>e mn mn' r. turn ex_en (load_fields (sv_env db_start)) (EventReceived e (\<lambda>_. 9) (\<lambda>_. (ex_se, ex_se))) mn = Some mn' \<and>
     r \<in> set (st_ch (mn_store mn')) \<and> w_RuleID r = ''kernel_module_load'' \<and> w_ContainerID r = replicate 64 CHR ''a'' \<and>
     w_PID r = 7"
proof -
  let ?fl = "\<lparr>fl_version = False, fl_health = False, fl_validate = False\<rparr>" and ?cfg = "load_fields (sv_env db_start)"
  have load: "Load (\<lambda>_. None) (sv_env db_start) = Inr ?cfg" by (simp add: Load_def db_start_loads)
  have sv: "sv_stat db_start = (\<lambda>_. None)" "sv_collectorOk db_start" "sv_suppressions db_start = Inr []"
    by (simp_all add: db_start_def ex_start_def)
  obtain al where al: "alerter_New ?cfg True (fst (sv_logOk db_start)) (snd (sv_logOk db_start)) (sv_files db_start) = Inr al"
    using db_start_fields by (simp add: alerter_New_def Let_def)
  let ?d = "det_New (src_readDir (sv_rules db_start)) (src_readFile (sv_rules db_start)) (src_decode (sv_rules db_start)) ?cfg"
  let ?mn = "start_monitor ?cfg (SetSuppressions [] ?d) al"
  have "main_start ?fl db_start = Running ?cfg ?mn"
    using db_start_fields al
    by (simp add: main_start_def load sv Let_def reloadSuppressions_def start_monitor_def)
  note run = system.start [OF this, of ex_en 7]
  let ?le = "quiet_env\<lparr>le_proc := host_env\<rparr>" and ?c = "sy_co (initial ?cfg 7 ?mn)"
  let ?s' = "(initial ?cfg 7 ?mn)\<lparr>sy_co := loop_step ?le (kernel_record (\<lambda>i. 0) module_load) ?c\<rparr>"
  note run' = system.sample [OF run, of ?le "kernel_record (\<lambda>i. 0) module_load"]
  have k: "((''syscalls'', ''sys_enter_finit_module''), trace_finit_module) \<in> set programs" "kernel_ok shadow_open"
    "snd (''syscalls'', ''sys_enter_finit_module'') \<in> {''sys_enter_init_module'', ''sys_enter_finit_module''}"
    by (simp_all add: programs_def tracepoints_def kernel_ok_def shadow_open_def eval_nat_numeral)
  have pid: "(7 :: 32 word) = ucast (drop_bit 32 (ts_pid_tgid ex_task))"
    by (simp add: ex_task_def drop_bit_eq_div)
  let ?info = "\<lparr>c_ID = replicate 64 CHR ''a'', c_ShortID = replicate 12 CHR ''a'', c_Name = replicate 12 CHR ''a'', c_ImageName = [], c_ResolvedAt = 1\<rparr>"
  have "snd (Resolve host_env 7 (mapper_New (5 * 60 * 1000000000))) = Some ?info" by code_simp
  then obtain m where res: "Resolve (le_proc ?le) 7 (co_mapper ?c) = (m, Some ?info)"
    by (cases "Resolve host_env 7 (mapper_New (5 * 60 * 1000000000))") (simp add: initial_def collector_New_def)
  have mon: "IsMonitored ?cfg (c_Name ?info)" using db_start_fields by (simp add: IsMonitored_def)
  have room: "length (co_out ?c) < 1000" by (simp add: initial_def collector_New_def)
  have db: "\<not> customRules ?cfg" "cfg_DBEnabled ?cfg" using db_start_fields by blast+
  from module_load_recorded [OF run run' db k(1,3,2) pid res mon room, where um = ex_mem and ctx = "\<lambda>i. 0" and pads = "\<lambda>i. 0" and clock = "\<lambda>_. 9"
      and ses = "\<lambda>_. (ex_se, ex_se)", folded module_load_def]
  obtain e where e: "co_out (loop_step ?le (kernel_record (\<lambda>i. 0) module_load) ?c) = co_out ?c @ [e]" and
    rep: "(\<exists>co. receive (sy_co ?s') = Some (e, co)) \<and>
        \<not> silenced ''kernel_module_load'' e ?info (\<lambda>_. 9) (fst (ex_se, ex_se)) (sy_mn ?s') \<longrightarrow>
      (\<exists>mn' r. turn ex_en ?cfg (EventReceived e (\<lambda>_. 9) (\<lambda>_. (ex_se, ex_se))) (sy_mn ?s') = Some mn' \<and>
        r \<in> set (st_ch (mn_store mn')) \<and> w_RuleID r = ''kernel_module_load'' \<and> w_Severity r = SeverityCritical \<and>
        w_ContainerID r = c_ID ?info \<and> w_ContainerName r = c_Name ?info \<and> w_PID r = uint (7 :: 32 word))"
    by blast
  have "\<exists>co. receive (sy_co ?s') = Some (e, co)"
    using e by (simp add: receive_def initial_def collector_New_def)
  moreover have "\<not> silenced ''kernel_module_load'' e ?info (\<lambda>_. 9) (fst (ex_se, ex_se)) (sy_mn ?s')"
    using db_start_fields alerter_New_fields [OF al]
    by (simp add: silenced_def initial_def start_monitor_def SetSuppressions_def excepted_def det_New_def New_exceptions_def
        duplicate_def seen_step_def isRateLimited_def newStore_def bufferSize_def Let_def)
  moreover have "uint (7 :: 32 word) = 7" by simp
  ultimately show ?thesis using rep by (metis info.select_convs(1))
qed

end
