(* ===== verification/Bruteforce.thy ===== *)
theory Bruteforce
  imports Pipeline
begin

text \<open>
  An attack on the SSH service through the whole program: from the lines \<open>sshd\<close> appends to the auth log to the row
  in the buffer of the store. The tailer may find the lines in any number of polls and among any other
  lines; what its tracker held before the attack does not matter.
\<close>

section \<open>The tracker finds every burst\<close>

definition attempts :: "string \<Rightarrow> (string \<times> time) list \<Rightarrow> time list" where
  "attempts ip log = map snd (filter (\<lambda>x. FailedAuthIP (fst x) = Some ip) log)"

lemma attempts_simps [simp]:
  "attempts ip [] = []"
  "attempts ip ((line, now) # log) =
     (if FailedAuthIP line = Some ip then now # attempts ip log else attempts ip log)"
  by (simp_all add: attempts_def)

text \<open>The hits of an address that no attempt of the times \<open>T\<close> can push out of the window.\<close>

definition lasting :: "time set \<Rightarrow> string \<Rightarrow> tracker \<Rightarrow> nat" where
  "lasting T ip t = length (filter (\<lambda>at. \<forall>now \<in> T. now - tk_window t < at) (hits t ip))"

lemma add_fields:
  "add t ip now = (t', k, fired) \<Longrightarrow>
   tk_threshold t' = tk_threshold t \<and> tk_window t' = tk_window t \<and> (fired \<longleftrightarrow> tk_threshold t \<le> int k)"
  by (auto simp: add_def Let_def split: if_splits)

lemma add_other: "add t j now = (t', k, fired) \<Longrightarrow> j \<noteq> ip \<Longrightarrow> lasting T ip t' = lasting T ip t"
  by (auto simp: add_def Let_def lasting_def split: if_splits)

lemma add_counts:
  assumes "add t ip now = (t', k, fired)" and "now \<in> T" and "\<And>x. x \<in> T \<Longrightarrow> x - now < tk_window t"
  shows "lasting T ip t < k" and "\<not> fired \<Longrightarrow> lasting T ip t' = Suc (lasting T ip t)"
proof -
  let ?w = "tk_window t" and ?P = "\<lambda>at. \<forall>x \<in> T. x - tk_window t < at"
  define fresh where "fresh = filter (\<lambda>at. now - ?w < at) (hits t ip) @ [now]"
  have step: "(t', k, fired) = (if tk_threshold t \<le> int (length fresh)
      then (t\<lparr>tk_hit := AList.delete ip (tk_hit t)\<rparr>, length fresh, True)
      else (t\<lparr>tk_hit := AList.update ip fresh (tk_hit t)\<rparr>, length fresh, False))"
    using assms(1) [symmetric] unfolding add_def Let_def hits.prune_filter fresh_def by simp
  have "?P now" using assms(3) by fastforce
  moreover have "filter ?P (filter (\<lambda>at. now - ?w < at) (hits t ip)) = filter ?P (hits t ip)"
    using assms(2) by (simp add: conj_absorb) (rule filter_cong, auto)
  ultimately have P: "length (filter ?P fresh) = Suc (lasting T ip t)"
    by (simp add: fresh_def lasting_def)
  with length_filter_le [of ?P fresh] step show "lasting T ip t < k" by (auto split: if_splits)
  from P step show "\<not> fired \<Longrightarrow> lasting T ip t' = Suc (lasting T ip t)"
    by (auto simp: lasting_def split: if_splits)
qed

lemma burst_reported:
  assumes "handle_lines t log = (t', as)" and "attempts ip log \<noteq> []" and "set (attempts ip log) \<subseteq> T"
    and "\<And>x y. x \<in> T \<Longrightarrow> y \<in> T \<Longrightarrow> x - y < tk_window (tl_tr t)"
    and "tk_threshold (tl_tr t) \<le> int (lasting T ip (tl_tr t) + length (attempts ip log))"
  shows "\<exists>k now. brute_alert (tl_cfg t) ip k now \<in> set as \<and> tk_threshold (tl_tr t) \<le> int k"
  using assms
proof (induction log arbitrary: t t' as)
  case (Cons x log)
  obtain line now where x: "x = (line, now)" by (cases x)
  obtain t1 oa where h: "handleLine t line now = (t1, oa)" by fastforce
  obtain as1 where l: "handle_lines t1 log = (t', as1)" and eq: "as = (case oa of None \<Rightarrow> as1 | Some al \<Rightarrow> al # as1)"
    using Cons.prems(1) h by (auto simp: x split: prod.splits)
  have as: "set as1 \<subseteq> set as" "\<And>a. oa = Some a \<Longrightarrow> a \<in> set as" by (auto simp: eq split: option.splits)
  have later: "\<exists>k now. brute_alert (tl_cfg t) ip k now \<in> set as1 \<and> tk_threshold (tl_tr t) \<le> int k \<Longrightarrow> ?case"
    using as(1) by blast
  note IH = Cons.IH [OF l]
  show ?case
  proof (cases "FailedAuthIP line")
    case None
    with h have "t1 = t" by (simp add: handleLine_def)
    with IH Cons.prems(2-5) None show ?thesis by (intro later) (auto simp: x)
  next
    case (Some j)
    obtain tr k fired where a: "add (tl_tr t) j now = (tr, k, fired)" by (metis prod_cases3)
    with h Some have t1: "t1 = t\<lparr>tl_tr := tr\<rparr>" and oa: "fired \<Longrightarrow> oa = Some (brute_alert (tl_cfg t) j k now)"
      by (auto simp: handleLine_def Let_def split: if_splits)
    note f = add_fields [OF a]
    show ?thesis
    proof (cases "j = ip")
      case False
      with IH Cons.prems(2-5) Some f add_other [OF a False, of T] show ?thesis by (intro later) (auto simp: x t1)
    next
      case True
      with Some Cons.prems(3) have now: "now \<in> T" "set (attempts ip log) \<subseteq> T" by (simp_all add: x)
      have c: "lasting T ip (tl_tr t) < k" "\<not> fired \<Longrightarrow> lasting T ip tr = Suc (lasting T ip (tl_tr t))"
        using add_counts [OF a [unfolded True] now(1)] Cons.prems(4) now(1) by blast+
      show ?thesis
      proof (cases fired)
        case True
        with as(2) oa f \<open>j = ip\<close> show ?thesis by blast
      next
        case False
        then have k: "int k < tk_threshold (tl_tr t)" using f by simp
        have n: "tk_threshold (tl_tr t) \<le> int (Suc (lasting T ip (tl_tr t)) + length (attempts ip log))"
          using Cons.prems(5) Some True by (simp add: x)
        with c(1) k have "attempts ip log \<noteq> []" by auto
        with IH now(2) Cons.prems(4) n c(2) [OF False] f show ?thesis by (intro later) (auto simp: t1)
      qed
    qed
  qed
qed simp

section \<open>The tailer of a run\<close>

text \<open>The configured threshold and window, with the defaults of \<open>newTracker\<close>.\<close>

definition tail_fixed :: "config \<Rightarrow> tailer \<Rightarrow> bool" where
  "tail_fixed cfg t \<longleftrightarrow>
     (let tr = newTracker (cfg_SSHBruteThreshold cfg) (seconds (cfg_SSHBruteWindow cfg))
      in tk_threshold (tl_tr t) = tk_threshold tr \<and> tk_window (tl_tr t) = tk_window tr)"

definition ssh_window :: "config \<Rightarrow> duration" where
  "ssh_window cfg = (if seconds (cfg_SSHBruteWindow cfg) \<le> 0 then 60000000000 else seconds (cfg_SSHBruteWindow cfg))"

lemma handleLine_fixed: "handleLine t line now = (t', oa) \<Longrightarrow> tail_fixed cfg t \<Longrightarrow> tail_fixed cfg t'"
  by (auto simp: handleLine_def tail_fixed_def Let_def split: option.splits prod.splits if_splits dest: add_fields)

lemma tail_fixed_position [simp]:
  "tail_fixed cfg (t\<lparr>tl_pos := p\<rparr>) = tail_fixed cfg t" "tail_fixed cfg (t\<lparr>tl_offset := p\<rparr>) = tail_fixed cfg t"
  "tail_fixed cfg (t\<lparr>tl_f := f\<rparr>) = tail_fixed cfg t"
  by (simp_all add: tail_fixed_def)

lemma read_loop_fixed: "tail_fixed cfg t \<Longrightarrow> tail_fixed cfg (fst (read_loop clk k t buf))"
proof (induction clk k t buf rule: read_loop.induct)
  case (1 clk k t buf)
  obtain line rest where l: "read_line buf = (line, rest)" by fastforce
  let ?t = "t\<lparr>tl_offset := tl_offset t + length line, tl_pos := tl_pos t + length line\<rparr>"
  obtain t' oa where h: "handleLine ?t line (clk k) = (t', oa)" by fastforce
  show ?case
  proof (cases "line = [] \<or> List.last line \<noteq> CHR 0x0A")
    case True
    with 1(2) show ?thesis by (subst read_loop.simps) (auto simp: l)
  next
    case False
    have "tail_fixed cfg t'" using handleLine_fixed [OF h] 1(2) by simp
    then have "tail_fixed cfg (fst (read_loop clk (Suc k) t' rest))"
      using 1(1) [OF l [symmetric] _ _ h [symmetric]] False by simp
    moreover obtain t2 bs where "read_loop clk (Suc k) t' rest = (t2, bs)" by fastforce
    ultimately show ?thesis using False by (subst read_loop.simps) (simp add: l h)
  qed
qed

lemma tick_fixed: "LogTail.tick te t = (t', as) \<Longrightarrow> tail_fixed cfg t \<Longrightarrow> tail_fixed cfg t'"
proof -
  assume tick: "LogTail.tick te t = (t', as)" and ok: "tail_fixed cfg t"
  define t1 where "t1 = (if tl_f t = None then openAtEnd te t else t)"
  have 1: "tail_fixed cfg t1" using ok by (auto simp: t1_def openAtEnd_def split: option.splits)
  then have 2: "tail_fixed cfg (reopen te t1)" by (auto simp: reopen_def split: option.splits)
  have "t' = fst (LogTail.tick te t)" by (simp add: tick)
  also have "tail_fixed cfg \<dots>"
    using 1 read_loop_fixed [OF 2] 2 by (simp add: LogTail.tick_def t1_def [symmetric] Let_def split: option.splits)
  finally show "tail_fixed cfg t'" .
qed

lemma system_tail: "system en cfg n s \<Longrightarrow> tail_fixed cfg (sy_tail s) \<and> tuning_ok cfg"
proof (induction rule: system.induct)
  case (start fl v mn pid)
  then have "Load (sv_stat v) (sv_env v) = Inr cfg"
    by (auto simp: main_start_def Let_def split: if_splits sum.splits)
  then have "tuning_ok cfg" by (auto simp: Load_Inr_iff load_fields_tuning_ok)
  then show ?case by (simp add: initial_def tail_fixed_def lt_New_def tail_cfg_of_def Let_def)
qed (auto intro: tick_fixed)

lemma system_tracker:
  assumes "system en cfg n s"
  shows "tk_threshold (tl_tr (sy_tail s)) = cfg_SSHBruteThreshold cfg" and "0 < cfg_SSHBruteThreshold cfg"
    and "tk_window (tl_tr (sy_tail s)) = ssh_window cfg"
  using system_tail [OF assms] by (simp_all add: tail_fixed_def tuning_ok_def newTracker_def ssh_window_def Let_def)

section \<open>From the alert to the row\<close>

text \<open>What can keep an alert from the database: the severity threshold, the rate limit and a full buffer.\<close>

definition withheld :: "alert \<Rightarrow> send_env \<Rightarrow> monitor \<Rightarrow> bool" where
  "withheld a se mn \<longleftrightarrow>
     severityRank (a_Severity a) < severityRank (cfg_AlertMinSeverity (al_cfg (mn_al mn))) \<or>
     fst (isRateLimited (al_cfg (mn_al mn)) (al_rateMap (mn_al mn)) (a_ContainerID a) (se_clock se 1) (se_clock se 2)) \<or>
     bufferSize \<le> length (st_ch (mn_store mn))"

lemma auth_alert_stored:
  assumes "system en cfg n s" and "cfg_AuthLogEnabled cfg" and "cfg_DBEnabled cfg" and "\<not> withheld a (fst ses) (sy_mn s)"
  shows "\<exists>mn' al. turn en cfg (AuthAlert a ses) (sy_mn s) = Some mn' \<and>
    toRow (en_details en) al \<in> set (st_ch (mn_store mn')) \<and>
    al = stamp_alert cfg (se_random (fst ses)) (se_clock (fst ses) 0) a"
proof -
  have "al_sink (mn_al (sy_mn s))" "al_cfg (mn_al (sy_mn s)) = cfg"
    using system_fixed [OF assms(1)] system_inv [OF assms(1)] assms(3)
    by (simp_all add: mn_fixed_def sys_inv_def mn_allowed_def)
  with report_persists [of "sy_mn s" a ses en] assms(2,4) show ?thesis
    by (simp add: withheld_def turn_def not_le not_less)
qed

lemma stamped_row [simp]:
  "w_RuleID (toRow m (stamp_alert cfg random now a)) = a_RuleID a"
  "w_Severity (toRow m (stamp_alert cfg random now a)) = a_Severity a"
  "w_Reason (toRow m (stamp_alert cfg random now a)) = a_Reason a"
  "a_Scope a \<noteq> [] \<Longrightarrow> w_Scope (toRow m (stamp_alert cfg random now a)) = a_Scope a"
  by (simp_all add: toRow_def stamp_alert_def Let_def)

lemma brute_fields [simp]:
  "a_RuleID (brute_alert lc ip k t) = ''ssh_bruteforce''" "a_Severity (brute_alert lc ip k t) = SeverityHigh"
  "a_Scope (brute_alert lc ip k t) = ScopeHostName"
  "a_Reason (brute_alert lc ip k t) = ''SSH brute-force: '' @ show_nat k @ '' failed authentications from '' @ ip @
     '' within '' @ show_duration (lt_Window lc)"
  by (simp_all add: brute_alert_def)

lemma brute_row:
  "\<exists>r. toRow marshal (stamp_alert cfg random now (brute_alert lc ip k t)) = r \<and>
   w_RuleID r = ''ssh_bruteforce'' \<and> w_Severity r = SeverityHigh \<and> w_Scope r = ScopeHostName \<and>
   w_Reason r = ''SSH brute-force: '' @ show_nat k @ '' failed authentications from '' @ ip @ '' within '' @
     show_duration (lt_Window lc)"
  by (simp add: ScopeHostName_def)

section \<open>Property\<close>

text \<open>
  C4. A password-guessing attack is reported. In a run of the whole program with the auth log and the database on,
  whatever happened before: once the file has been read to its end and grows by at least \<open>SSHBruteThreshold\<close> lines
  that are failed authentications of one address, among any other lines and over any number of polls within the
  window, one of the polls hands over a brute-force alert about that address with at least that many attempts; and
  whenever the main loop takes this alert, the row of it is in the buffer of the store, unless the severity
  threshold, the rate limit or a full buffer withhold it.
\<close>

theorem ssh_attack_recorded:
  assumes "system en cfg n s" and "cfg_AuthLogEnabled cfg" and "cfg_DBEnabled cfg"
    and "tl_f (sy_tail s) = Some i" and "tl_pos (sy_tail s) = length d" and "tl_offset (sy_tail s) = length d"
    and "growing i d tes"
    and "cfg_SSHBruteThreshold cfg \<le>
      int (length (filter (\<lambda>l. FailedAuthIP l = Some ip) (lines_of (List.drop (length d) (content i d tes)))))"
    and "\<And>te te' j k. te \<in> set tes \<Longrightarrow> te' \<in> set tes \<Longrightarrow> te_clk te j - te_clk te' k < ssh_window cfg"
  shows "\<exists>a k. a \<in> set (snd (ticks tes (sy_tail s))) \<and> cfg_SSHBruteThreshold cfg \<le> int k \<and>
    (\<forall>n' s' as ses. system en cfg n' s' \<and> sy_pending s' = a # as \<and> \<not> withheld a (fst ses) (sy_mn s') \<longrightarrow>
      (\<exists>mn' r. turn en cfg (AuthAlert a ses) (sy_mn s') = Some mn' \<and> r \<in> set (st_ch (mn_store mn')) \<and>
        w_RuleID r = ''ssh_bruteforce'' \<and> w_Severity r = SeverityHigh \<and> w_Scope r = ScopeHostName \<and>
        w_Reason r = ''SSH brute-force: '' @ show_nat k @ '' failed authentications from '' @ ip @ '' within '' @
          show_duration (lt_Window (tl_cfg (sy_tail s)))))"
proof -
  let ?t = "sy_tail s" and ?T = "{te_clk te k | te k. te \<in> set tes}"
  note tr = system_tracker [OF assms(1)]
  have at: "at_offset (length d) ?t = ?t" using assms(5,6) by (simp add: at_offset_def)
  have "lines_of (List.drop (length d) d) = []" by simp
  from ticks_lines [OF assms(4,7) order_refl this, unfolded at] obtain log t' where
    log: "map fst log = lines_of (List.drop (length d) (content i d tes))" "handle_lines ?t log = (t', snd (ticks tes ?t))"
      "\<forall>x \<in> set log. \<exists>te \<in> set tes. \<exists>k. snd x = te_clk te k" by blast
  have "length (attempts ip log) = length (filter (\<lambda>l. FailedAuthIP l = Some ip) (map fst log))"
    by (simp add: attempts_def filter_map comp_def)
  then have many: "cfg_SSHBruteThreshold cfg \<le> int (length (attempts ip log))" using assms(8) by (simp add: log(1))
  with tr(2) have "attempts ip log \<noteq> []" by auto
  moreover have "set (attempts ip log) \<subseteq> ?T" using log(3) unfolding attempts_def set_map set_filter by blast
  moreover have "x - y < tk_window (tl_tr ?t)" if "x \<in> ?T" "y \<in> ?T" for x y
    using that assms(9) by (auto simp: tr(3))
  moreover have "tk_threshold (tl_tr ?t) \<le> int (lasting ?T ip (tl_tr ?t) + length (attempts ip log))"
    using many tr(1) by simp
  ultimately obtain k now where a: "brute_alert (tl_cfg ?t) ip k now \<in> set (snd (ticks tes ?t))"
      "cfg_SSHBruteThreshold cfg \<le> int k"
    using burst_reported [OF log(2), of ip ?T] tr(1) by auto
  show ?thesis
  proof (rule exI [of _ "brute_alert (tl_cfg ?t) ip k now"], rule exI [of _ k], rule conjI [OF a(1) conjI [OF a(2)]],
      intro allI impI)
    fix n' s' as and ses :: "send_env \<times> send_env"
    assume s': "system en cfg n' s' \<and> sy_pending s' = brute_alert (tl_cfg ?t) ip k now # as \<and>
      \<not> withheld (brute_alert (tl_cfg ?t) ip k now) (fst ses) (sy_mn s')"
    then obtain mn' al where "turn en cfg (AuthAlert (brute_alert (tl_cfg ?t) ip k now) ses) (sy_mn s') = Some mn'"
        "toRow (en_details en) al \<in> set (st_ch (mn_store mn'))"
        "al = stamp_alert cfg (se_random (fst ses)) (se_clock (fst ses) 0) (brute_alert (tl_cfg ?t) ip k now)"
      using auth_alert_stored [OF _ assms(2,3), of en n' s'] by blast
    then show "\<exists>mn' r. turn en cfg (AuthAlert (brute_alert (tl_cfg ?t) ip k now) ses) (sy_mn s') = Some mn' \<and>
        r \<in> set (st_ch (mn_store mn')) \<and>
        w_RuleID r = ''ssh_bruteforce'' \<and> w_Severity r = SeverityHigh \<and> w_Scope r = ScopeHostName \<and>
        w_Reason r = ''SSH brute-force: '' @ show_nat k @ '' failed authentications from '' @ ip @ '' within '' @
          show_duration (lt_Window (tl_cfg ?t))"
      using brute_row by blast
  qed
qed

definition ssh_start :: start_env where
  "ssh_start = ex_start\<lparr>sv_env := (\<lambda>k. if k = ''KW_LOG_ENABLED'' then ''false'' else if k = ''KW_DB_ENABLED'' then ''true''
     else if k = ''KW_DB_PASSWORD'' then ''s3cret'' else if k = ''KW_AUTHLOG_ENABLED'' then ''true''
     else if k = ''KW_SSH_BRUTE_THRESHOLD'' then ''2'' else [])\<rparr>"

definition guess :: string where
  "guess = ''Invalid user x from 9.9.9.9'' @ [CHR 0x0A]"

lemma guess_source: "FailedAuthIP guess = Some ''9.9.9.9''"
  by code_simp

lemma guess_lines: "lines_of (guess @ guess) = [guess, guess]"
  by (simp add: guess_def lines_of.simps)

lemma ssh_start_loads: "validate (\<lambda>_. None) (load_fields (sv_env ssh_start)) = None"
  by code_simp

lemma ssh_start_fields:
  "\<not> customRules (load_fields (sv_env ssh_start)) \<and> \<not> cfg_LogEnabled (load_fields (sv_env ssh_start)) \<and>
   \<not> cfg_APIEnabled (load_fields (sv_env ssh_start)) \<and> cfg_DBEnabled (load_fields (sv_env ssh_start)) \<and>
   cfg_AuthLogEnabled (load_fields (sv_env ssh_start)) \<and> cfg_SSHBruteThreshold (load_fields (sv_env ssh_start)) = 2 \<and>
   cfg_SSHBruteWindow (load_fields (sv_env ssh_start)) = 60 \<and> cfg_AlertMaxRate (load_fields (sv_env ssh_start)) = 10 \<and>
   cfg_AlertMinSeverity (load_fields (sv_env ssh_start)) = SeverityMedium"
  by code_simp

text \<open>The tailer opens the empty log in one poll and finds both lines in the next.\<close>

lemma ssh_polls:
  assumes "tail_fixed (load_fields (sv_env ssh_start)) t" and "tl_f t = None" and "tk_hit (tl_tr t) = []"
  shows "LogTail.tick (poll 0 [] 0 [] 1) t = (t\<lparr>tl_f := Some 0, tl_pos := 0, tl_offset := 0\<rparr>, [])"
    and "\<exists>t'. LogTail.tick (poll 0 [] 0 (guess @ guess) 7) (t\<lparr>tl_f := Some 0, tl_pos := 0, tl_offset := 0\<rparr>) =
      (t', [brute_alert (tl_cfg t) ''9.9.9.9'' 2 7])"
proof -
  have th: "tk_threshold (tl_tr t) = 2" "tk_window (tl_tr t) = 60000000000"
    using assms(1) ssh_start_fields by (simp_all add: tail_fixed_def newTracker_def seconds_small Let_def)
  let ?t = "t\<lparr>tl_f := Some 0, tl_pos := 0, tl_offset := 0\<rparr>"
  show "LogTail.tick (poll 0 [] 0 [] 1) t = (?t, [])"
    using assms(2) by (simp add: LogTail.tick_def poll_def openAtEnd_def reopen_def Let_def read_loop.simps)
  have at: "at_offset 0 ?t = ?t" by (simp add: at_offset_def)
  have "LogTail.tick (poll 0 [] 0 (guess @ guess) 7) (at_offset 0 ?t) =
    (case handle_lines ?t (zip (lines_of (guess @ guess)) (map (\<lambda>k. 7) [0..<length (lines_of (guess @ guess))])) of
       (t', as) \<Rightarrow> (at_offset (0 + consumed (lines_of (guess @ guess))) t', as))"
    using tick_same_file [of ?t 0 0 "poll 0 [] 0 (guess @ guess) 7"] by (simp add: poll_def keeps_file_def)
  then show "\<exists>t'. LogTail.tick (poll 0 [] 0 (guess @ guess) 7) ?t = (t', [brute_alert (tl_cfg t) ''9.9.9.9'' 2 7])"
    by (simp add: at guess_lines handleLine_def guess_source add_def hits_def assms(3) th time_after_def numeral_2_eq_2 Let_def)
qed

theorem ssh_attack_recorded_witness:
  "\<exists>s a mn' r. system ex_en (load_fields (sv_env ssh_start)) 0 s \<and> sy_pending s = [a] \<and>
     turn ex_en (load_fields (sv_env ssh_start)) (AuthAlert a (ex_se, ex_se)) (sy_mn s) = Some mn' \<and>
     r \<in> set (st_ch (mn_store mn')) \<and> w_RuleID r = ''ssh_bruteforce''"
proof -
  let ?fl = "\<lparr>fl_version = False, fl_health = False, fl_validate = False\<rparr>" and ?cfg = "load_fields (sv_env ssh_start)"
  have load: "Load (\<lambda>_. None) (sv_env ssh_start) = Inr ?cfg" by (simp add: Load_def ssh_start_loads)
  have sv: "sv_stat ssh_start = (\<lambda>_. None)" "sv_collectorOk ssh_start" "sv_suppressions ssh_start = Inr []"
    by (simp_all add: ssh_start_def ex_start_def)
  obtain al where al: "alerter_New ?cfg True (fst (sv_logOk ssh_start)) (snd (sv_logOk ssh_start)) (sv_files ssh_start) = Inr al"
    using ssh_start_fields by (simp add: alerter_New_def Let_def)
  let ?d = "det_New (src_readDir (sv_rules ssh_start)) (src_readFile (sv_rules ssh_start)) (src_decode (sv_rules ssh_start)) ?cfg"
  let ?mn = "start_monitor ?cfg (SetSuppressions [] ?d) al"
  have "main_start ?fl ssh_start = Running ?cfg ?mn"
    using ssh_start_fields al
    by (simp add: main_start_def load sv Let_def reloadSuppressions_def start_monitor_def)
  note run0 = system.start [OF this, of ex_en 7]
  let ?s0 = "initial ?cfg 7 ?mn"
  let ?t = "(sy_tail ?s0)\<lparr>tl_f := Some 0, tl_pos := 0, tl_offset := 0\<rparr>" and ?te = "poll 0 [] 0 (guess @ guess) 7"
  have t0: "tail_fixed ?cfg (sy_tail ?s0)" "tl_f (sy_tail ?s0) = None" "tk_hit (tl_tr (sy_tail ?s0)) = []"
    using system_tail [OF run0] by (simp_all add: initial_def lt_New_def newTracker_def Let_def)
  obtain t' where t': "LogTail.tick ?te ?t = (t', [brute_alert (tl_cfg (sy_tail ?s0)) ''9.9.9.9'' 2 7])"
    using ssh_polls(2) [OF t0] by blast
  have on: "cfg_AuthLogEnabled ?cfg" "cfg_DBEnabled ?cfg" using ssh_start_fields by blast+
  have idle: "sy_pending ?s0 = []" by (simp add: initial_def)
  obtain s1 where run1: "system ex_en ?cfg 0 s1" and s1: "sy_tail s1 = ?t" "sy_pending s1 = []" "sy_mn s1 = ?mn"
    using system.poll [OF run0 on(1) idle ssh_polls(1) [OF t0]] by (auto simp: initial_def)
  define s2 where "s2 = s1\<lparr>sy_tail := t', sy_pending := [brute_alert (tl_cfg (sy_tail ?s0)) ''9.9.9.9'' 2 7]\<rparr>"
  have run2: "system ex_en ?cfg 0 s2"
    unfolding s2_def by (rule system.poll [OF run1 on(1) s1(2)]) (unfold s1(1), rule t')
  have tail: "tl_f (sy_tail s1) = Some 0" "tl_pos (sy_tail s1) = length []" "tl_offset (sy_tail s1) = length []"
    "growing 0 [] [?te]" by (simp_all add: s1 poll_def keeps_file_def)
  have many: "cfg_SSHBruteThreshold ?cfg \<le>
      int (length (filter (\<lambda>l. FailedAuthIP l = Some ''9.9.9.9'') (lines_of (List.drop (length []) (content 0 [] [?te])))))"
    using ssh_start_fields by (simp add: poll_def guess_lines guess_source)
  have clock: "te_clk te j - te_clk te' k < ssh_window ?cfg" if "te \<in> set [?te]" "te' \<in> set [?te]" for te te' j k
    using that ssh_start_fields by (simp add: poll_def ssh_window_def seconds_small)
  from ssh_attack_recorded [OF run1 on tail many clock] obtain a where
    a: "a \<in> set (snd (ticks [?te] (sy_tail s1)))" and
    rep: "\<And>n' s' as ses. system ex_en ?cfg n' s' \<and> sy_pending s' = a # as \<and> \<not> withheld a (fst ses) (sy_mn s') \<Longrightarrow>
      \<exists>mn' r. turn ex_en ?cfg (AuthAlert a ses) (sy_mn s') = Some mn' \<and> r \<in> set (st_ch (mn_store mn')) \<and>
        w_RuleID r = ''ssh_bruteforce''" by blast
  have eq: "a = brute_alert (tl_cfg (sy_tail ?s0)) ''9.9.9.9'' 2 7" using a by (simp add: s1(1) t')
  have "\<not> withheld a (fst (ex_se, ex_se)) (sy_mn s2)"
    using ssh_start_fields alerter_New_fields [OF al]
    by (simp add: eq s2_def s1 withheld_def start_monitor_def newStore_def bufferSize_def isRateLimited_def Let_def)
      (simp add: severityRank_def SeverityLow_def SeverityMedium_def SeverityHigh_def)
  with run2 have "\<exists>mn' r. turn ex_en ?cfg (AuthAlert a (ex_se, ex_se)) (sy_mn s2) = Some mn' \<and>
      r \<in> set (st_ch (mn_store mn')) \<and> w_RuleID r = ''ssh_bruteforce''"
    by (intro rep [of 0 s2 "[]"]) (simp add: eq s2_def)
  with run2 show ?thesis by (intro exI [of _ s2] exI [of _ a]) (simp add: eq s2_def)
qed

end
