(* ===== verification/Settings.thy ===== *)
theory Settings
  imports Pipeline
begin

text \<open>
  The alert settings over the whole program: what \<open>Load\<close> of \<open>internal/config/config.go\<close> accepted at the start, and
  \<open>Send\<close> of \<open>internal/alerter/alerter.go\<close> decides by, holds of everything that is stored or sent in any run.
\<close>

section \<open>What the settings allow\<close>

text \<open>An alert is worth passing on: an incident always is, another one by its severity and while the quota is positive.\<close>

definition worthy :: "config \<Rightarrow> bool \<Rightarrow> string \<Rightarrow> bool" where
  "worthy cfg incident severity \<longleftrightarrow>
     incident \<or> 0 < cfg_AlertMaxRate cfg \<and> severityRank (cfg_AlertMinSeverity cfg) \<le> severityRank severity"

fun destination_on :: "config \<Rightarrow> dispatch \<Rightarrow> bool" where
  "destination_on cfg (ToSink a) = cfg_DBEnabled cfg"
| "destination_on cfg (ToWebhook a) = (cfg_WebhookEnabled cfg \<and> cfg_WebhookURL cfg \<noteq> [] \<and> cfg_Mode cfg = ''alert'')"
| "destination_on cfg (ToSlack a) = (cfg_SlackEnabled cfg \<and> cfg_SlackWebhookURL cfg \<noteq> [] \<and> cfg_Mode cfg = ''alert'')"

definition dispatch_meant :: "config \<Rightarrow> dispatch \<Rightarrow> bool" where
  "dispatch_meant cfg d \<longleftrightarrow> destination_on cfg d \<and> worthy cfg (IsIncident (dispatched d)) (a_Severity (dispatched d))"

definition row_meant :: "config \<Rightarrow> row \<Rightarrow> bool" where
  "row_meant cfg r \<longleftrightarrow> cfg_DBEnabled cfg \<and> worthy cfg (TagAttackChain \<in> set (w_Tags r)) (w_Severity r)"

lemma row_meant_toRow: "row_meant cfg (toRow marshal a) = dispatch_meant cfg (ToSink a)"
  by (simp add: row_meant_def dispatch_meant_def IsIncident_iff toRow_def Let_def)

section \<open>The alerter keeps to them\<close>

definition loadable :: "config \<Rightarrow> bool" where
  "loadable cfg \<longleftrightarrow> (\<exists>stat env. Load stat env = Inr cfg)"

lemma loadable_destinations:
  assumes "loadable cfg"
  shows "cfg_Mode cfg = ''alert'' \<or> cfg_Mode cfg = ''monitor''" and "cfg_WebhookEnabled cfg \<Longrightarrow> cfg_WebhookURL cfg \<noteq> []"
    and "cfg_SlackEnabled cfg \<Longrightarrow> cfg_SlackWebhookURL cfg \<noteq> []"
  using assms by (auto simp: loadable_def Load_Inr_iff validate_None_iff config_ok_def)

lemma passed_filter:
  "send_filter a al now1 now2 = (False, a1) \<Longrightarrow> worthy (al_cfg a) (IsIncident al) (a_Severity al)"
  by (auto simp: send_filter_def isRateLimited_def worthy_def Let_def not_less split: if_splits prod.splits)

lemma Send_meant:
  assumes s: "Send marshal openOk random clock al0 a = (ds, al, a')" and "loadable (al_cfg a)" and "al_sink a = cfg_DBEnabled (al_cfg a)"
  shows "list_all (dispatch_meant (al_cfg a)) ds"
proof -
  let ?al = "stamp_alert (al_cfg a) random (clock 0) al0"
  obtain dropped a1 where f: "send_filter a ?al (clock 1) (clock 2) = (dropped, a1)" by fastforce
  show ?thesis
  proof (cases dropped)
    case True
    with s f show ?thesis by (simp add: Send_def Let_def)
  next
    case False
    with f have "worthy (al_cfg a) (IsIncident ?al) (a_Severity ?al)" using passed_filter by simp
    moreover have "al_cfg a1 = al_cfg a" "al_sink a1 = al_sink a" using send_filter_keeps [OF f] by simp_all
    ultimately show ?thesis
      using s f False assms(3) loadable_destinations [OF assms(2)]
      by (auto simp: Send_def Let_def dispatch_meant_def split: if_splits)
  qed
qed

lemma persisted_sink: "al \<in> set (persisted ds) \<longleftrightarrow> ToSink al \<in> set ds"
proof (induction ds)
  case (Cons d ds)
  then show ?case by (cases d) auto
qed simp

lemma deliver_held_meant:
  assumes "list_all (row_meant cfg) (held s)" and "list_all (dispatch_meant cfg) ds"
  shows "list_all (row_meant cfg) (held (deliver en ds s))"
proof -
  have "list_all (row_meant cfg) (map (toRow (en_details en)) (persisted ds))"
    using assms(2) by (simp add: list_all_iff row_meant_toRow persisted_sink)
  moreover have "list_all (row_meant cfg) rs \<Longrightarrow> list_all (row_meant cfg) (held t) \<Longrightarrow>
      list_all (row_meant cfg) (held (fold put_row rs t))" for rs t
  proof (induction rs arbitrary: t)
    case (Cons r rs)
    have "list_all (row_meant cfg) (held (put_row r t))"
      using Cons.prems put_row_held [of r t] unfolding list_all_iff by auto
    with Cons show ?case by simp
  qed simp
  ultimately show ?thesis using assms(1) by (simp add: deliver_persisted)
qed

section \<open>The program keeps to them\<close>

definition mn_meant :: "config \<Rightarrow> monitor \<Rightarrow> bool" where
  "mn_meant cfg mn \<longleftrightarrow> loadable cfg \<and> al_cfg (mn_al mn) = cfg \<and> al_sink (mn_al mn) = cfg_DBEnabled cfg \<and>
     list_all (row_meant cfg) (held (mn_store mn)) \<and> list_all (dispatch_meant cfg) (mn_sent mn)"

lemma send_alert_meant: "mn_meant cfg mn \<Longrightarrow> mn_meant cfg (snd (send_alert en se a mn))"
proof -
  assume mn: "mn_meant cfg mn"
  obtain ds al a' where s: "Send (en_payload en) (se_openOk se) (se_random se) (se_clock se) a (mn_al mn) = (ds, al, a')"
    using prod_cases3 by blast
  have "list_all (dispatch_meant cfg) ds" using Send_meant [OF s] mn by (simp add: mn_meant_def)
  with mn Send_keeps [OF s] deliver_held_meant [of cfg "mn_store mn" ds en] show ?thesis
    by (simp add: send_alert_def s mn_meant_def)
qed

lemma report_meant: "mn_meant cfg mn \<Longrightarrow> mn_meant cfg (snd (report en ses a mn))"
proof -
  assume "mn_meant cfg mn"
  then have 1: "mn_meant cfg (snd (send_alert en (fst ses) a mn))" by (rule send_alert_meant)
  then have "mn_meant cfg ((snd (send_alert en (fst ses) a mn))\<lparr>mn_corr := c\<rparr>)" for c by (simp add: mn_meant_def)
  with 1 send_alert_meant show ?thesis by (auto simp: report_def split: prod.splits option.splits)
qed

lemma report_all_meant: "mn_meant cfg mn \<Longrightarrow> mn_meant cfg (report_all en ses n as mn)"
proof (induction as arbitrary: n mn)
  case (Cons a as)
  let ?mn = "mn\<lparr>mn_alerted := mn_alerted mn + 1\<rparr>"
  have "mn_meant cfg (snd (report en (ses n) a ?mn))" using Cons.prems by (intro report_meant) (simp add: mn_meant_def)
  then have "mn_meant cfg ((snd (report en (ses n) a ?mn))\<lparr>mn_alerted := k\<rparr>)" "mn_meant cfg (snd (report en (ses n) a ?mn))" for k
    by (simp_all add: mn_meant_def)
  with Cons.IH show ?case by (simp add: case_prod_beta)
qed simp

lemma turn_meant: "turn en cfg i mn = Some mn' \<Longrightarrow> mn_meant cfg mn \<Longrightarrow> mn_meant cfg mn'"
proof (cases i)
  case (EventReceived e clock ses)
  assume t: "turn en cfg i mn = Some mn'" "mn_meant cfg mn"
  then have "mn_meant cfg (mn\<lparr>mn_det := d, mn_processed := k\<rparr>)" for d k by (simp add: mn_meant_def)
  with t EventReceived show ?thesis
    by (auto simp: turn_def handle_event_def case_prod_beta intro: report_all_meant)
next
  case (AuthAlert a ses)
  assume "turn en cfg i mn = Some mn'" "mn_meant cfg mn"
  with AuthAlert show ?thesis by (auto simp: turn_def report_meant split: if_splits)
qed (auto simp: turn_def reloadRules_def reloadSuppressions_def mn_meant_def split: sum.splits if_splits)

lemma started_meant:
  assumes "main_start fl v = Running cfg mn"
  shows "mn_meant cfg mn"
proof -
  have "loadable cfg" "mn_store mn = newStore" "mn_sent mn = []"
    using assms
    by (auto simp: loadable_def main_start_def Let_def start_monitor_def reloadSuppressions_def split: if_splits sum.splits)
  with started_fixed [OF assms] started_allowed [OF assms] show ?thesis
    by (simp add: mn_meant_def mn_fixed_def mn_allowed_def newStore_def held_def)
qed

lemma system_meant: "system en cfg n s \<Longrightarrow> mn_meant cfg (sy_mn s)"
proof (induction rule: system.induct)
  case (start fl v mn pid)
  then show ?case by (simp add: initial_def started_meant)
next
  case (persist n s st)
  then show ?case using worker_held [OF persist.hyps(2)] by (auto simp: mn_meant_def list_all_iff)
next
  case (shutdown n s)
  then show ?case by (simp add: mn_meant_def Close_def held_def)
qed (auto intro: turn_meant)

section \<open>Property\<close>

text \<open>
  C38. Nothing leaves that the alert settings do not mean to leave: in every reachable state of the whole program, each
  alert handed to a destination goes to one that is switched on, with its address set, and outside monitor mode if it
  is not the database; and each of them, like each row in the database, in the batch or in the buffer, is an incident
  or has at least the minimum severity. The quota is part of this: \<open>Load\<close> accepts a quota that is not positive, and then
  the alerts of incidents are all that is ever stored or sent.
\<close>

theorem settings_respected:
  assumes "system en cfg n s"
  shows "list_all (dispatch_meant cfg) (mn_sent (sy_mn s)) \<and>
    list_all (row_meant cfg) (st_db (mn_store (sy_mn s)) @ st_batch (mn_store (sy_mn s)) @ st_ch (mn_store (sy_mn s))) \<and>
    (cfg_AlertMaxRate cfg \<le> 0 \<longrightarrow>
      list_all (\<lambda>d. TagAttackChain \<in> set (a_Tags (dispatched d))) (mn_sent (sy_mn s)) \<and>
      list_all (\<lambda>r. TagAttackChain \<in> set (w_Tags r)) (st_db (mn_store (sy_mn s)) @ st_ch (mn_store (sy_mn s))))"
proof -
  note ok = system_meant [OF assms, unfolded mn_meant_def held_def]
  have "TagAttackChain \<in> set (w_Tags r)" if "cfg_AlertMaxRate cfg \<le> 0" "row_meant cfg r" for r
    using that by (simp add: row_meant_def worthy_def)
  moreover have "TagAttackChain \<in> set (a_Tags (dispatched d))" if "cfg_AlertMaxRate cfg \<le> 0" "dispatch_meant cfg d" for d
    using that by (simp add: dispatch_meant_def worthy_def IsIncident_iff)
  ultimately show ?thesis using ok unfolding list_all_append by (simp add: list_all_iff)
qed

text \<open>At work: a module load in a run whose quota is 0, which the configuration accepts.\<close>

definition mute_start :: start_env where
  "mute_start = db_start\<lparr>sv_env := (\<lambda>k. if k = ''KW_ALERT_MAX_RATE'' then ''0'' else sv_env db_start k)\<rparr>"

lemma mute_start_loads: "validate (\<lambda>_. None) (load_fields (sv_env mute_start)) = None"
  by code_simp

lemma mute_start_fields:
  "\<not> customRules (load_fields (sv_env mute_start)) \<and> \<not> cfg_LogEnabled (load_fields (sv_env mute_start)) \<and>
   \<not> cfg_APIEnabled (load_fields (sv_env mute_start)) \<and> cfg_DBEnabled (load_fields (sv_env mute_start)) \<and>
   cfg_AlertMaxRate (load_fields (sv_env mute_start)) = 0 \<and>
   cfg_ContainerBlacklist (load_fields (sv_env mute_start)) = [] \<and> cfg_ContainerWhitelist (load_fields (sv_env mute_start)) = []"
  by code_simp

theorem settings_respected_witness:
  "\<exists>n s. system ex_en (load_fields (sv_env mute_start)) n s \<and> mn_processed (sy_mn s) = 1 \<and>
     list_all (\<lambda>r. TagAttackChain \<in> set (w_Tags r)) (st_ch (mn_store (sy_mn s)))"
proof -
  let ?fl = "\<lparr>fl_version = False, fl_health = False, fl_validate = False\<rparr>" and ?cfg = "load_fields (sv_env mute_start)"
  have load: "Load (\<lambda>_. None) (sv_env mute_start) = Inr ?cfg" by (simp add: Load_def mute_start_loads)
  have sv: "sv_stat mute_start = (\<lambda>_. None)" "sv_collectorOk mute_start" "sv_suppressions mute_start = Inr []"
    by (simp_all add: mute_start_def db_start_def ex_start_def)
  obtain al where al: "alerter_New ?cfg True (fst (sv_logOk mute_start)) (snd (sv_logOk mute_start)) (sv_files mute_start) = Inr al"
    using mute_start_fields by (simp add: alerter_New_def Let_def)
  then obtain mn where start: "main_start ?fl mute_start = Running ?cfg mn" and zero: "mn_processed mn = 0"
    using mute_start_fields
    by (auto simp: main_start_def load sv Let_def reloadSuppressions_def start_monitor_def)
  note run = system.start [OF start, of ex_en 7]
  let ?le = "quiet_env\<lparr>le_proc := host_env\<rparr>" and ?bs = "kernel_record (\<lambda>i. 0) module_load"
  let ?s = "initial ?cfg 7 mn" and ?s1 = "(initial ?cfg 7 mn)\<lparr>sy_co := loop_step (quiet_env\<lparr>le_proc := host_env\<rparr>)
      (kernel_record (\<lambda>i. 0) module_load) (sy_co (initial ?cfg 7 mn))\<rparr>"
  have start: "sy_co ?s = collector_New ?cfg 7 (5 * 60 * 1000000000)" "sy_mn ?s = mn" "\<not> sy_stopped ?s"
    by (simp_all add: initial_def)
  have prog: "((''syscalls'', ''sys_enter_finit_module''), trace_finit_module) \<in> set programs" "kernel_ok shadow_open"
    "snd (''syscalls'', ''sys_enter_finit_module'') \<in> {''sys_enter_init_module'', ''sys_enter_finit_module''}"
    by (simp_all add: programs_def tracepoints_def kernel_ok_def shadow_open_def eval_nat_numeral)
  have "ucast (drop_bit 32 (ts_pid_tgid ex_task)) = (7 :: 32 word)" by (simp add: ex_task_def drop_bit_eq_div)
  then have k: "kernel_ok module_load" "k_event_type module_load = EventModule" "k_pid module_load = 7"
    unfolding module_load_def using programs_ok [OF prog(1,2)] module_programs [OF prog(1,3)] by simp_all
  let ?info = "\<lparr>c_ID = replicate 64 CHR ''a'', c_ShortID = replicate 12 CHR ''a'', c_Name = replicate 12 CHR ''a'', c_ImageName = [], c_ResolvedAt = 1\<rparr>"
  have "snd (Resolve host_env 7 (mapper_New (5 * 60 * 1000000000))) = Some ?info" by code_simp
  then obtain m where res: "Resolve (le_proc ?le) (k_pid module_load) (co_mapper (sy_co ?s)) = (m, Some ?info)"
    unfolding start k(3)
    by (cases "Resolve host_env 7 (mapper_New (5 * 60 * 1000000000))") (simp add: collector_New_def)
  have mon: "IsMonitored (co_cfg (sy_co ?s)) (c_Name ?info)" "length (co_out (sy_co ?s)) < channel_capacity"
    using mute_start_fields by (simp_all add: start collector_New_def IsMonitored_def channel_capacity_def)
  obtain e where "co_out (sy_co ?s1) = co_out (sy_co ?s) @ [e]"
    using module_record_queued [OF k(1,2) res mon, of "\<lambda>i. 0"] by auto
  then have "\<exists>co. receive (sy_co ?s1) = Some (e, co)"
    unfolding start by (simp add: receive_def collector_New_def)
  then obtain co where rc: "receive (sy_co ?s1) = Some (e, co)" by blast
  have t: "turn ex_en ?cfg (EventReceived e (\<lambda>_. 9) (\<lambda>_. (ex_se, ex_se))) (sy_mn ?s1) =
      Some (handle_event ex_en (\<lambda>_. (ex_se, ex_se)) (\<lambda>_. 9) e (sy_mn ?s1))"
    by (simp add: turn_def)
  have live: "\<not> sy_stopped ?s1" using start(3) by simp
  note run1 = system.event [OF system.sample [OF run, of ?le ?bs] live rc t]
  have "mn_processed (handle_event ex_en (\<lambda>_. (ex_se, ex_se)) (\<lambda>_. 9) e (sy_mn ?s1)) = 1"
    using zero start(2) by (simp add: handle_event_def case_prod_beta report_all_corr)
  with run1 settings_respected [OF run1] mute_start_fields show ?thesis
    by (intro exI [of _ "0 + of_bool (wanted ?le ?bs (sy_co ?s))"]) auto
qed

end
