(* ===== verification/Spec2Isabelle.thy ===== *)
theory Spec2Isabelle
  imports Lexemes Overlays RulesParity Detection Limiter Routes Pool Lifecycle Bruteforce Settings
begin

text \<open>
  KernelWatch: an intrusion detector for containers and their host, written in Go. Kernel events reach user
  space through a ring buffer; the collector decodes, filters and enriches them; the detector runs the YAML
  rule engine on each event; the alerter sends what it finds to a log, a database, a webhook and Slack; the
  correlator joins the findings of a container to incidents; an auth-log tailer and a REST API stand beside.
  This development models the whole of that path as HOL functions on records, one theory per component, and
  proves what makes each part and their composition correct. Source paths below are relative to \<open>src/\<close>.

  Foundations.
    \<open>Prelude\<close>: Go's byte strings and the parts of \<open>strings\<close>, \<open>strconv\<close> and \<open>time\<close> the program uses,
    errors as sums, association lists, the collections \<open>go_str\<close>, \<open>go_time\<close>, \<open>res_simps\<close>.
    \<open>GoInt\<close>: wrap-around of 64-bit integers, hexadecimal text, durations, a file map.
    \<open>Window\<close>: the locale \<open>sliding_window\<close>, interpreted by the correlator (\<open>contribs\<close>), the brute-force tracker
    (\<open>hits\<close>) and the rate limiter (\<open>rate\<close>). \<open>Channel\<close>: the locale \<open>lossy_channel\<close>, a bounded send that counts what
    it drops, interpreted by the collector (\<open>chan\<close>) and the store (\<open>buffer\<close>). \<open>Streams\<close>: the locale
    \<open>stream_refinement\<close>, which carries a simulation of single calls to whole runs, interpreted by the detector
    (\<open>detection\<close>) and the rate limiter (\<open>limiter\<close>). The locale \<open>lineage_provider\<close> of
    \<open>RuleTypes\<close> is the contract between the rule engine and the detector's lineage adapter.

  Data and configuration.
    \<open>Events\<close>, \<open>Alerts\<close>: the event and alert records (\<open>internal/collector/collector.go\<close>, \<open>internal/alerter/alerter.go\<close>).
    \<open>Config\<close>: \<open>internal/config/config.go\<close>, every field of \<open>Load\<close>, \<open>validate\<close>, \<open>IsMonitored\<close>, \<open>DSN\<close>.
    \<open>Suppress\<close>: \<open>internal/suppress/suppress.go\<close>; what a set of suppressions silences is stated in \<open>Detection\<close>.

  The rule engine, \<open>internal/ruleengine\<close>.
    \<open>RuleTypes\<close> (types.go, schema.go), \<open>Lexer\<close> and \<open>Lexemes\<close> (lexer.go), \<open>Macros\<close> (macros.go), \<open>EvalEnv\<close>
    (env.go), \<open>Pred\<close>, \<open>Parser\<close> and \<open>Grammar\<close> (parser.go), \<open>Engine\<close> (engine.go), \<open>Compile\<close> (compile.go), \<open>Loader\<close>
    and \<open>Overlays\<close> (loader.go), \<open>DefaultRules\<close> (the embedded default.yaml).
    The closures the parser builds are the datatype \<open>pred\<close>; \<open>run_pred\<close> is their evaluation with the caches of
    the context. \<open>Overlays.run_pred_value\<close> and \<open>Match_is_findings\<close> show that caching, short circuits and loops
    compute a plain specification (\<open>findings\<close>); \<open>Lexemes\<close> spells out each kind of token and shows that the lexer
    divides a text into the longest of them; \<open>Grammar\<close> gives the grammar of conditions as relations and
    shows that the recursive descent accepts exactly it; \<open>Macros\<close> shows totality of the resolution with its
    cycle check; \<open>Loader\<close> and \<open>Overlays\<close> what every loaded ruleset satisfies and what overlays can do.

  Detection, \<open>internal/detector\<close>.
    \<open>Classifier\<close> (lists.go, lists_host.go), \<open>LegacyRules\<close> (rules.go, rules_host.go, parity_test.go), \<open>RulesParity\<close>
    (the embedded rules against the Go rules, on all events), \<open>Detector\<close> (detector.go): deduplication refines an
    unbounded history, a check is exact and sound. \<open>Detection\<close>: checks and reloads in any order, as a refinement of
    a detector that keeps every emission, and suppressions as a filter on the alerts.

  Collection, \<open>ebpf\<close>, \<open>internal/collector\<close> and \<open>internal/container\<close>.
    \<open>Tracer\<close>: the kernel-side programs of \<open>ebpf/tracer.c\<close>, from the entry of a system call to its record, and what
    user space reads of it. \<open>RawEvents\<close>: the record of \<open>ebpf/tracer.c\<close> as the C compiler lays it out, as Go's \<open>RawEvent\<close> reads it, and what
    \<open>parseEvent\<close> makes of it. \<open>Mapper\<close> (mapper.go, docker.go), \<open>Lineage\<close> (parent.go), \<open>Collector\<close> (collector.go,
    hostfilter.go): the read loop as a step relation with the bounded channel. \<open>Lifecycle\<close> (collector.go): \<open>Start\<close>
    with its error paths, \<open>Stop\<close>, \<open>cleanup\<close> and \<open>Stats\<close>, over the answers of the eBPF library; a start holds everything
    or nothing. \<open>HostCoverage\<close>: the collector's allowlist against the paths of the embedded rules.

  Correlation and alerting.
    \<open>Correlator\<close> (\<open>internal/correlator/correlator.go\<close>): runs of \<open>Observe\<close> as an inductive relation, with an invariant that
    relates each chain to the history of its findings. \<open>ECS\<close>, \<open>RateLimit\<close>, \<open>Limiter\<close>, \<open>Alerter\<close>, \<open>Delivery\<close>
    (\<open>internal/alerter\<close>): the ECS document, the limiter and its specification without forgetting, \<open>Send\<close> with its log and rotation, the webhook and Slack
    posts and their retries. \<open>AuthLog\<close> and \<open>LogTail\<close> (\<open>internal/logtail\<close>): the regular expressions with Go's
    leftmost-first matching, the tracker, the rounds of the tailer.

  Storage and interface.
    \<open>Storage\<close> (\<open>internal/storage/postgres.go\<close>): the buffer, the steps of the worker with the shutdown, the retries.
    \<open>Schema\<close>: the SQL texts, compared with each other. \<open>Query\<close> (\<open>internal/storage/query.go\<close>), \<open>Pool\<close> (postgres.go): the
    lazily created pool, \<open>ensureSchema\<close>, \<open>insertBatch\<close>, and the positions of the insert against those of the scan, over
    any table that keeps what the types of its columns keep. \<open>Api\<close>
    (\<open>internal/api/api.go\<close>): the token check and the handlers; \<open>Routes\<close>: the registered patterns and their matching, the
    states of the listener, and sequences of requests.

  The program, \<open>main.go\<close>.
    \<open>Monitor\<close>: startup with its subcommands, and the main loop as a fold over inputs: events, auth-log alerts, reloads
    of rules and suppressions, signals: what the correlator sees, what reaches the database, that the detector is
    never without rules, and that the rules in force are the ones the operator configured.
    \<open>System\<close>: the whole program as a step relation that interleaves the collector, the eviction loop, the main loop, the tailer, the
    reloaders and the store's worker. Its invariant \<open>sys_inv\<close> says that nothing the operator excluded is reported and
    that every kernel record is accounted for; a suppression posted through the API is in force at once.
    \<open>Pipeline\<close>: one module load from the system call to the row in the store, in any reachable state. \<open>Bruteforce\<close>:
    a password-guessing attack from the lines of the auth log to the row in the store. \<open>Settings\<close>: the alert settings
    that \<open>Load\<close> accepted hold of everything any run stores or sends.

  State and errors. Maps are association lists with the library's \<open>AList\<close> operations, files a map from paths to
  contents. Every raise, early return and ignored error is a branch: \<open>'e + 'a\<close> where the code returns an error,
  \<open>'a option\<close> where the reason is not kept. Counters that can wrap are \<open>64 word\<close>; process ids, flags and ports are
  words of their width; Go's \<open>int\<close> is \<open>int\<close>, with \<open>wrap64\<close> where the code computes with unbounded input.

  Parameters of the model are the clock, random bytes, /proc and the other files, the answers of the
  database, of HTTP servers and of the Docker socket, \<open>json.Marshal\<close> and \<open>Unmarshal\<close>, the YAML decoder, HMAC. The
  theorems hold for all of them; where one needs a law of a parameter it is a premise, and its witness
  discharges it on a concrete one.

  Bounds. No definition uses fuel: the lexer, the parser, macro resolution and the tailer's read loop are
  functions with termination proofs; three attempts of an insert or a delivery, 2000 rows of the buffer, 100 of a
  batch and 1000 events of the channel are the constants of the code.

  Not modelled. What the kernel does beside the eBPF programs, the calls of the eBPF library (their answers are
  parameters), the transport of the HTTP server, the structured log on
  standard output, and locks: operations under a mutex are atomic, and goroutines are interleaved as steps or
  inputs. Case folding and white space are those of ASCII. The names of the paths a container sees are
  taken as the kernel gives them.
\<close>

end
